(* ===== verification/Prelude.thy ===== *)
theory Prelude
  imports Main "HOL-Library.Word" "HOL-Library.Char_ord" "HOL-Library.List_Lexorder"
    "HOL-Library.Multiset" "HOL-Library.AList" "HOL-Library.Sublist"
begin

text \<open>
  The vocabulary every component theory shares: Go's fixed-width conversions, instants and
  durations, the functions of Go's \<open>strings\<close> package the program calls, Go maps, and errors.

  \<^item> \<open>int32\<close> values are \<open>int\<close>s; the conversion \<open>int32(v)\<close> is \<open>to_int32\<close>, with the wrap-around
    written out. It is the signed reading of the 32-bit word of \<open>v\<close> (\<open>to_int32_sint\<close>).
  \<^item> \<open>time.Time\<close> is the number of nanoseconds since Go's zero instant (1 January of year 1,
    UTC), so that \<open>t.IsZero()\<close> is \<open>t = 0\<close>. \<open>time.Duration\<close> is a number of nanoseconds, and
    \<open>t.Sub(u)\<close> saturates at the bounds of a 64-bit integer, as Go's does.
  \<^item> Strings and byte slices are \<open>string\<close> (lists of bytes), compared byte by byte.
  \<^item> A Go map is an association list with distinct keys. Its order stands for the order in which
    \<open>range\<close> visits the map, which Go leaves open: results that must not depend on it are shown
    not to (the components' order-independence lemmas).
\<close>

section \<open>Collections of facts\<close>

named_theorems go_strings \<open>the functions of package strings and their evaluation\<close>
named_theorems go_time \<open>instants and durations\<close>
named_theorems go_ints \<open>conversions between integer widths\<close>

section \<open>Fixed-width integers\<close>

type_synonym int32 = int
type_synonym int64 = int

definition to_int32 :: "int \<Rightarrow> int32" where
  "to_int32 v = (v + 2 ^ 31) mod 2 ^ 32 - 2 ^ 31"

definition is_int32 :: "int \<Rightarrow> bool" where
  "is_int32 v \<longleftrightarrow> - (2 ^ 31) \<le> v \<and> v < 2 ^ 31"

definition to_int64 :: "int \<Rightarrow> int64" where
  "to_int64 v = (v + 2 ^ 63) mod 2 ^ 64 - 2 ^ 63"

section \<open>Instants and durations\<close>

type_synonym time = int
type_synonym duration = int

definition nanosecond :: duration where "nanosecond = 1"
definition second :: duration where "second = 1000000000"
definition minute :: duration where "minute = 60 * second"

definition min_duration :: duration where "min_duration = - (2 ^ 63)"
definition max_duration :: duration where "max_duration = 2 ^ 63 - 1"

definition time_sub :: "time \<Rightarrow> time \<Rightarrow> duration" where
  "time_sub t u = max min_duration (min max_duration (t - u))"

section \<open>Strings\<close>

definition has_prefix :: "string \<Rightarrow> string \<Rightarrow> bool" where
  "has_prefix s p \<longleftrightarrow> take (length p) s = p"

definition has_suffix :: "string \<Rightarrow> string \<Rightarrow> bool" where
  "has_suffix s p \<longleftrightarrow> length p \<le> length s \<and> drop (length s - length p) s = p"

definition trim_prefix :: "string \<Rightarrow> string \<Rightarrow> string" where
  "trim_prefix s p = (if has_prefix s p then drop (length p) s else s)"

text \<open>The ASCII white space of \<open>strings.TrimSpace\<close>: tab, line feed, vertical tab, form feed,
  carriage return and blank.\<close>

definition is_space :: "char \<Rightarrow> bool" where
  "is_space c \<longleftrightarrow> c \<in> {CHR 0x09, CHR 0x0A, CHR 0x0B, CHR 0x0C, CHR 0x0D, CHR '' ''}"

definition trim_left :: "(char \<Rightarrow> bool) \<Rightarrow> string \<Rightarrow> string" where
  "trim_left p s = dropWhile p s"

definition trim_right :: "(char \<Rightarrow> bool) \<Rightarrow> string \<Rightarrow> string" where
  "trim_right p s = rev (dropWhile p (rev s))"

definition trim_space :: "string \<Rightarrow> string" where
  "trim_space s = trim_right is_space (trim_left is_space s)"

text \<open>\<open>strings.Split(s, sep)\<close> for a separator of one byte; the empty string gives one empty part.\<close>

fun str_split :: "char \<Rightarrow> string \<Rightarrow> string list" where
  "str_split c [] = [[]]"
| "str_split c (x # xs) =
     (if x = c then [] # str_split c xs
      else case str_split c xs of [] \<Rightarrow> [[x]] | p # ps \<Rightarrow> (x # p) # ps)"

fun str_join :: "char \<Rightarrow> string list \<Rightarrow> string" where
  "str_join c [] = []"
| "str_join c [p] = p"
| "str_join c (p # q # ps) = p @ c # str_join c (q # ps)"

text \<open>The verb \<open>%q\<close> on printable text without quotes or backslashes.\<close>

definition quoted :: "string \<Rightarrow> string" where
  "quoted s = CHR 0x22 # s @ [CHR 0x22]"

section \<open>Maps\<close>

type_synonym ('k, 'v) gomap = "('k \<times> 'v) list"

definition keys :: "('k, 'v) gomap \<Rightarrow> 'k list" where
  "keys m = map fst m"

text \<open>\<open>m[k] += n\<close> on a \<open>map[string]int\<close>: a missing key reads as 0.\<close>

definition map_incr :: "'k \<Rightarrow> int \<Rightarrow> ('k, int) gomap \<Rightarrow> ('k, int) gomap" where
  "map_incr k n m = AList.update k ((case map_of m k of None \<Rightarrow> 0 | Some v \<Rightarrow> v) + n) m"

definition count_of :: "('k, int) gomap \<Rightarrow> 'k \<Rightarrow> int" where
  "count_of m k = (case map_of m k of None \<Rightarrow> 0 | Some v \<Rightarrow> v)"

section \<open>Sorting\<close>

text \<open>\<open>sort.Slice(xs, lt)\<close>. Go leaves the order of elements that are equivalent under \<open>lt\<close>
  open; the model keeps them in their original order. Where the code's \<open>lt\<close> never ties, the
  result is the only sorted arrangement (\<open>sort_slice_unique\<close>).\<close>

fun insert_by :: "('a \<Rightarrow> 'a \<Rightarrow> bool) \<Rightarrow> 'a \<Rightarrow> 'a list \<Rightarrow> 'a list" where
  "insert_by lt x [] = [x]"
| "insert_by lt x (y # ys) = (if lt y x then y # insert_by lt x ys else x # y # ys)"

fun sort_slice :: "('a \<Rightarrow> 'a \<Rightarrow> bool) \<Rightarrow> 'a list \<Rightarrow> 'a list" where
  "sort_slice lt [] = []"
| "sort_slice lt (x # xs) = insert_by lt x (sort_slice lt xs)"

section \<open>Errors\<close>

text \<open>An error is its message and whether \<open>apierrors.IsNotFound\<close> (for client errors) or
  \<open>errors.Is(err, ErrNotFound)\<close> (for the workflow fetcher) holds of it.\<close>

datatype error = Error (err_not_found: bool) (err_text: string)

section \<open>Lemmas on integers and time\<close>

lemma to_int32_id [simp, go_ints]: "is_int32 v \<Longrightarrow> to_int32 v = v"
  by (simp add: is_int32_def to_int32_def)

lemma to_int64_id [go_ints]: "- (2 ^ 63) \<le> v \<Longrightarrow> v < 2 ^ 63 \<Longrightarrow> to_int64 v = v"
  by (simp add: to_int64_def)

lemma is_int32_to_int32 [simp, intro, go_ints]: "is_int32 (to_int32 v)"
proof -
  have "0 \<le> (v + 2 ^ 31) mod 2 ^ 32" "(v + 2 ^ 31) mod 2 ^ 32 < 2 ^ 32" by simp_all
  then show ?thesis by (simp add: is_int32_def to_int32_def)
qed

lemma to_int32_sint [go_ints]: "to_int32 v = sint (word_of_int v :: 32 word)"
  by (simp add: to_int32_def sint_sbintrunc' signed_take_bit_eq_take_bit_shift
      take_bit_eq_mod)

lemma to_int32_add [go_ints]: "to_int32 (to_int32 a + b) = to_int32 (a + b)"
proof -
  have "to_int32 a + b + 2 ^ 31 = (a + 2 ^ 31) mod 2 ^ 32 + b"
    by (simp add: to_int32_def)
  moreover have "(a + b + 2 ^ 31) = (a + 2 ^ 31) + b" by simp
  ultimately show ?thesis
    unfolding to_int32_def by (metis mod_add_left_eq)
qed

lemma to_int32_add_right [go_ints]: "to_int32 (a + to_int32 b) = to_int32 (a + b)"
  using to_int32_add [of b a] by (simp add: add.commute)

lemma time_sub_exact [go_time]:
  "min_duration \<le> t - u \<Longrightarrow> t - u \<le> max_duration \<Longrightarrow> time_sub t u = t - u"
  by (simp add: time_sub_def)

lemma time_sub_less [go_time]: "d \<le> max_duration \<Longrightarrow> t - u < d \<Longrightarrow> time_sub t u < d \<or> d \<le> min_duration"
  by (auto simp: time_sub_def max_def min_def)

lemma time_sub_ge [go_time]: "d \<le> max_duration \<Longrightarrow> d \<le> t - u \<Longrightarrow> d \<le> time_sub t u"
  by (auto simp: time_sub_def max_def min_def)

lemma time_sub_geD [go_time]: "min_duration < d \<Longrightarrow> d \<le> time_sub t u \<Longrightarrow> d \<le> t - u"
  by (auto simp: time_sub_def max_def min_def split: if_splits)

section \<open>Lemmas on strings\<close>

lemma has_prefix_iff [go_strings]: "has_prefix s p \<longleftrightarrow> prefix p s"
  by (metis append_take_drop_id has_prefix_def prefix_def append_eq_conv_conj)

lemma has_suffix_iff [go_strings]: "has_suffix s p \<longleftrightarrow> suffix p s"
proof
  assume "has_suffix s p"
  then have "s = take (length s - length p) s @ p"
    by (metis append_take_drop_id has_suffix_def)
  then show "suffix p s" by (metis suffix_def)
next
  assume "suffix p s"
  then show "has_suffix s p" by (auto simp: has_suffix_def suffix_def)
qed

lemma str_split_not_Nil [simp]: "str_split c s \<noteq> []"
  by (cases s) (auto split: list.split)

lemma str_split_no_sep [go_strings]: "c \<notin> set s \<Longrightarrow> str_split c s = [s]"
  by (induction s) auto

lemma str_split_append [go_strings]:
  "c \<notin> set p \<Longrightarrow> str_split c (p @ c # s) = p # str_split c s"
  by (induction p) auto

text \<open>Joining separator-free parts and splitting again gives the parts back; joining after
  splitting always gives the string back.\<close>

lemma split_join [go_strings]:
  "ps \<noteq> [] \<Longrightarrow> (\<forall>p \<in> set ps. c \<notin> set p) \<Longrightarrow> str_split c (str_join c ps) = ps"
proof (induction c ps rule: str_join.induct)
  case (3 c p q ps)
  then show ?case using str_split_append [of c p] by simp
qed (simp_all add: str_split_no_sep)

lemma join_Cons_split [go_strings]: "str_join c (p # str_split c s) = p @ c # str_join c (str_split c s)"
  by (cases "str_split c s") auto

lemma join_split [go_strings]: "str_join c (str_split c s) = s"
proof (induction s)
  case (Cons x xs)
  obtain p ps where sp: "str_split c xs = p # ps"
    by (meson neq_Nil_conv str_split_not_Nil)
  show ?case
  proof (cases "x = c")
    case True
    then show ?thesis using Cons.IH join_Cons_split [of c "[]" xs] by simp
  next
    case False
    then show ?thesis using Cons.IH sp by (cases ps) auto
  qed
qed simp

section \<open>Lemmas on maps\<close>

lemma keys_simps [simp]: "keys [] = []" "keys ((k, v) # m) = k # keys m"
  by (simp_all add: keys_def)

lemma set_keys: "set (keys m) = dom (map_of m)"
  by (simp add: keys_def dom_map_of_conv_image_fst)

lemma count_of_incr [simp]: "count_of (map_incr k n m) j = count_of m j + (if j = k then n else 0)"
  by (simp add: count_of_def map_incr_def update_conv')

lemma keys_incr: "set (keys (map_incr k n m)) = insert k (set (keys m))"
  by (auto simp: set_keys map_incr_def update_conv')

lemma distinct_keys_incr [simp]: "distinct (keys m) \<Longrightarrow> distinct (keys (map_incr k n m))"
  by (simp add: keys_def map_incr_def distinct_update)

lemma count_of_absent [simp]: "k \<notin> set (keys m) \<Longrightarrow> count_of m k = 0"
  by (auto simp: count_of_def set_keys split: option.split)

section \<open>Lemmas on maxima\<close>

lemma Max_insert_max:
  fixes a b :: int
  shows "finite B \<Longrightarrow> Max (insert (max a b) B) = Max (insert a (insert b B))"
  by (cases "B = {}") (simp_all add: max.assoc)

section \<open>Lemmas on sorting\<close>

lemma mset_insert_by [simp]: "mset (insert_by lt x ys) = add_mset x (mset ys)"
  by (induction ys) auto

lemma set_insert_by [simp]: "set (insert_by lt x ys) = insert x (set ys)"
  by (metis mset_insert_by set_mset_add_mset_insert set_mset_mset)

lemma mset_sort_slice [simp]: "mset (sort_slice lt xs) = mset xs"
  by (induction xs) auto

lemma length_sort_slice [simp]: "length (sort_slice lt xs) = length xs"
  by (metis mset_sort_slice size_mset)

lemma set_sort_slice [simp]: "set (sort_slice lt xs) = set xs"
  by (metis mset_sort_slice set_mset_mset)

text \<open>A comparison \<open>lt x y\<close> that compares \<open>key x < key y\<close> in a linear order: the result is sorted
  by the key, and it is the only arrangement that is when the keys are distinct.\<close>

lemma sorted_insert_by:
  assumes "\<And>x y. lt x y \<longleftrightarrow> key x < (key y :: 'k :: linorder)"
  shows "sorted (map key ys) \<Longrightarrow> sorted (map key (insert_by lt x ys))"
proof (induction ys)
  case (Cons y ys)
  with assms show ?case by (auto simp: not_less)
qed simp

lemma sorted_sort_slice:
  assumes "\<And>x y. lt x y \<longleftrightarrow> key x < (key y :: 'k :: linorder)"
  shows "sorted (map key (sort_slice lt xs))"
  by (induction xs) (simp_all add: sorted_insert_by [OF assms])

lemma sort_slice_unique:
  assumes lt: "\<And>x y. lt x y \<longleftrightarrow> key x < (key y :: 'k :: linorder)"
    and perm: "mset ys = mset xs" and sorted: "sorted (map key ys)" and inj: "inj_on key (set xs)"
  shows "ys = sort_slice lt xs"
proof -
  have "mset (map key ys) = mset (map key (sort_slice lt xs))"
    by (metis mset_map mset_sort_slice perm)
  then have "map key ys = map key (sort_slice lt xs)"
    using sorted sorted_sort_slice [of lt key xs, OF lt] by (metis properties_for_sort)
  moreover have "inj_on key (set ys \<union> set (sort_slice lt xs))"
    using inj perm by (metis Un_absorb set_mset_mset set_sort_slice)
  ultimately show ?thesis by (simp add: inj_on_map_eq_map)
qed

end
