(* ===== verification/Labels.thy ===== *)
theory Labels
  imports Prelude
begin

text \<open>
  Label sets (\<open>internal/predictor/predictor.go\<close>) and the label filter of the policy controller
  (\<open>splitLabelSetKey\<close> and \<open>labelsSuperset\<close> in \<open>internal/controller/warmrunnerpolicy_controller.go\<close>).

  A demand snapshot is keyed by the string \<open>LabelSetKey\<close> makes of a job's runs-on labels; the
  controller takes the key apart again and asks whether the labels include the policy's own. The
  locale \<open>label_filter\<close> is what the rest of the program relies on in such a filter. It is
  interpreted here on the controller's \<open>labelsSuperset\<close>, and on the demand poller's \<open>labelsMatch\<close>
  in theory Poller.
\<close>

section \<open>The code\<close>

text \<open>The loop of \<open>LabelSetKey\<close>: \<open>seen\<close> is the set of labels met so far, \<open>uniq\<close> the slice of first
  occurrences.\<close>

fun uniq_labels :: "string list \<Rightarrow> string list \<Rightarrow> string list \<Rightarrow> string list" where
  "uniq_labels seen uniq [] = uniq"
| "uniq_labels seen uniq (l # ls) =
     (if List.member seen l then uniq_labels seen uniq ls
      else uniq_labels (l # seen) (uniq @ [l]) ls)"

definition LabelSetKey :: "string list \<Rightarrow> string" where
  "LabelSetKey labels =
     (if length labels = 0 then []
      else str_join (CHR '','') (sort (uniq_labels [] [] labels)))"

definition splitLabelSetKey :: "string \<Rightarrow> string list" where
  "splitLabelSetKey key = (if key = [] then [] else str_split (CHR '','') key)"

text \<open>The loop over \<open>want\<close> in \<open>labelsSuperset\<close>.\<close>

fun all_wanted :: "string list \<Rightarrow> string list \<Rightarrow> bool" where
  "all_wanted have [] = True"
| "all_wanted have (w # ws) = (if \<not> List.member have w then False else all_wanted have ws)"

definition labelsSuperset :: "string list \<Rightarrow> string list \<Rightarrow> bool" where
  "labelsSuperset have want = (if length want = 0 then True else all_wanted have want)"

text \<open>A label a key can carry without ambiguity: non-empty and free of the separator.\<close>

definition plain_label :: "string \<Rightarrow> bool" where
  "plain_label l \<longleftrightarrow> l \<noteq> [] \<and> CHR '','' \<notin> set l"

definition plain_labels :: "string list \<Rightarrow> bool" where
  "plain_labels ls \<longleftrightarrow> (\<forall>l \<in> set ls. plain_label l)"

text \<open>A key in the form \<open>LabelSetKey\<close> gives to a list of plain labels.\<close>

definition canonical_key :: "string \<Rightarrow> bool" where
  "canonical_key k \<longleftrightarrow> (\<exists>ls. plain_labels ls \<and> k = LabelSetKey ls)"

section \<open>The interface of a label filter\<close>

locale label_filter =
  fixes superset :: "string list \<Rightarrow> string list \<Rightarrow> bool"
  assumes superset_iff: "superset have want \<longleftrightarrow> set want \<subseteq> set have"
begin

lemma superset_empty: "superset have []"
  by (simp add: superset_iff)

lemma superset_trans: "superset a b \<Longrightarrow> superset b c \<Longrightarrow> superset a c"
  by (auto simp: superset_iff)

lemma superset_cong: "set a = set b \<Longrightarrow> superset a want = superset b want"
  by (simp add: superset_iff)

lemma superset_append: "superset have (w1 @ w2) \<longleftrightarrow> superset have w1 \<and> superset have w2"
  by (auto simp: superset_iff)

end

lemma all_wanted_iff: "all_wanted have want \<longleftrightarrow> set want \<subseteq> set have"
  by (induction want) auto

interpretation policy_filter: label_filter labelsSuperset
  by unfold_locales (simp add: labelsSuperset_def all_wanted_iff)

section \<open>Keys\<close>

lemma uniq_labels_set: "set seen = set uniq \<Longrightarrow> set (uniq_labels seen uniq ls) = set uniq \<union> set ls"
  by (induction seen uniq ls rule: uniq_labels.induct) auto

lemma uniq_labels_distinct:
  "set seen = set uniq \<Longrightarrow> distinct uniq \<Longrightarrow> distinct (uniq_labels seen uniq ls)"
  by (induction seen uniq ls rule: uniq_labels.induct) auto

lemma sort_uniq: "sort (uniq_labels [] [] ls) = sorted_list_of_set (set ls)"
proof -
  have "set (uniq_labels [] [] ls) = set ls" by (simp add: uniq_labels_set)
  moreover have "distinct (uniq_labels [] [] ls)" by (simp add: uniq_labels_distinct)
  ultimately show ?thesis by (metis distinct_remdups_id sorted_list_of_set_sort_remdups)
qed

lemma LabelSetKey_eq: "LabelSetKey ls = str_join (CHR '','') (sorted_list_of_set (set ls))"
  by (cases "ls = []") (simp_all add: LabelSetKey_def sort_uniq)

lemma str_join_eq_Nil: "str_join c ps = [] \<longleftrightarrow> ps = [] \<or> ps = [[]]"
  by (induction c ps rule: str_join.induct) auto

lemma LabelSetKey_eq_Nil: "plain_labels ls \<Longrightarrow> LabelSetKey ls = [] \<longleftrightarrow> ls = []"
proof -
  assume "plain_labels ls"
  then have "sorted_list_of_set (set ls) \<noteq> [[]]"
    by (metis List.finite_set list.set_intros(1) plain_label_def plain_labels_def
        set_sorted_list_of_set)
  then show ?thesis by (auto simp: LabelSetKey_eq str_join_eq_Nil)
qed

text \<open>\<open>splitLabelSetKey\<close> inverts \<open>LabelSetKey\<close> up to order and repetition.\<close>

lemma split_key: "plain_labels ls \<Longrightarrow> splitLabelSetKey (LabelSetKey ls) = sorted_list_of_set (set ls)"
proof (cases "ls = []")
  case False
  assume p: "plain_labels ls"
  with False have "LabelSetKey ls \<noteq> []" by (simp add: LabelSetKey_eq_Nil)
  moreover have "str_split (CHR '','') (LabelSetKey ls) = sorted_list_of_set (set ls)"
    unfolding LabelSetKey_eq
    using p False by (intro split_join) (auto simp: plain_labels_def plain_label_def)
  ultimately show ?thesis by (simp add: splitLabelSetKey_def)
qed (simp add: LabelSetKey_def splitLabelSetKey_def)

lemma set_split_key [simp]: "plain_labels ls \<Longrightarrow> set (splitLabelSetKey (LabelSetKey ls)) = set ls"
  by (simp add: split_key)

lemma LabelSetKey_cong: "set ls = set ls' \<Longrightarrow> LabelSetKey ls = LabelSetKey ls'"
  by (simp add: LabelSetKey_eq)

lemma key_split [simp]: "canonical_key k \<Longrightarrow> LabelSetKey (splitLabelSetKey k) = k"
  by (auto simp: canonical_key_def intro: LabelSetKey_cong)

lemma canonical_keyI [intro]: "plain_labels ls \<Longrightarrow> canonical_key (LabelSetKey ls)"
  by (auto simp: canonical_key_def)

section \<open>Properties\<close>

text \<open>C39. For labels that are non-empty and contain no comma, the key identifies the set of labels and
  nothing else (order and repetition do not matter), splitting a key gives exactly those labels,
  sorted and without repetition, and the policy's filter on the split key asks what it should of
  the job's own labels.\<close>

theorem label_key_roundtrip:
  assumes "plain_labels ls" "plain_labels ls'"
  shows "(LabelSetKey ls = LabelSetKey ls' \<longleftrightarrow> set ls = set ls')
    \<and> splitLabelSetKey (LabelSetKey ls) = sorted_list_of_set (set ls)
    \<and> LabelSetKey (splitLabelSetKey (LabelSetKey ls)) = LabelSetKey ls
    \<and> (labelsSuperset (splitLabelSetKey (LabelSetKey ls)) want \<longleftrightarrow> set want \<subseteq> set ls)"
proof (intro conjI)
  show "LabelSetKey ls = LabelSetKey ls' \<longleftrightarrow> set ls = set ls'"
    using set_split_key [OF assms(1)] set_split_key [OF assms(2)] LabelSetKey_cong [of ls ls'] by metis
  show "splitLabelSetKey (LabelSetKey ls) = sorted_list_of_set (set ls)"
    using assms(1) by (rule split_key)
  show "LabelSetKey (splitLabelSetKey (LabelSetKey ls)) = LabelSetKey ls"
    by (rule key_split [OF canonical_keyI [OF assms(1)]])
  show "labelsSuperset (splitLabelSetKey (LabelSetKey ls)) want \<longleftrightarrow> set want \<subseteq> set ls"
    unfolding policy_filter.superset_iff set_split_key [OF assms(1)] ..
qed

theorem label_key_roundtrip_witness:
  "LabelSetKey [''self-hosted'', ''gpu'', ''gpu''] = LabelSetKey [''gpu'', ''self-hosted'']
   \<and> labelsSuperset (splitLabelSetKey (LabelSetKey [''self-hosted'', ''gpu'', ''gpu''])) [''gpu'']"
proof -
  have "plain_labels [''self-hosted'', ''gpu'', ''gpu'']" "plain_labels [''gpu'', ''self-hosted'']" by code_simp+
  note rt = label_key_roundtrip [OF this, of "[''gpu'']"]
  have "set [''self-hosted'', ''gpu'', ''gpu''] = set [''gpu'', ''self-hosted'']"
    and "set [''gpu''] \<subseteq> set [''self-hosted'', ''gpu'', ''gpu'']" by code_simp+
  then show ?thesis
    using rt [THEN conjunct1] rt [THEN conjunct2, THEN conjunct2, THEN conjunct2] by iprover
qed

text \<open>Without that condition the key is ambiguous: a label with a comma is taken apart.\<close>

lemma comma_label_ambiguous:
  "LabelSetKey [''a,b''] = LabelSetKey [''a'', ''b'']
   \<and> labelsSuperset (splitLabelSetKey (LabelSetKey [''a,b''])) [''a'']
   \<and> \<not> labelsSuperset (splitLabelSetKey (LabelSetKey [''a,b''])) [''a,b'']"
  by code_simp

end
