(* ===== verification/Strconv.thy ===== *)
theory Strconv
  imports Prelude
begin

text \<open>
  Text and numbers, as the program uses Go's packages \<open>strconv\<close> and \<open>encoding/hex\<close>: decimal digits,
  \<open>strconv.ParseInt(s, 10, 64)\<close>, the verb \<open>%d\<close>, \<open>hex.DecodeString\<close> and \<open>hex.EncodeToString\<close>.
\<close>

section \<open>Definitions\<close>

definition digit_between :: "char \<Rightarrow> char \<Rightarrow> char \<Rightarrow> bool" where
  "digit_between lo hi c \<longleftrightarrow> lo \<le> c \<and> c \<le> hi"

definition is_digit :: "char \<Rightarrow> bool" where
  "is_digit c \<longleftrightarrow> digit_between (CHR ''0'') (CHR ''9'') c"

definition digit_val :: "char \<Rightarrow> int" where
  "digit_val c = int (of_char c) - 48"

definition digits_val :: "string \<Rightarrow> int" where
  "digits_val ds = foldl (\<lambda>acc c. 10 * acc + digit_val c) 0 ds"

text \<open>\<open>strconv.ParseInt(s, 10, 64)\<close>; \<open>None\<close> is a syntax or range error.\<close>

definition parse_int64 :: "string \<Rightarrow> int option" where
  "parse_int64 s =
     (let neg = (case s of c # _ \<Rightarrow> c = CHR ''-'' | [] \<Rightarrow> False);
          ds = (case s of c # r \<Rightarrow> if c = CHR ''-'' \<or> c = CHR ''+'' then r else s | [] \<Rightarrow> s);
          v = (if neg then - digits_val ds else digits_val ds)
      in if ds = [] \<or> \<not> list_all is_digit ds \<or> v < - (2 ^ 63) \<or> 2 ^ 63 \<le> v then None else Some v)"

definition digit_char :: "nat \<Rightarrow> char" where
  "digit_char d = char_of (48 + d)"

fun show_nat :: "nat \<Rightarrow> string" where
  "show_nat n = (if n < 10 then [digit_char n] else show_nat (n div 10) @ [digit_char (n mod 10)])"

declare show_nat.simps [simp del]

text \<open>The verb \<open>%d\<close>.\<close>

definition show_int :: "int \<Rightarrow> string" where
  "show_int v = (if v < 0 then CHR ''-'' # show_nat (nat (- v)) else show_nat (nat v))"

section \<open>Hexadecimal text\<close>

definition from_hex_char :: "char \<Rightarrow> nat option" where
  "from_hex_char c =
     (if digit_between (CHR ''0'') (CHR ''9'') c then Some (of_char c - 48)
      else if digit_between (CHR ''a'') (CHR ''f'') c then Some (of_char c - 87)
      else if digit_between (CHR ''A'') (CHR ''F'') c then Some (of_char c - 55)
      else None)"

text \<open>\<open>hex.DecodeString\<close>: two digits a byte; an odd length or any other byte is an error.\<close>

fun hex_decode :: "string \<Rightarrow> string option" where
  "hex_decode [] = Some []"
| "hex_decode [c] = None"
| "hex_decode (c # d # s) =
     (case (from_hex_char c, from_hex_char d) of
        (Some a, Some b) \<Rightarrow> map_option (\<lambda>r. char_of (16 * a + b) # r) (hex_decode s)
      | _ \<Rightarrow> None)"

definition hex_digit :: "nat \<Rightarrow> char" where
  "hex_digit d = (if d < 10 then char_of (48 + d) else char_of (87 + d))"

definition hex_encode :: "string \<Rightarrow> string" where
  "hex_encode bs = concat (map (\<lambda>b. [hex_digit (of_char b div 16), hex_digit (of_char b mod 16)]) bs)"

section \<open>Decimal digits\<close>

lemma digit_val_range:
  assumes "digit_between (CHR ''0'') hi c"
  shows "0 \<le> digit_val c \<and> digit_val c \<le> digit_val hi"
  using assms by (auto simp: digit_between_def digit_val_def less_eq_char_def)

lemma digits_val_simps [simp]:
  "digits_val [] = 0" "digits_val [a] = digit_val a" "digits_val [a, b] = 10 * digit_val a + digit_val b"
  by (simp_all add: digits_val_def)

lemma digits_val_snoc [simp]: "digits_val (ds @ [d]) = 10 * digits_val ds + digit_val d"
  by (simp add: digits_val_def)

lemma digit_char_props:
  assumes "d < 10"
  shows "digit_val (digit_char d) = int d" "is_digit (digit_char d)"
  using assms by (auto simp: digit_char_def digit_val_def is_digit_def digit_between_def less_eq_char_def)

lemma show_nat_digits: "list_all is_digit (show_nat n) \<and> show_nat n \<noteq> [] \<and> digits_val (show_nat n) = int n"
proof (induction n rule: show_nat.induct)
  case (1 n)
  show ?case
  proof (cases "n < 10")
    case True
    then show ?thesis by (simp add: show_nat.simps [of n] digit_char_props)
  next
    case False
    then have "int n = 10 * int (n div 10) + int (n mod 10)" by presburger
    then show ?thesis
      using 1 [OF False] False by (simp add: show_nat.simps [of n] digit_char_props)
  qed
qed

text \<open>What \<open>%d\<close> prints, \<open>ParseInt\<close> reads.\<close>

lemma parse_show_int:
  assumes "- (2 ^ 63) \<le> v" "v < 2 ^ 63"
  shows "parse_int64 (show_int v) = Some v"
proof -
  note d = show_nat_digits [of "nat v"] and dn = show_nat_digits [of "nat (- v)"]
  obtain c r where s: "show_nat (nat v) = c # r" using d by (cases "show_nat (nat v)") auto
  then have "is_digit c" using d by simp
  then have "c \<noteq> CHR ''-''" "c \<noteq> CHR ''+''"
    by (auto simp: is_digit_def digit_between_def less_eq_char_def)
  then show ?thesis
    using assms d dn s by (auto simp: parse_int64_def show_int_def Let_def)
qed

section \<open>Round trips of hexadecimal text\<close>

lemma from_hex_digit: "d < 16 \<Longrightarrow> from_hex_char (hex_digit d) = Some d"
  by (auto simp: from_hex_char_def hex_digit_def digit_between_def less_eq_char_def)

lemma hex_decode_encode [simp]: "hex_decode (hex_encode bs) = Some bs"
proof (induction bs)
  case (Cons b bs)
  have "of_char b < (256::nat)" by simp
  then have "of_char b div 16 < (16::nat)" by (simp add: div_less_iff_less_mult)
  then show ?case
    using Cons by (simp add: hex_encode_def from_hex_digit)
qed (simp add: hex_encode_def)

end
