(* ===== verification/Api.thy ===== *)
theory Api
  imports Strconv
begin

text \<open>
  The API types of \<open>api/v1alpha1\<close>: \<open>WarmRunnerPolicy\<close> with its spec and status, and
  \<open>GitHubApp\<close>. A Go struct is a record whose field names carry a short prefix of the struct's
  name; a pointer field or a slice the code compares with \<open>nil\<close> is an \<open>option\<close>. Of
  \<open>metav1.ObjectMeta\<close> the code reads the name, the namespace and the generation. The
  validation markers (\<open>+kubebuilder:validation\<close>), which the API server enforces at admission,
  are the executable predicates \<open>valid_window\<close>, \<open>valid_floor\<close> and \<open>valid_spec\<close>.
\<close>

section \<open>The WarmRunnerPolicy resource\<close>

record SecretKeySelector =
  sel_Name :: string
  sel_Key :: string

record AuthRef =
  auth_SecretRef :: SecretKeySelector

record GitHubConfig =
  gh_Owner :: string
  gh_Repository :: string
  gh_Labels :: "string list"
  gh_Auth :: AuthRef

record LocalObjectRef =
  lref_Name :: string

record RefNS =
  rns_Name :: string
  rns_Namespace :: string

record ArcTarget =
  arc_RunnerSet :: RefNS

record GarmTarget =
  garm_Pool :: RefNS

record Target =
  tgt_Arc :: "ArcTarget option"
  tgt_Garm :: "GarmTarget option"

record FloorRange =
  floor_Min :: int32
  floor_Max :: int32

record ScheduleWindow =
  sw_Days :: "string list"
  sw_From :: string
  sw_To :: string
  sw_TZ :: string
  sw_Base :: int32

record QueueRule =
  qr_PollInterval :: duration
  qr_Cooldown :: duration

record PredictorConfig =
  pc_Enabled :: bool
  pc_WorkflowRefreshInterval :: duration
  pc_MaxRunsPerPoll :: int32

record PredictedLabelSet =
  pls_Labels :: "string list"
  pls_Count :: int32

record ActivityConfig =
  ac_Enabled :: bool
  ac_WindowSeconds :: int32
  ac_BotLoginDenylist :: "string list"

record WarmRunnerPolicySpec =
  spec_GitHub :: GitHubConfig
  spec_Target :: Target
  spec_Floor :: FloorRange
  spec_Schedule :: "ScheduleWindow list"
  spec_QueueRule :: QueueRule
  spec_Predictor :: "PredictorConfig option"
  spec_Activity :: "ActivityConfig option"
  spec_DryRun :: bool
  spec_GitHubAppRef :: "LocalObjectRef option"
  spec_ActiveWindowSeconds :: "int32 option"

text \<open>\<open>metav1.Condition\<close>, the fields the code sets and the one the setter maintains.\<close>

record Condition =
  cond_Type :: string
  cond_Status :: bool
  cond_Reason :: string
  cond_Message :: string
  cond_ObservedGeneration :: int64
  cond_LastTransitionTime :: time

record WarmRunnerPolicyStatus =
  st_DesiredFloor :: int32
  st_AppliedFloor :: int32
  st_LastQueueDepth :: int32
  st_LastReconcileTime :: "time option"
  st_LastDecreaseTime :: "time option"
  st_PredictedFloor :: int32
  st_PredictedLabelSets :: "PredictedLabelSet list"
  st_ActivityFloor :: int32
  st_ActivityLabelSets :: "PredictedLabelSet list"
  st_DryRun :: bool
  st_ActiveUntil :: "time option"
  st_LastEventSource :: string
  st_Conditions :: "Condition list"

record WarmRunnerPolicy =
  pol_Name :: string
  pol_Namespace :: string
  pol_Generation :: int64
  pol_Spec :: WarmRunnerPolicySpec
  pol_Status :: WarmRunnerPolicyStatus

definition ActivityConditionReasonAvailable :: string where
  "ActivityConditionReasonAvailable = ''Available''"
definition ActivityConditionReasonSampleError :: string where
  "ActivityConditionReasonSampleError = ''SampleError''"
definition DryRunConditionType :: string where "DryRunConditionType = ''DryRun''"
definition DryRunConditionReasonActive :: string where "DryRunConditionReasonActive = ''Active''"
definition DryRunConditionReasonInactive :: string where
  "DryRunConditionReasonInactive = ''Inactive''"
definition LastEventSourceWebhook :: string where "LastEventSourceWebhook = ''webhook''"
definition LastEventSourcePoll :: string where "LastEventSourcePoll = ''poll''"

text \<open>\<open>Target.Kind\<close>: "arc" or "garm" when exactly one target is set.\<close>

definition Kind :: "Target \<Rightarrow> string" where
  "Kind t =
     (let arc = tgt_Arc t \<noteq> None; garm = tgt_Garm t \<noteq> None in
      if arc \<and> \<not> garm then ''arc''
      else if garm \<and> \<not> arc then ''garm''
      else [])"

section \<open>What admission guarantees\<close>

text \<open>The pattern \<open>^([01][0-9]|2[0-3]):[0-5][0-9]$\<close> of \<open>from\<close> and \<open>to\<close>.\<close>

fun hhmm :: "string \<Rightarrow> bool" where
  "hhmm [a, b, c, d, e] \<longleftrightarrow>
     ((digit_between (CHR ''0'') (CHR ''1'') a \<and> digit_between (CHR ''0'') (CHR ''9'') b)
      \<or> (a = CHR ''2'' \<and> digit_between (CHR ''0'') (CHR ''3'') b))
     \<and> c = CHR '':''
     \<and> digit_between (CHR ''0'') (CHR ''5'') d \<and> digit_between (CHR ''0'') (CHR ''9'') e"
| "hhmm _ \<longleftrightarrow> False"

definition valid_window :: "ScheduleWindow \<Rightarrow> bool" where
  "valid_window w \<longleftrightarrow>
     1 \<le> length (sw_Days w) \<and> length (sw_Days w) \<le> 7
     \<and> hhmm (sw_From w) \<and> hhmm (sw_To w) \<and> sw_From w < sw_To w
     \<and> 0 \<le> sw_Base w \<and> is_int32 (sw_Base w)"

definition valid_floor :: "FloorRange \<Rightarrow> bool" where
  "valid_floor f \<longleftrightarrow>
     0 \<le> floor_Min f \<and> 0 \<le> floor_Max f \<and> floor_Min f \<le> floor_Max f
     \<and> is_int32 (floor_Min f) \<and> is_int32 (floor_Max f)"

definition valid_target :: "Target \<Rightarrow> bool" where
  "valid_target t \<longleftrightarrow>
     (if tgt_Arc t \<noteq> None then 1 else 0) + (if tgt_Garm t \<noteq> None then 1 else 0) = (1::nat)"

definition valid_spec :: "WarmRunnerPolicySpec \<Rightarrow> bool" where
  "valid_spec s \<longleftrightarrow>
     valid_floor (spec_Floor s) \<and> valid_target (spec_Target s)
     \<and> list_all valid_window (spec_Schedule s) \<and> length (spec_Schedule s) \<le> 64
     \<and> gh_Labels (spec_GitHub s) \<noteq> [] \<and> length (gh_Labels (spec_GitHub s)) \<le> 64"

section \<open>The GitHubApp resource\<close>

record SecretKeyRef =
  skr_Name :: string
  skr_Key :: string
  skr_Namespace :: string

record TunnelSpec =
  tun_RelayURL :: string

record GitHubAppIngress =
  ing_Mode :: string
  ing_Hostname :: string
  ing_Tunnel :: "TunnelSpec option"

definition IngressModeIngress :: string where "IngressModeIngress = ''ingress''"
definition IngressModeTunnel :: string where "IngressModeTunnel = ''tunnel''"

record GitHubAppSpec =
  app_AppID :: int64
  app_PrivateKeyRef :: SecretKeyRef
  app_WebhookSecretRef :: SecretKeyRef
  app_Ingress :: GitHubAppIngress

record Installation =
  inst_ID :: int64
  inst_Account :: string
  inst_Repositories :: int32

record GitHubAppStatus =
  ast_Installations :: "Installation list"
  ast_WebhookHealthy :: bool
  ast_LastDelivery :: "time option"
  ast_Conditions :: "Condition list"

record GitHubApp =
  gha_Name :: string
  gha_Generation :: int64
  gha_Spec :: GitHubAppSpec
  gha_Status :: GitHubAppStatus

section \<open>An admitted policy, for concrete instances\<close>

definition example_window :: ScheduleWindow where
  "example_window = \<lparr>sw_Days = [''Mon''], sw_From = ''09:00'', sw_To = ''18:00'',
     sw_TZ = ''UTC'', sw_Base = 3\<rparr>"

definition example_spec :: WarmRunnerPolicySpec where
  "example_spec =
     \<lparr>spec_GitHub = \<lparr>gh_Owner = ''o'', gh_Repository = ''r'', gh_Labels = [''gpu''],
        gh_Auth = \<lparr>auth_SecretRef = \<lparr>sel_Name = ''s'', sel_Key = ''token''\<rparr>\<rparr>\<rparr>,
      spec_Target = \<lparr>tgt_Arc = Some \<lparr>arc_RunnerSet = \<lparr>rns_Name = ''set'', rns_Namespace = ''ns''\<rparr>\<rparr>,
        tgt_Garm = None\<rparr>,
      spec_Floor = \<lparr>floor_Min = 0, floor_Max = 5\<rparr>,
      spec_Schedule = [example_window],
      spec_QueueRule = \<lparr>qr_PollInterval = 30 * second, qr_Cooldown = 2 * minute\<rparr>,
      spec_Predictor = None, spec_Activity = None, spec_DryRun = False,
      spec_GitHubAppRef = None, spec_ActiveWindowSeconds = None\<rparr>"

definition example_status :: WarmRunnerPolicyStatus where
  "example_status =
     \<lparr>st_DesiredFloor = 0, st_AppliedFloor = 0, st_LastQueueDepth = 0,
      st_LastReconcileTime = None, st_LastDecreaseTime = None, st_PredictedFloor = 0,
      st_PredictedLabelSets = [], st_ActivityFloor = 0, st_ActivityLabelSets = [],
      st_DryRun = False, st_ActiveUntil = None, st_LastEventSource = [], st_Conditions = []\<rparr>"

definition example_policy :: WarmRunnerPolicy where
  "example_policy =
     \<lparr>pol_Name = ''p'', pol_Namespace = ''ns'', pol_Generation = 1,
      pol_Spec = example_spec, pol_Status = example_status\<rparr>"

section \<open>Lemmas\<close>

lemma Kind_valid: "valid_target t \<Longrightarrow> Kind t = ''arc'' \<or> Kind t = ''garm''"
  by (auto simp: valid_target_def Kind_def split: if_splits)

lemma Kind_arc: "Kind t = ''arc'' \<longleftrightarrow> tgt_Arc t \<noteq> None \<and> tgt_Garm t = None"
  by (auto simp: Kind_def Let_def)

lemma Kind_garm: "Kind t = ''garm'' \<longleftrightarrow> tgt_Garm t \<noteq> None \<and> tgt_Arc t = None"
  by (auto simp: Kind_def Let_def)

lemma hhmmE:
  assumes "hhmm s"
  obtains a b d e where "s = [a, b, CHR '':'', d, e]"
    and "(digit_between (CHR ''0'') (CHR ''1'') a \<and> digit_between (CHR ''0'') (CHR ''9'') b)
      \<or> (a = CHR ''2'' \<and> digit_between (CHR ''0'') (CHR ''3'') b)"
    and "digit_between (CHR ''0'') (CHR ''5'') d" and "digit_between (CHR ''0'') (CHR ''9'') e"
  using assms by (cases s rule: hhmm.cases) auto

end
