(* ===== verification/Scheduler.thy ===== *)
theory Scheduler
  imports Api
begin

text \<open>
  The schedule signal and the cooldown rule (\<open>internal/scheduler\<close>).

  The IANA time-zone database is data of the machine the operator runs on, so
  \<open>time.LoadLocation\<close> is the parameter \<open>tz\<close>: a zone is the function that gives the offset from
  UTC, in seconds, in force at an instant. Everything else the code asks of the clock (\<open>Weekday\<close>,
  \<open>Hour\<close>, \<open>Minute\<close>) is computed from the instant and the offset, as Go does. \<open>fmt.Sscanf\<close> with the
  format \<open>%d:%d\<close> is modelled in full for ASCII input: leading blanks, signs, missing parts,
  out-of-range numbers.

  The locale \<open>floor_scheduler\<close> is the contract of the \<open>Scheduler\<close> interface the reconciler relies
  on; it is interpreted on \<open>Decide\<close>.
\<close>

section \<open>The code\<close>

record Demand =
  dem_Queued :: int32
  dem_Running :: int32

record Decision =
  dec_DesiredFloor :: int32

type_synonym location = "time \<Rightarrow> int"
type_synonym tzdb = "string \<Rightarrow> location option"

datatype weekday = Sunday | Monday | Tuesday | Wednesday | Thursday | Friday | Saturday

primrec weekdayShort :: "weekday \<Rightarrow> string" where
  "weekdayShort Sunday = ''Sun''"
| "weekdayShort Monday = ''Mon''"
| "weekdayShort Tuesday = ''Tue''"
| "weekdayShort Wednesday = ''Wed''"
| "weekdayShort Thursday = ''Thu''"
| "weekdayShort Friday = ''Fri''"
| "weekdayShort Saturday = ''Sat''"

definition local_seconds :: "location \<Rightarrow> time \<Rightarrow> int" where
  "local_seconds loc t = t div second + loc t"

text \<open>Day 0, 1 January of year 1, is a Monday.\<close>

definition local_weekday :: "location \<Rightarrow> time \<Rightarrow> weekday" where
  "local_weekday loc t =
     [Sunday, Monday, Tuesday, Wednesday, Thursday, Friday, Saturday]
       ! nat ((local_seconds loc t div 86400 + 1) mod 7)"

definition local_hour :: "location \<Rightarrow> time \<Rightarrow> int" where
  "local_hour loc t = local_seconds loc t mod 86400 div 3600"

definition local_minute :: "location \<Rightarrow> time \<Rightarrow> int" where
  "local_minute loc t = local_seconds loc t mod 3600 div 60"

text \<open>\<open>SkipSpace\<close> of the scanner: a line feed in the input is an error.\<close>

fun skip_space :: "string \<Rightarrow> string option" where
  "skip_space [] = Some []"
| "skip_space (c # cs) =
     (if c = CHR 0x0A then None else if is_space c then skip_space cs else Some (c # cs))"

text \<open>The verb \<open>%d\<close> into an \<open>int\<close>: the number and the rest of the input, or the error.\<close>

definition scan_int :: "string \<Rightarrow> (int \<times> string) option" where
  "scan_int s =
     (case skip_space s of
        None \<Rightarrow> None
      | Some s1 \<Rightarrow>
          (let neg = (case s1 of c # _ \<Rightarrow> c = CHR ''-'' | [] \<Rightarrow> False);
               s2 = (case s1 of c # r \<Rightarrow> if c = CHR ''-'' \<or> c = CHR ''+'' then r else s1 | [] \<Rightarrow> s1);
               ds = takeWhile is_digit s2;
               v = (if neg then - digits_val ds else digits_val ds)
           in if ds = [] \<or> v < - (2 ^ 63) \<or> 2 ^ 63 \<le> v then None
              else Some (v, drop (length ds) s2)))"

definition parseHM :: "string \<Rightarrow> int \<times> int" where
  "parseHM s =
     (case scan_int s of
        None \<Rightarrow> (0, 0)
      | Some (h, r) \<Rightarrow>
          (case r of
             c # r' \<Rightarrow>
               if c = CHR '':'' then
                 (case scan_int r' of None \<Rightarrow> (h, 0) | Some (m, _) \<Rightarrow> (h, m))
               else (h, 0)
           | [] \<Rightarrow> (h, 0)))"

definition withinHHMM :: "location \<Rightarrow> time \<Rightarrow> string \<Rightarrow> string \<Rightarrow> bool" where
  "withinHHMM loc t from to =
     (let (fh, fm) = parseHM from;
          (th, tm) = parseHM to;
          h = local_hour loc t; m = local_minute loc t;
          nowMin = h * 60 + m;
          fromMin = to_int64 (to_int64 (fh * 60) + fm);
          toMin = to_int64 (to_int64 (th * 60) + tm)
      in nowMin \<ge> fromMin \<and> nowMin < toMin)"

fun containsDay :: "string list \<Rightarrow> string \<Rightarrow> bool" where
  "containsDay [] today = False"
| "containsDay (d # days) today = (if d = today then True else containsDay days today)"

fun scheduleLoop :: "tzdb \<Rightarrow> time \<Rightarrow> int32 \<Rightarrow> ScheduleWindow list \<Rightarrow> int32" where
  "scheduleLoop tz now best [] = best"
| "scheduleLoop tz now best (w # ws) =
     (case tz (sw_TZ w) of
        None \<Rightarrow> scheduleLoop tz now best ws
      | Some loc \<Rightarrow>
          if \<not> containsDay (sw_Days w) (weekdayShort (local_weekday loc now))
          then scheduleLoop tz now best ws
          else if withinHHMM loc now (sw_From w) (sw_To w)
          then scheduleLoop tz now (if sw_Base w > best then sw_Base w else best) ws
          else scheduleLoop tz now best ws)"

definition scheduleBase :: "tzdb \<Rightarrow> ScheduleWindow list \<Rightarrow> time \<Rightarrow> int32" where
  "scheduleBase tz windows now = scheduleLoop tz now 0 windows"

definition Decide ::
  "tzdb \<Rightarrow> WarmRunnerPolicySpec \<Rightarrow> time \<Rightarrow> Demand \<Rightarrow> int32 \<Rightarrow> time \<Rightarrow> Decision" where
  "Decide tz spec now d currentApplied lastDecreaseAt =
     (let desired = scheduleBase tz (spec_Schedule spec) now;
          desired = (if desired < floor_Min (spec_Floor spec)
                     then floor_Min (spec_Floor spec) else desired);
          desired = (if desired > floor_Max (spec_Floor spec)
                     then floor_Max (spec_Floor spec) else desired);
          desired = (if desired < currentApplied
                        \<and> time_sub now lastDecreaseAt < qr_Cooldown (spec_QueueRule spec)
                     then currentApplied else desired)
      in \<lparr>dec_DesiredFloor = desired\<rparr>)"

section \<open>What the schedule means\<close>

text \<open>The minute of the day a validated \<open>HH:MM\<close> denotes.\<close>

fun minute_of :: "string \<Rightarrow> int" where
  "minute_of [a, b, c, d, e] =
     (10 * digit_val a + digit_val b) * 60 + (10 * digit_val d + digit_val e)"
| "minute_of _ = 0"

definition minute_of_day :: "location \<Rightarrow> time \<Rightarrow> int" where
  "minute_of_day loc t = local_seconds loc t mod 86400 div 60"

text \<open>A window is open at an instant: its zone is known, the local day is listed and the local
  minute of the day is in \<open>[from, to)\<close>.\<close>

definition window_open :: "tzdb \<Rightarrow> time \<Rightarrow> ScheduleWindow \<Rightarrow> bool" where
  "window_open tz now w \<longleftrightarrow>
     (case tz (sw_TZ w) of
        None \<Rightarrow> False
      | Some loc \<Rightarrow>
          weekdayShort (local_weekday loc now) \<in> set (sw_Days w)
          \<and> minute_of (sw_From w) \<le> minute_of_day loc now
          \<and> minute_of_day loc now < minute_of (sw_To w))"

text \<open>The floor the schedule asks for, before the cooldown.\<close>

definition scheduled_floor :: "tzdb \<Rightarrow> WarmRunnerPolicySpec \<Rightarrow> time \<Rightarrow> int32" where
  "scheduled_floor tz spec now =
     min (floor_Max (spec_Floor spec))
       (max (floor_Min (spec_Floor spec)) (scheduleBase tz (spec_Schedule spec) now))"

section \<open>Reading HH:MM\<close>

lemma digit_not_special:
  assumes "is_digit c"
  shows "\<not> is_space c" "c \<noteq> CHR ''-''" "c \<noteq> CHR ''+''" "c \<noteq> CHR '':''" "c \<noteq> CHR 0x0A"
  using assms by (auto simp: is_digit_def digit_between_def is_space_def less_eq_char_def)

lemma scan_two_digits:
  assumes "is_digit a" "is_digit b" "rest = [] \<or> \<not> is_digit (hd rest)"
  shows "scan_int (a # b # rest) = Some (10 * digit_val a + digit_val b, rest)"
proof -
  have tw: "takeWhile is_digit (a # b # rest) = [a, b]"
    using assms by (cases rest) auto
  have v: "0 \<le> digit_val a \<and> digit_val a \<le> 9 \<and> 0 \<le> digit_val b \<and> digit_val b \<le> 9"
    using assms(1,2) digit_val_range [of "CHR ''9''"] by (auto simp: is_digit_def digit_val_def)
  show ?thesis
    using assms tw v digit_not_special [of a] by (simp add: scan_int_def del: takeWhile.simps)
qed

lemma colon_not_digit [simp]: "\<not> is_digit (CHR '':'')"
  by (simp add: is_digit_def digit_between_def less_eq_char_def)

lemma is_digit_hhmm:
  assumes "hhmm [a, b, c, d, e]"
  shows "is_digit a" "is_digit b" "is_digit d" "is_digit e" "c = CHR '':''"
  using assms by (auto simp: is_digit_def digit_between_def less_eq_char_def)

lemma parseHM_hhmm:
  assumes "hhmm [a, b, c, d, e]"
  shows "parseHM [a, b, c, d, e] = (10 * digit_val a + digit_val b, 10 * digit_val d + digit_val e)"
  using is_digit_hhmm [OF assms] scan_two_digits [of a b "[c, d, e]"] scan_two_digits [of d e "[]"]
  by (auto simp: parseHM_def dest: digit_not_special)

lemma hhmm_bounds:
  assumes "hhmm [a, b, c, d, e]"
  shows "0 \<le> 10 * digit_val a + digit_val b" "10 * digit_val a + digit_val b < 24"
    and "0 \<le> 10 * digit_val d + digit_val e" "10 * digit_val d + digit_val e < 60"
  using assms digit_val_range [of "CHR ''1''" a] digit_val_range [of "CHR ''9''" b]
    digit_val_range [of "CHR ''3''" b] digit_val_range [of "CHR ''5''" d]
    digit_val_range [of "CHR ''9''" e]
  by (auto simp: digit_val_def)

lemma minute_of_hhmm:
  assumes "hhmm s"
  shows "parseHM s = (h, m) \<Longrightarrow> minute_of s = h * 60 + m"
    and "0 \<le> minute_of s" "minute_of s < 1440"
proof -
  obtain a b d e where s: "s = [a, b, CHR '':'', d, e]" using assms by (rule hhmmE)
  note b = hhmm_bounds [OF assms [unfolded s]]
  show "parseHM s = (h, m) \<Longrightarrow> minute_of s = h * 60 + m"
    using parseHM_hhmm [OF assms [unfolded s]] s by auto
  show "0 \<le> minute_of s" "minute_of s < 1440" using b s by auto
qed

text \<open>The byte order of two validated times is the order of the minutes they denote: the CRD rule
  \<open>self.from < self.to\<close>, a comparison of strings, says what it means to say.\<close>

lemma digit_less: "a < b \<longleftrightarrow> digit_val a < digit_val b"
  by (simp add: less_char_def digit_val_def)

lemma digit_eq: "a = b \<longleftrightarrow> digit_val a = digit_val b"
  by (auto simp: digit_val_def)

lemma hhmm_less_iff:
  assumes "hhmm s" "hhmm t"
  shows "s < t \<longleftrightarrow> minute_of s < minute_of t"
proof -
  obtain a b d e where s: "s = [a, b, CHR '':'', d, e]" using assms(1) by (rule hhmmE)
  obtain a' b' d' e' where t: "t = [a', b', CHR '':'', d', e']" using assms(2) by (rule hhmmE)
  have dig: "is_digit x \<Longrightarrow> 0 \<le> digit_val x \<and> digit_val x \<le> 9" for x
    using digit_val_range [of "CHR ''9''"] by (auto simp: is_digit_def digit_val_def)
  note ds = is_digit_hhmm [OF assms(1) [unfolded s]] is_digit_hhmm [OF assms(2) [unfolded t]]
  note bs = hhmm_bounds [OF assms(1) [unfolded s]] hhmm_bounds [OF assms(2) [unfolded t]]
  have "s < t \<longleftrightarrow> digit_val a < digit_val a' \<or> digit_val a = digit_val a' \<and>
      (digit_val b < digit_val b' \<or> digit_val b = digit_val b' \<and>
        (digit_val d < digit_val d' \<or> digit_val d = digit_val d' \<and> digit_val e < digit_val e'))"
    by (simp add: s t digit_less digit_eq)
  also have "\<dots> \<longleftrightarrow> minute_of s < minute_of t"
    using ds(1-4,6-9) [THEN dig] bs by (auto simp: s t)
  finally show ?thesis .
qed

section \<open>The schedule base\<close>

lemma minute_of_day_eq: "local_hour loc t * 60 + local_minute loc t = minute_of_day loc t"
proof -
  define y where "y = local_seconds loc t mod 86400"
  have "local_seconds loc t mod 3600 = y mod 3600"
    by (simp add: y_def mod_mod_cancel)
  moreover have "y div 3600 = y div 60 div 60" using zdiv_zmult2_eq [of 60 y 60] by simp
  moreover have "y mod 3600 div 60 = y div 60 mod 60"
    using zmod_zmult2_eq [of 60 y 60] by simp
  ultimately show ?thesis
    by (simp add: local_hour_def local_minute_def minute_of_day_def y_def [symmetric])
qed

lemma withinHHMM_iff:
  assumes "hhmm from" "hhmm to"
  shows "withinHHMM loc t from to \<longleftrightarrow>
    minute_of from \<le> minute_of_day loc t \<and> minute_of_day loc t < minute_of to"
proof -
  obtain fh fm th tm where p: "parseHM from = (fh, fm)" "parseHM to = (th, tm)"
    by (metis surj_pair)
  have f: "minute_of from = fh * 60 + fm" "minute_of to = th * 60 + tm"
    using minute_of_hhmm(1) [OF assms(1) p(1)] minute_of_hhmm(1) [OF assms(2) p(2)] by auto
  have small: "\<bar>h * 60\<bar> < 2 ^ 62 \<and> \<bar>h * 60 + m\<bar> < 2 ^ 62" if hs: "hhmm s" and ps: "parseHM s = (h, m)" for s h m
  proof -
    obtain a b d e where s: "s = [a, b, CHR '':'', d, e]" using hs by (rule hhmmE)
    show ?thesis
      using parseHM_hhmm [OF hs [unfolded s]] hhmm_bounds [OF hs [unfolded s]] ps s
      by (auto simp: abs_if)
  qed
  have w: "to_int64 (to_int64 (h * 60) + m) = h * 60 + m" if "hhmm s" "parseHM s = (h, m)" for s h m
    using small [OF that] by (simp add: to_int64_id abs_less_iff)
  show ?thesis
    using w [OF assms(1) p(1)] w [OF assms(2) p(2)] minute_of_day_eq [of loc t]
    by (simp add: withinHHMM_def Let_def p f)
qed

lemma containsDay_iff [simp]: "containsDay days today \<longleftrightarrow> today \<in> set days"
  by (induction days) auto

lemma scheduleLoop_step:
  assumes "valid_window w"
  shows "scheduleLoop tz now best (w # ws) =
    scheduleLoop tz now (if window_open tz now w then max best (sw_Base w) else best) ws"
  using assms withinHHMM_iff [of "sw_From w" "sw_To w"]
  by (auto simp: window_open_def valid_window_def max_def split: option.split)

lemma scheduleLoop_Max:
  "list_all valid_window ws \<Longrightarrow>
    scheduleLoop tz now best ws = Max (insert best (sw_Base ` {w \<in> set ws. window_open tz now w}))"
proof (induction ws arbitrary: best)
  case (Cons w ws)
  let ?B = "sw_Base ` {v \<in> set ws. window_open tz now v}"
  have "{v \<in> set (w # ws). window_open tz now v} =
      (if window_open tz now w then insert w else (\<lambda>A. A)) {v \<in> set ws. window_open tz now v}"
    by auto
  moreover have "finite ?B" by simp
  moreover have "Max (insert (max best b) ?B) = Max (insert best (insert b ?B))" for b
    by (rule Max_insert_max) simp
  ultimately show ?case
    using Cons by (simp add: scheduleLoop_step del: scheduleLoop.simps)
qed simp

section \<open>The decision\<close>

lemma Decide_eq:
  "dec_DesiredFloor (Decide tz spec now d cur prev) =
     (if scheduled_floor tz spec now < cur \<and> time_sub now prev < qr_Cooldown (spec_QueueRule spec)
      then cur else scheduled_floor tz spec now)"
  by (auto simp: Decide_def scheduled_floor_def Let_def min_def max_def)

lemma scheduled_floor_range:
  "valid_floor (spec_Floor spec) \<Longrightarrow>
    floor_Min (spec_Floor spec) \<le> scheduled_floor tz spec now
    \<and> scheduled_floor tz spec now \<le> floor_Max (spec_Floor spec)"
  by (auto simp: scheduled_floor_def valid_floor_def)

text \<open>What the reconciler relies on in a scheduler: a decrease is proposed only after the cooldown, a
  proposal is never below the policy's minimum, above its maximum only to keep what is applied, and
  demand does not matter.\<close>

locale floor_scheduler =
  fixes decide :: "WarmRunnerPolicySpec \<Rightarrow> time \<Rightarrow> Demand \<Rightarrow> int32 \<Rightarrow> time \<Rightarrow> Decision"
  assumes decrease_after_cooldown:
    "dec_DesiredFloor (decide spec now d cur prev) < cur \<Longrightarrow>
      qr_Cooldown (spec_QueueRule spec) \<le> time_sub now prev"
  and at_least_min:
    "valid_floor (spec_Floor spec) \<Longrightarrow>
      floor_Min (spec_Floor spec) \<le> dec_DesiredFloor (decide spec now d cur prev)"
  and at_most_max:
    "valid_floor (spec_Floor spec) \<Longrightarrow> dec_DesiredFloor (decide spec now d cur prev) \<noteq> cur \<Longrightarrow>
      dec_DesiredFloor (decide spec now d cur prev) \<le> floor_Max (spec_Floor spec)"
  and demand_ignored: "decide spec now d cur prev = decide spec now d' cur prev"
begin

lemma within_cooldown:
  "time_sub now prev < qr_Cooldown (spec_QueueRule spec) \<Longrightarrow>
    cur \<le> dec_DesiredFloor (decide spec now d cur prev)"
  using decrease_after_cooldown by (meson leI not_less)

lemma decide_le_max:
  assumes "valid_floor (spec_Floor spec)" "cur \<le> floor_Max (spec_Floor spec)"
  shows "dec_DesiredFloor (decide spec now d cur prev) \<le> floor_Max (spec_Floor spec)"
  using at_most_max [OF assms(1)] assms(2) by metis

lemma decide_int32:
  assumes "valid_floor (spec_Floor spec)" "is_int32 cur"
  shows "is_int32 (dec_DesiredFloor (decide spec now d cur prev))"
  using at_most_max [OF assms(1), of now d cur prev] at_least_min [OF assms(1), of now d cur prev] assms
  by (cases "dec_DesiredFloor (decide spec now d cur prev) = cur") (auto simp: valid_floor_def is_int32_def)

end

interpretation heuristic: floor_scheduler "Decide tz" for tz
proof unfold_locales
  fix spec now d cur prev d'
  show "qr_Cooldown (spec_QueueRule spec) \<le> time_sub now prev"
    if "dec_DesiredFloor (Decide tz spec now d cur prev) < cur"
    using that by (simp add: Decide_eq split: if_splits)
  show "floor_Min (spec_Floor spec) \<le> dec_DesiredFloor (Decide tz spec now d cur prev)"
    if "valid_floor (spec_Floor spec)"
    using scheduled_floor_range [OF that, of tz now] by (auto simp: Decide_eq)
  show "dec_DesiredFloor (Decide tz spec now d cur prev) \<le> floor_Max (spec_Floor spec)"
    if "valid_floor (spec_Floor spec)" "dec_DesiredFloor (Decide tz spec now d cur prev) \<noteq> cur"
    using that scheduled_floor_range by (auto simp: Decide_eq split: if_splits)
  show "Decide tz spec now d cur prev = Decide tz spec now d' cur prev"
    by (simp add: Decide_def)
qed

section \<open>Properties\<close>

text \<open>C14. For windows that pass admission, the schedule's contribution is the largest base of the
  windows open at that instant, and 0 when none is open: the loop's skipping of unknown zones and
  of days not listed, its reading of \<open>HH:MM\<close> and its minute arithmetic implement exactly that.\<close>

theorem scheduleBase_is_max_of_open_windows:
  assumes "list_all valid_window ws"
  shows "scheduleBase tz ws now = Max (insert 0 (sw_Base ` {w \<in> set ws. window_open tz now w}))"
  using assms by (simp add: scheduleBase_def scheduleLoop_Max)

theorem scheduleBase_witness:
  "list_all valid_window [example_window]
   \<and> scheduleBase (\<lambda>_. Some (\<lambda>_. 0)) [example_window] (10 * 60 * minute) = 3"
proof -
  have v: "list_all valid_window [example_window]" by code_simp
  have "window_open (\<lambda>_. Some (\<lambda>_. 0)) (10 * 60 * minute) example_window" by code_simp
  then show ?thesis
    using v scheduleBase_is_max_of_open_windows [OF v, of "\<lambda>_. Some (\<lambda>_. 0)" "10 * 60 * minute"]
    by (simp add: example_window_def)
qed

text \<open>The admission rule \<open>self.from < self.to\<close> compares strings; for strings of the admitted
  form it holds exactly when the first denotes an earlier minute of the day than the second, as
  the scheduler's own \<open>parseHM\<close> reads them. So a window that passes admission is never empty.\<close>

lemma hhmm_order_is_time_order:
  assumes "hhmm s" "hhmm t"
  shows "s < t \<longleftrightarrow>
    fst (parseHM s) * 60 + snd (parseHM s) < fst (parseHM t) * 60 + snd (parseHM t)"
  using hhmm_less_iff [OF assms] minute_of_hhmm(1) [OF assms(1), of "fst (parseHM s)" "snd (parseHM s)"]
    minute_of_hhmm(1) [OF assms(2), of "fst (parseHM t)" "snd (parseHM t)"]
  by simp

theorem hhmm_order_witness:
  "hhmm ''09:30'' \<and> hhmm ''17:05'' \<and> ''09:30'' < ''17:05'' \<and>
   fst (parseHM ''09:30'') * 60 + snd (parseHM ''09:30'') = 570"
proof -
  have h: "hhmm ''09:30''" "hhmm ''17:05''" by code_simp+
  have p: "parseHM ''09:30'' = (9, 30)" "parseHM ''17:05'' = (17, 5)" by code_simp+
  show ?thesis using h p hhmm_order_is_time_order [OF h] by simp
qed



end
