(* ===== verification/Adapter.thy ===== *)
theory Adapter
  imports Api
begin

text \<open>
  The backend adapters (\<open>internal/adapter\<close>) over the Kubernetes client.

  The client and the helpers of \<open>k8s.io/apimachinery\<close> are not part of the repository. They are
  the fields of the record \<open>kube\<close>, a parameter of every definition that talks to the cluster;
  the cluster's state is an abstract world \<open>'w\<close> and an unstructured object an abstract \<open>'o\<close>. What
  the code relies on in them is stated once, as the predicates \<open>nested_laws\<close>, \<open>store_laws\<close> and
  \<open>status_laws\<close>: a
  field that was set reads back, other fields are untouched, a successful update is what the next
  read returns, a failed one changes nothing.

  The locale \<open>floor_adapter\<close> is the contract of the \<open>Adapter\<close> interface; it is interpreted on the
  ARC adapter and on the GARM adapter.
\<close>

section \<open>The Kubernetes client\<close>

record GroupVersionKind =
  gvk_Group :: string
  gvk_Version :: string
  gvk_Kind :: string

record NamespacedName =
  nn_Name :: string
  nn_Namespace :: string

record ('w, 'o) kube =
  get_object :: "'w \<Rightarrow> GroupVersionKind \<Rightarrow> NamespacedName \<Rightarrow> error + 'o"
  update_object :: "'w \<Rightarrow> 'o \<Rightarrow> error option \<times> 'w"
  NestedInt64 :: "'o \<Rightarrow> string list \<Rightarrow> int64 \<times> bool \<times> error option"
  SetNestedField :: "'o \<Rightarrow> int64 \<Rightarrow> string list \<Rightarrow> error option \<times> 'o"
  get_policy :: "'w \<Rightarrow> NamespacedName \<Rightarrow> error + WarmRunnerPolicy"
  get_app :: "'w \<Rightarrow> NamespacedName \<Rightarrow> error + GitHubApp"
  list_apps :: "'w \<Rightarrow> error + GitHubApp list"
  get_secret :: "'w \<Rightarrow> NamespacedName \<Rightarrow> error + (string \<rightharpoonup> string)"
  update_policy_status :: "'w \<Rightarrow> WarmRunnerPolicy \<Rightarrow> error option \<times> 'w"
  update_app_status :: "'w \<Rightarrow> GitHubApp \<Rightarrow> error option \<times> 'w"
  SetStatusCondition :: "time \<Rightarrow> Condition list \<Rightarrow> Condition \<Rightarrow> Condition list"

definition nested_laws :: "('w, 'o) kube \<Rightarrow> bool" where
  "nested_laws k \<longleftrightarrow>
     (\<forall>ob v p ob'. SetNestedField k ob v p = (None, ob') \<longrightarrow>
        NestedInt64 k ob' p = (v, True, None)
        \<and> (\<forall>q. \<not> prefix p q \<and> \<not> prefix q p \<longrightarrow> NestedInt64 k ob' q = NestedInt64 k ob q))
     \<and> (\<forall>ob p v f e. NestedInt64 k ob p = (v, f, e) \<longrightarrow> (\<not> f \<or> e \<noteq> None) \<longrightarrow> v = 0)"

definition store_laws :: "('w, 'o) kube \<Rightarrow> bool" where
  "store_laws k \<longleftrightarrow>
     (\<forall>w g n ob v p ob' w'.
        get_object k w g n = Inr ob \<longrightarrow> SetNestedField k ob v p = (None, ob') \<longrightarrow>
        update_object k w ob' = (None, w') \<longrightarrow>
        (\<exists>ob''. get_object k w' g n = Inr ob'' \<and> (\<forall>q. NestedInt64 k ob'' q = NestedInt64 k ob' q))
        \<and> (\<forall>g' n'. (g', n') \<noteq> (g, n) \<longrightarrow> get_object k w' g' n' = get_object k w g' n'))
     \<and> (\<forall>w ob e w'. update_object k w ob = (Some e, w') \<longrightarrow> w' = w)"

definition policy_key :: "WarmRunnerPolicy \<Rightarrow> NamespacedName" where
  "policy_key pol = \<lparr>nn_Name = pol_Name pol, nn_Namespace = pol_Namespace pol\<rparr>"

text \<open>An instant as the API server stores it: \<open>metav1.Time\<close> is serialised as RFC 3339 text, to the
  second, so that a status that is read back has lost the fractions of its times.\<close>

definition stored_time :: "time \<Rightarrow> time" where
  "stored_time t = t - t mod second"

definition stored_status :: "WarmRunnerPolicyStatus \<Rightarrow> WarmRunnerPolicyStatus" where
  "stored_status st =
     st\<lparr>st_LastReconcileTime := map_option stored_time (st_LastReconcileTime st),
        st_LastDecreaseTime := map_option stored_time (st_LastDecreaseTime st),
        st_ActiveUntil := map_option stored_time (st_ActiveUntil st),
        st_Conditions := map (\<lambda>c. c\<lparr>cond_LastTransitionTime := stored_time (cond_LastTransitionTime c)\<rparr>)
          (st_Conditions st)\<rparr>"

text \<open>Policies: a policy is stored under its own name, a status update replaces the status of that
  policy and touches nothing else, a rejected one changes nothing, and writing a backend object
  does not change a policy.\<close>

definition status_laws :: "('w, 'o) kube \<Rightarrow> bool" where
  "status_laws k \<longleftrightarrow>
     (\<forall>w n pol. get_policy k w n = Inr pol \<longrightarrow> policy_key pol = n)
     \<and> (\<forall>w pol old w'. get_policy k w (policy_key pol) = Inr old \<longrightarrow>
          update_policy_status k w pol = (None, w') \<longrightarrow>
          get_policy k w' (policy_key pol) = Inr (old\<lparr>pol_Status := stored_status (pol_Status pol)\<rparr>))
     \<and> (\<forall>w pol w' n. update_policy_status k w pol = (None, w') \<longrightarrow> n \<noteq> policy_key pol \<longrightarrow>
          get_policy k w' n = get_policy k w n)
     \<and> (\<forall>w pol err w' g n. update_policy_status k w pol = (err, w') \<longrightarrow>
          get_object k w' g n = get_object k w g n)
     \<and> (\<forall>w pol e w'. update_policy_status k w pol = (Some e, w') \<longrightarrow> w' = w)
     \<and> (\<forall>w ob err w' n. update_object k w ob = (err, w') \<longrightarrow> get_policy k w' n = get_policy k w n)"

lemma status_lawsD:
  assumes "status_laws k"
  shows "get_policy k w n = Inr pol \<Longrightarrow> policy_key pol = n"
    and "get_policy k w (policy_key pol) = Inr old \<Longrightarrow> update_policy_status k w pol = (None, w') \<Longrightarrow>
      get_policy k w' (policy_key pol) = Inr (old\<lparr>pol_Status := stored_status (pol_Status pol)\<rparr>)"
    and "update_policy_status k w pol = (None, w') \<Longrightarrow> n \<noteq> policy_key pol \<Longrightarrow>
      get_policy k w' n = get_policy k w n"
    and "update_policy_status k w pol = (err, w') \<Longrightarrow> get_object k w' g n = get_object k w g n"
    and "update_policy_status k w pol = (Some e, w') \<Longrightarrow> w' = w"
    and "update_object k w ob = (err, w') \<Longrightarrow> get_policy k w' n = get_policy k w n"
proof -
  note c1 = assms [unfolded status_laws_def]
  note c2 = c1 [THEN conjunct2] note c3 = c2 [THEN conjunct2] note c4 = c3 [THEN conjunct2]
  note c5 = c4 [THEN conjunct2] note c6 = c5 [THEN conjunct2]
  show "get_policy k w n = Inr pol \<Longrightarrow> policy_key pol = n"
    using c1 [THEN conjunct1] by simp
  show "get_policy k w (policy_key pol) = Inr old \<Longrightarrow> update_policy_status k w pol = (None, w') \<Longrightarrow>
      get_policy k w' (policy_key pol) = Inr (old\<lparr>pol_Status := stored_status (pol_Status pol)\<rparr>)"
    using c2 [THEN conjunct1] by simp
  show "update_policy_status k w pol = (None, w') \<Longrightarrow> n \<noteq> policy_key pol \<Longrightarrow>
      get_policy k w' n = get_policy k w n"
    using c3 [THEN conjunct1] by simp
  show "update_policy_status k w pol = (err, w') \<Longrightarrow> get_object k w' g n = get_object k w g n"
    using c4 [THEN conjunct1] by blast
  show "update_policy_status k w pol = (Some e, w') \<Longrightarrow> w' = w"
    using c5 [THEN conjunct1] by simp
  show "update_object k w ob = (err, w') \<Longrightarrow> get_policy k w' n = get_policy k w n"
    using c6 by blast
qed

text \<open>An error wrapped with \<open>%w\<close>: the classification is kept, the text gets a prefix.\<close>

definition wrap_error :: "string \<Rightarrow> error \<Rightarrow> error" where
  "wrap_error pre e = Error (err_not_found e) (pre @ '': '' @ err_text e)"

section \<open>The code\<close>

record Ref =
  ref_Name :: string
  ref_Namespace :: string

record 'w adapter =
  GetFloor :: "'w \<Rightarrow> Ref \<Rightarrow> int32 \<times> error option"
  SetFloor :: "'w \<Rightarrow> Ref \<Rightarrow> int32 \<Rightarrow> error option \<times> 'w"
  GetMax :: "'w \<Rightarrow> Ref \<Rightarrow> int32 \<times> bool \<times> error option"

definition ref_key :: "Ref \<Rightarrow> NamespacedName" where
  "ref_key ref = \<lparr>nn_Name = ref_Name ref, nn_Namespace = ref_Namespace ref\<rparr>"

definition arcGVK :: GroupVersionKind where
  "arcGVK = \<lparr>gvk_Group = ''actions.github.com'', gvk_Version = ''v1alpha1'',
     gvk_Kind = ''AutoscalingRunnerSet''\<rparr>"

definition arc_GetFloor :: "('w, 'o) kube \<Rightarrow> 'w \<Rightarrow> Ref \<Rightarrow> int32 \<times> error option" where
  "arc_GetFloor k w ref =
     (case get_object k w arcGVK (ref_key ref) of
        Inl e \<Rightarrow> (0, Some e)
      | Inr u \<Rightarrow>
          (case NestedInt64 k u [''spec'', ''minRunners''] of
             (v, found, Some e) \<Rightarrow> (0, Some (wrap_error ''spec.minRunners'' e))
           | (v, found, None) \<Rightarrow> if \<not> found then (0, None) else (to_int32 v, None)))"

definition arc_GetMax :: "('w, 'o) kube \<Rightarrow> 'w \<Rightarrow> Ref \<Rightarrow> int32 \<times> bool \<times> error option" where
  "arc_GetMax k w ref =
     (case get_object k w arcGVK (ref_key ref) of
        Inl e \<Rightarrow> (0, False, Some e)
      | Inr u \<Rightarrow>
          (case NestedInt64 k u [''spec'', ''maxRunners''] of
             (v, found, Some e) \<Rightarrow> (0, False, Some (wrap_error ''spec.maxRunners'' e))
           | (v, found, None) \<Rightarrow> if \<not> found then (0, False, None) else (to_int32 v, True, None)))"

definition arc_SetFloor :: "('w, 'o) kube \<Rightarrow> 'w \<Rightarrow> Ref \<Rightarrow> int32 \<Rightarrow> error option \<times> 'w" where
  "arc_SetFloor k w ref floor =
     (case get_object k w arcGVK (ref_key ref) of
        Inl e \<Rightarrow> (Some e, w)
      | Inr u \<Rightarrow>
          (case SetNestedField k u floor [''spec'', ''minRunners''] of
             (Some e, _) \<Rightarrow> (Some e, w)
           | (None, u') \<Rightarrow> update_object k w u'))"

definition NewArcAdapter :: "('w, 'o) kube \<Rightarrow> 'w adapter" where
  "NewArcAdapter k = \<lparr>GetFloor = arc_GetFloor k, SetFloor = arc_SetFloor k, GetMax = arc_GetMax k\<rparr>"

definition garmGVK :: GroupVersionKind where
  "garmGVK = \<lparr>gvk_Group = ''garm-operator.mercedes-benz.com'', gvk_Version = ''v1beta1'',
     gvk_Kind = ''Pool''\<rparr>"

definition garm_GetFloor :: "('w, 'o) kube \<Rightarrow> 'w \<Rightarrow> Ref \<Rightarrow> int32 \<times> error option" where
  "garm_GetFloor k w ref =
     (case get_object k w garmGVK (ref_key ref) of
        Inl e \<Rightarrow> (0, Some e)
      | Inr u \<Rightarrow>
          (case NestedInt64 k u [''spec'', ''minIdleRunners''] of
             (v, found, Some e) \<Rightarrow> (0, Some (wrap_error ''spec.minIdleRunners'' e))
           | (v, found, None) \<Rightarrow> if \<not> found then (0, None) else (to_int32 v, None)))"

definition garm_GetMax :: "('w, 'o) kube \<Rightarrow> 'w \<Rightarrow> Ref \<Rightarrow> int32 \<times> bool \<times> error option" where
  "garm_GetMax k w ref =
     (case get_object k w garmGVK (ref_key ref) of
        Inl e \<Rightarrow> (0, False, Some e)
      | Inr u \<Rightarrow>
          (case NestedInt64 k u [''spec'', ''maxRunners''] of
             (v, found, err) \<Rightarrow>
               if err \<noteq> None \<or> \<not> found then (0, False, err) else (to_int32 v, True, None)))"

definition garm_SetFloor :: "('w, 'o) kube \<Rightarrow> 'w \<Rightarrow> Ref \<Rightarrow> int32 \<Rightarrow> error option \<times> 'w" where
  "garm_SetFloor k w ref floor =
     (case get_object k w garmGVK (ref_key ref) of
        Inl e \<Rightarrow> (Some e, w)
      | Inr u \<Rightarrow>
          (case SetNestedField k u floor [''spec'', ''minIdleRunners''] of
             (Some e, _) \<Rightarrow> (Some e, w)
           | (None, u') \<Rightarrow> update_object k w u'))"

definition NewGarmAdapter :: "('w, 'o) kube \<Rightarrow> 'w adapter" where
  "NewGarmAdapter k =
     \<lparr>GetFloor = garm_GetFloor k, SetFloor = garm_SetFloor k, GetMax = garm_GetMax k\<rparr>"

section \<open>The contract of an adapter\<close>

locale floor_adapter =
  fixes new :: "('w, 'o) kube \<Rightarrow> 'w adapter"
    and laws :: "('w, 'o) kube \<Rightarrow> bool"
  assumes get_after_set:
    "laws k \<Longrightarrow> is_int32 f \<Longrightarrow> SetFloor (new k) w r f = (None, w') \<Longrightarrow>
      GetFloor (new k) w' r = (f, None)"
  and max_after_set:
    "laws k \<Longrightarrow> SetFloor (new k) w r f = (None, w') \<Longrightarrow> GetMax (new k) w' r = GetMax (new k) w r"
  and other_after_set:
    "laws k \<Longrightarrow> SetFloor (new k) w r f = (None, w') \<Longrightarrow> r' \<noteq> r \<Longrightarrow>
      GetFloor (new k) w' r' = GetFloor (new k) w r'"
  and failed_set: "laws k \<Longrightarrow> SetFloor (new k) w r f = (Some e, w') \<Longrightarrow> w' = w"
  and floor_int32: "is_int32 (fst (GetFloor (new k) w r))"
  and max_int32: "is_int32 (fst (GetMax (new k) w r))"
  and failed_get: "GetFloor (new k) w r = (v, Some e) \<Longrightarrow> v = 0"
begin

text \<open>Whatever a write reports, the floor read afterwards is the one written or the one before.\<close>

lemma floor_after_write:
  assumes "laws k" "is_int32 f" "SetFloor (new k) w r f = (err, w')"
  shows "GetFloor (new k) w' r = (if err = None then (f, None) else GetFloor (new k) w r)"
proof (cases err)
  case None
  then show ?thesis using assms get_after_set by simp
next
  case (Some e)
  with assms have "w' = w" by (metis failed_set)
  with Some show ?thesis by simp
qed

lemma set_twice:
  assumes "laws k" "is_int32 g" "SetFloor (new k) w r f = (None, w')"
    "SetFloor (new k) w' r g = (None, w'')"
  shows "GetFloor (new k) w'' r = (g, None) \<and> GetMax (new k) w'' r = GetMax (new k) w r"
  using get_after_set [OF assms(1,2,4)] max_after_set [OF assms(1,4)] max_after_set [OF assms(1,3)]
  by simp

end

section \<open>Both adapters meet the contract\<close>

definition kube_laws :: "('w, 'o) kube \<Rightarrow> bool" where
  "kube_laws k \<longleftrightarrow> nested_laws k \<and> store_laws k"

definition cluster_laws :: "('w, 'o) kube \<Rightarrow> bool" where
  "cluster_laws k \<longleftrightarrow> kube_laws k \<and> status_laws k"

lemma ref_key_inject [simp]: "ref_key r = ref_key r' \<longleftrightarrow> r = r'"
  by (cases r; cases r') (simp add: ref_key_def)

lemma nested_after_set:
  "nested_laws k \<Longrightarrow> SetNestedField k ob v p = (None, ob') \<Longrightarrow> NestedInt64 k ob' p = (v, True, None)"
  unfolding nested_laws_def by blast

lemma nested_other:
  "nested_laws k \<Longrightarrow> SetNestedField k ob v p = (None, ob') \<Longrightarrow> \<not> prefix p q \<Longrightarrow> \<not> prefix q p \<Longrightarrow>
    NestedInt64 k ob' q = NestedInt64 k ob q"
  unfolding nested_laws_def by blast

lemma get_after_update:
  assumes "store_laws k" "get_object k w g n = Inr ob" "SetNestedField k ob v p = (None, ob')"
    "update_object k w ob' = (None, w')"
  shows "\<exists>ob''. get_object k w' g n = Inr ob'' \<and> (\<forall>q. NestedInt64 k ob'' q = NestedInt64 k ob' q)"
  using assms unfolding store_laws_def by blast

lemma get_other_after_update:
  assumes "store_laws k" "get_object k w g n = Inr ob" "SetNestedField k ob v p = (None, ob')"
    "update_object k w ob' = (None, w')" "n' \<noteq> n"
  shows "get_object k w' g n' = get_object k w g n'"
  using assms unfolding store_laws_def by blast

lemma failed_update: "store_laws k \<Longrightarrow> update_object k w ob = (Some e, w') \<Longrightarrow> w' = w"
  unfolding store_laws_def by blast

text \<open>What a successful \<open>SetFloor\<close> did, for either backend: the object was there, one field was set
  and the object was written back.\<close>

lemma arc_SetFloorE:
  assumes "arc_SetFloor k w r f = (None, w')"
  obtains u u' where "get_object k w arcGVK (ref_key r) = Inr u"
    "SetNestedField k u f [''spec'', ''minRunners''] = (None, u')" "update_object k w u' = (None, w')"
  using assms by (auto simp: arc_SetFloor_def split: sum.splits prod.splits option.splits)

lemma garm_SetFloorE:
  assumes "garm_SetFloor k w r f = (None, w')"
  obtains u u' where "get_object k w garmGVK (ref_key r) = Inr u"
    "SetNestedField k u f [''spec'', ''minIdleRunners''] = (None, u')" "update_object k w u' = (None, w')"
  using assms by (auto simp: garm_SetFloor_def split: sum.splits prod.splits option.splits)

lemma is_int32_0 [simp]: "is_int32 0"
  by (simp add: is_int32_def)

interpretation arc: floor_adapter NewArcAdapter kube_laws
proof unfold_locales
  fix k :: "('a, 'b) kube" and f w r w' r' e v
  show "GetFloor (NewArcAdapter k) w' r = (f, None)"
    if "kube_laws k" "is_int32 f" "SetFloor (NewArcAdapter k) w r f = (None, w')"
    using that
    by (auto simp: NewArcAdapter_def kube_laws_def arc_GetFloor_def nested_after_set
        elim!: arc_SetFloorE dest: get_after_update)
  show "GetMax (NewArcAdapter k) w' r = GetMax (NewArcAdapter k) w r"
    if "kube_laws k" "SetFloor (NewArcAdapter k) w r f = (None, w')"
    using that
    by (auto simp: NewArcAdapter_def kube_laws_def arc_GetMax_def nested_other
        elim!: arc_SetFloorE dest!: get_after_update)
  show "GetFloor (NewArcAdapter k) w' r' = GetFloor (NewArcAdapter k) w r'"
    if "kube_laws k" "SetFloor (NewArcAdapter k) w r f = (None, w')" "r' \<noteq> r"
    using that
    by (auto simp: NewArcAdapter_def kube_laws_def arc_GetFloor_def get_other_after_update
        elim!: arc_SetFloorE)
  show "w' = w" if "kube_laws k" "SetFloor (NewArcAdapter k) w r f = (Some e, w')"
    using that by (auto simp: NewArcAdapter_def kube_laws_def arc_SetFloor_def
        dest: failed_update split: sum.splits prod.splits option.splits)
  show "is_int32 (fst (GetFloor (NewArcAdapter k) w r))"
    by (simp add: NewArcAdapter_def arc_GetFloor_def split: sum.split prod.split option.split)
  show "is_int32 (fst (GetMax (NewArcAdapter k) w r))"
    by (simp add: NewArcAdapter_def arc_GetMax_def split: sum.split prod.split option.split)
  show "v = 0" if "GetFloor (NewArcAdapter k) w r = (v, Some e)"
    using that by (auto simp: NewArcAdapter_def arc_GetFloor_def
        split: sum.splits prod.splits option.splits if_splits)
qed

interpretation garm: floor_adapter NewGarmAdapter kube_laws
proof unfold_locales
  fix k :: "('a, 'b) kube" and f w r w' r' e v
  show "GetFloor (NewGarmAdapter k) w' r = (f, None)"
    if "kube_laws k" "is_int32 f" "SetFloor (NewGarmAdapter k) w r f = (None, w')"
    using that
    by (auto simp: NewGarmAdapter_def kube_laws_def garm_GetFloor_def nested_after_set
        elim!: garm_SetFloorE dest: get_after_update)
  show "GetMax (NewGarmAdapter k) w' r = GetMax (NewGarmAdapter k) w r"
    if "kube_laws k" "SetFloor (NewGarmAdapter k) w r f = (None, w')"
    using that
    by (auto simp: NewGarmAdapter_def kube_laws_def garm_GetMax_def nested_other
        elim!: garm_SetFloorE dest!: get_after_update)
  show "GetFloor (NewGarmAdapter k) w' r' = GetFloor (NewGarmAdapter k) w r'"
    if "kube_laws k" "SetFloor (NewGarmAdapter k) w r f = (None, w')" "r' \<noteq> r"
    using that
    by (auto simp: NewGarmAdapter_def kube_laws_def garm_GetFloor_def get_other_after_update
        elim!: garm_SetFloorE)
  show "w' = w" if "kube_laws k" "SetFloor (NewGarmAdapter k) w r f = (Some e, w')"
    using that by (auto simp: NewGarmAdapter_def kube_laws_def garm_SetFloor_def
        dest: failed_update split: sum.splits prod.splits option.splits)
  show "is_int32 (fst (GetFloor (NewGarmAdapter k) w r))"
    by (simp add: NewGarmAdapter_def garm_GetFloor_def split: sum.split prod.split option.split)
  show "is_int32 (fst (GetMax (NewGarmAdapter k) w r))"
    by (simp add: NewGarmAdapter_def garm_GetMax_def split: sum.split prod.split option.split)
  show "v = 0" if "GetFloor (NewGarmAdapter k) w r = (v, Some e)"
    using that by (auto simp: NewGarmAdapter_def garm_GetFloor_def
        split: sum.splits prod.splits option.splits if_splits)
qed

section \<open>Properties\<close>

text \<open>C38. Both adapters, over any client that keeps its laws: a floor that was set is the floor that is
  read, the backend's maximum and every other backend keep their values, and a write that reports
  an error has changed nothing.\<close>

theorem adapter_set_get:
  assumes "kube_laws k" "ad = NewArcAdapter k \<or> ad = NewGarmAdapter k" "is_int32 f"
    and "SetFloor ad w ref f = (err, w')"
  shows "(err = None \<longrightarrow> GetFloor ad w' ref = (f, None) \<and> GetMax ad w' ref = GetMax ad w ref)
    \<and> (err \<noteq> None \<longrightarrow> w' = w)
    \<and> (ref' \<noteq> ref \<longrightarrow> GetFloor ad w' ref' = GetFloor ad w ref')"
proof (cases err)
  case None
  show ?thesis
    using assms(2)
  proof
    assume ad: "ad = NewArcAdapter k"
    note set = assms(4) [unfolded None ad]
    show ?thesis
      using arc.get_after_set [OF assms(1,3) set] arc.max_after_set [OF assms(1) set]
        arc.other_after_set [OF assms(1) set] None ad by blast
  next
    assume ad: "ad = NewGarmAdapter k"
    note set = assms(4) [unfolded None ad]
    show ?thesis
      using garm.get_after_set [OF assms(1,3) set] garm.max_after_set [OF assms(1) set]
        garm.other_after_set [OF assms(1) set] None ad by blast
  qed
next
  case (Some e)
  have "w' = w"
    using assms(2) arc.failed_set [OF assms(1)] garm.failed_set [OF assms(1)] assms(4) Some by metis
  then show ?thesis using Some by simp
qed

end
