(* ===== verification/Activity.thy ===== *)
theory Activity
  imports Prelude
begin

text \<open>The bot filter of the activity signal (\<open>internal/activity/activity.go\<close>).\<close>

section \<open>The code\<close>

definition BuiltinDenylist :: "string list" where
  "BuiltinDenylist =
     [''dependabot[bot]'', ''renovate[bot]'', ''github-actions[bot]'', ''mergify[bot]'',
      ''codecov[bot]'', ''copilot-pull-request-reviewer[bot]'', ''self-hosted-renovate[bot]'']"

fun in_denylist :: "string \<Rightarrow> string list \<Rightarrow> bool" where
  "in_denylist actorLogin [] = False"
| "in_denylist actorLogin (d # ds) = (if d = actorLogin then True else in_denylist actorLogin ds)"

definition IsBotActor :: "string \<Rightarrow> string \<Rightarrow> string \<Rightarrow> string list \<Rightarrow> bool \<times> string" where
  "IsBotActor actorType triggeringActorType actorLogin denylist =
     (if actorLogin = [] then (False, [])
      else if actorType = ''Bot'' then (True, ''bot_type'')
      else if triggeringActorType = ''Bot'' then (True, ''trigger_bot_type'')
      else if has_suffix actorLogin ''[bot]'' then (True, ''bot_suffix'')
      else if in_denylist actorLogin denylist then (True, ''denylist'')
      else (False, []))"

section \<open>Lemmas\<close>

lemma in_denylist_iff [simp]: "in_denylist l ds \<longleftrightarrow> l \<in> set ds"
  by (induction ds) auto

text \<open>Every login of the built-in list is caught by its suffix already; only user entries can be
  reported as \<open>denylist\<close>.\<close>

lemma builtin_has_suffix: "l \<in> set BuiltinDenylist \<Longrightarrow> has_suffix l ''[bot]''"
  by (auto simp: BuiltinDenylist_def has_suffix_def)

lemma IsBotActor_iff:
  "fst (IsBotActor aty tty l ds) \<longleftrightarrow>
     l \<noteq> [] \<and> (aty = ''Bot'' \<or> tty = ''Bot'' \<or> has_suffix l ''[bot]'' \<or> l \<in> set ds)"
  by (simp add: IsBotActor_def)

lemma IsBotActor_mono:
  "set ds \<subseteq> set ds' \<Longrightarrow> fst (IsBotActor aty tty l ds) \<Longrightarrow> fst (IsBotActor aty tty l ds')"
  by (auto simp: IsBotActor_iff)

end
