(* ===== verification/EventFeed.thy ===== *)
theory EventFeed
  imports Labels
begin

text \<open>
  The webhook-fed activity signal (\<open>internal/activity/event_feed.go\<close>).

  \<open>inMemoryFeed\<close> is a map from repository names to accumulators; the mutex makes each operation
  atomic, so a feed is a state and an operation a function on it. \<open>f.clock()\<close> is the argument
  \<open>now\<close>. The labels of a job are an option because the code tells a \<open>nil\<close> slice (ignored) from an
  empty one (counted under the empty key).

  The locale \<open>event_feed\<close> is the \<open>EventFeed\<close> interface with its documented laws; what follows from
  them for a whole history of events is proved there once. It is interpreted on \<open>inMemoryFeed\<close>.
\<close>

section \<open>The code\<close>

record repoState =
  rs_perLabelSet :: "(string, int) gomap"
  rs_lastEvent :: time
  rs_lastHeadSHA :: string

record inMemoryFeed =
  feed_repos :: "string \<rightharpoonup> repoState"

definition NewInMemoryEventFeed :: inMemoryFeed where
  "NewInMemoryEventFeed = \<lparr>feed_repos = Map.empty\<rparr>"

definition getOrCreate :: "inMemoryFeed \<Rightarrow> string \<Rightarrow> repoState" where
  "getOrCreate f repo =
     (case feed_repos f repo of
        None \<Rightarrow> \<lparr>rs_perLabelSet = [], rs_lastEvent = 0, rs_lastHeadSHA = []\<rparr>
      | Some rs \<Rightarrow> rs)"

definition RecordPush :: "inMemoryFeed \<Rightarrow> time \<Rightarrow> string \<Rightarrow> string \<Rightarrow> inMemoryFeed" where
  "RecordPush f now repo headSHA =
     (if repo = [] then f
      else let rs = getOrCreate f repo in
        f\<lparr>feed_repos := (feed_repos f)(repo \<mapsto> rs\<lparr>rs_lastEvent := now, rs_lastHeadSHA := headSHA\<rparr>)\<rparr>)"

definition RecordJob :: "inMemoryFeed \<Rightarrow> time \<Rightarrow> string \<Rightarrow> string list option \<Rightarrow> inMemoryFeed" where
  "RecordJob f now repo labels =
     (case labels of
        None \<Rightarrow> f
      | Some ls \<Rightarrow>
          if repo = [] then f
          else let key = LabelSetKey ls; rs = getOrCreate f repo in
            f\<lparr>feed_repos := (feed_repos f)(repo \<mapsto>
              rs\<lparr>rs_perLabelSet := map_incr key 1 (rs_perLabelSet rs), rs_lastEvent := now\<rparr>)\<rparr>)"

text \<open>The defensive copy: the loop \<open>for k, v := range rs.perLabelSet { perLabelSet[k] = v }\<close>.\<close>

definition map_copy :: "(string, int) gomap \<Rightarrow> (string, int) gomap" where
  "map_copy m = fold (\<lambda>(k, v) acc. AList.update k v acc) m []"

definition Snapshot :: "inMemoryFeed \<Rightarrow> string \<Rightarrow> (string, int) gomap \<times> time" where
  "Snapshot f repo =
     (case feed_repos f repo of
        None \<Rightarrow> ([], 0)
      | Some rs \<Rightarrow> (map_copy (rs_perLabelSet rs), rs_lastEvent rs))"

section \<open>Histories of events\<close>

datatype feed_event =
    Push (ev_time: time) (ev_repo: string) (ev_sha: string)
  | Job (ev_time: time) (ev_repo: string) (ev_labels: "string list option")

fun run_events ::
  "('f \<Rightarrow> time \<Rightarrow> string \<Rightarrow> string \<Rightarrow> 'f) \<Rightarrow> ('f \<Rightarrow> time \<Rightarrow> string \<Rightarrow> string list option \<Rightarrow> 'f) \<Rightarrow>
    feed_event list \<Rightarrow> 'f \<Rightarrow> 'f" where
  "run_events push job [] f = f"
| "run_events push job (Push t r s # es) f = run_events push job es (push f t r s)"
| "run_events push job (Job t r ls # es) f = run_events push job es (job f t r ls)"

text \<open>The events that count for a repository, the jobs among them with a given key, the last one.\<close>

definition recorded :: "string \<Rightarrow> feed_event \<Rightarrow> bool" where
  "recorded repo e \<longleftrightarrow>
     ev_repo e = repo \<and> repo \<noteq> [] \<and> (case e of Push _ _ _ \<Rightarrow> True | Job _ _ ls \<Rightarrow> ls \<noteq> None)"

definition recorded_job :: "string \<Rightarrow> string \<Rightarrow> feed_event \<Rightarrow> bool" where
  "recorded_job repo key e \<longleftrightarrow>
     recorded repo e
     \<and> (case e of Push _ _ _ \<Rightarrow> False | Job _ _ ls \<Rightarrow> map_option LabelSetKey ls = Some key)"

definition jobs_recorded :: "feed_event list \<Rightarrow> string \<Rightarrow> string \<Rightarrow> int" where
  "jobs_recorded es repo key = int (length (filter (recorded_job repo key) es))"

definition last_recorded :: "feed_event list \<Rightarrow> string \<Rightarrow> time" where
  "last_recorded es repo =
     (if filter (recorded repo) es = [] then 0 else ev_time (last (filter (recorded repo) es)))"

section \<open>The interface\<close>

locale event_feed =
  fixes new :: 'f
    and push :: "'f \<Rightarrow> time \<Rightarrow> string \<Rightarrow> string \<Rightarrow> 'f"
    and job :: "'f \<Rightarrow> time \<Rightarrow> string \<Rightarrow> string list option \<Rightarrow> 'f"
    and snapshot :: "'f \<Rightarrow> string \<Rightarrow> (string, int) gomap \<times> time"
    and invar :: "'f \<Rightarrow> bool"
  assumes new_snapshot: "snapshot new repo = ([], 0)"
    and new_invar: "invar new"
    and push_invar: "invar f \<Longrightarrow> invar (push f t r s)"
    and job_invar: "invar f \<Longrightarrow> invar (job f t r ls)"
    and push_snapshot: "invar f \<Longrightarrow>
      snapshot (push f t r s) repo =
        (if recorded repo (Push t r s) then (fst (snapshot f repo), t) else snapshot f repo)"
    and job_count: "invar f \<Longrightarrow>
      count_of (fst (snapshot (job f t r ls) repo)) key =
        count_of (fst (snapshot f repo)) key + (if recorded_job repo key (Job t r ls) then 1 else 0)"
    and job_time: "invar f \<Longrightarrow>
      snd (snapshot (job f t r ls) repo) = (if recorded repo (Job t r ls) then t else snd (snapshot f repo))"
    and snapshot_distinct: "invar f \<Longrightarrow> distinct (keys (fst (snapshot f repo)))"
begin

lemma run_invar: "invar f \<Longrightarrow> invar (run_events push job es f)"
proof (induction es arbitrary: f)
  case (Cons e es)
  then show ?case by (cases e) (simp_all add: push_invar job_invar)
qed simp

lemma run_count:
  "invar f \<Longrightarrow> count_of (fst (snapshot (run_events push job es f) repo)) key =
    count_of (fst (snapshot f repo)) key + jobs_recorded es repo key"
proof (induction es arbitrary: f)
  case (Cons e es)
  then show ?case
    by (cases e) (simp_all add: push_invar push_snapshot job_invar job_count jobs_recorded_def
        recorded_job_def)
qed (simp add: jobs_recorded_def)

lemma run_time:
  "invar f \<Longrightarrow> snd (snapshot (run_events push job es f) repo) =
    (if filter (recorded repo) es = [] then snd (snapshot f repo)
     else ev_time (last (filter (recorded repo) es)))"
proof (induction es arbitrary: f)
  case (Cons e es)
  then show ?case
    by (cases e) (simp_all add: push_invar push_snapshot job_invar job_time)
qed simp

text \<open>A history of events is summarised exactly: the count of a key is the number of jobs recorded
  under it since the feed was made, and the time is that of the last recorded event.\<close>

lemma history:
  "count_of (fst (snapshot (run_events push job es new) repo)) key = jobs_recorded es repo key
   \<and> snd (snapshot (run_events push job es new) repo) = last_recorded es repo"
  by (simp add: run_count run_time new_invar new_snapshot last_recorded_def)

end

section \<open>The in-memory feed meets it\<close>

definition feed_invar :: "inMemoryFeed \<Rightarrow> bool" where
  "feed_invar f \<longleftrightarrow> (\<forall>repo rs. feed_repos f repo = Some rs \<longrightarrow> distinct (keys (rs_perLabelSet rs)))"

lemma fold_update_fresh:
  "distinct (keys (acc @ m)) \<Longrightarrow> fold (\<lambda>(k, v) a. AList.update k v a) m acc = acc @ m"
proof (induction m arbitrary: acc)
  case (Cons kv m)
  obtain k v where kv: "kv = (k, v)" by force
  have fresh: "k \<notin> fst ` set acc" using Cons.prems by (auto simp: keys_def kv)
  have "AList.update k v acc = acc @ [(k, v)]"
    using fresh by (induction acc) auto
  then show ?case using Cons by (simp add: kv keys_def)
qed simp

lemma map_copy_id [simp]: "distinct (keys m) \<Longrightarrow> map_copy m = m"
  by (simp add: map_copy_def fold_update_fresh)

lemma getOrCreate_distinct: "feed_invar f \<Longrightarrow> distinct (keys (rs_perLabelSet (getOrCreate f repo)))"
  by (auto simp: feed_invar_def getOrCreate_def split: option.split)

lemma Snapshot_eq:
  "feed_invar f \<Longrightarrow>
    Snapshot f repo = (rs_perLabelSet (getOrCreate f repo), rs_lastEvent (getOrCreate f repo))"
  by (auto simp: Snapshot_def getOrCreate_def feed_invar_def split: option.split)

lemma feed_invar_upd:
  "feed_invar f \<Longrightarrow> distinct (keys (rs_perLabelSet rs)) \<Longrightarrow>
    feed_invar (f\<lparr>feed_repos := (feed_repos f)(repo \<mapsto> rs)\<rparr>)"
  by (auto simp: feed_invar_def)

lemma getOrCreate_upd [simp]:
  "getOrCreate (f\<lparr>feed_repos := (feed_repos f)(repo \<mapsto> rs)\<rparr>) repo' =
    (if repo' = repo then rs else getOrCreate f repo')"
  by (simp add: getOrCreate_def)

lemma feed_invar_push: "feed_invar f \<Longrightarrow> feed_invar (RecordPush f t r s)"
  by (simp add: RecordPush_def Let_def feed_invar_upd getOrCreate_distinct)

lemma feed_invar_job: "feed_invar f \<Longrightarrow> feed_invar (RecordJob f t r ls)"
  by (auto simp: RecordJob_def Let_def intro!: feed_invar_upd split: option.split)
    (simp add: getOrCreate_distinct)

interpretation feed: event_feed NewInMemoryEventFeed RecordPush RecordJob Snapshot feed_invar
proof unfold_locales
  fix f t r s ls repo key
  show "Snapshot NewInMemoryEventFeed repo = ([], 0)"
    by (simp add: Snapshot_def NewInMemoryEventFeed_def)
  show "feed_invar NewInMemoryEventFeed"
    by (simp add: feed_invar_def NewInMemoryEventFeed_def)
  assume inv: "feed_invar f"
  show "feed_invar (RecordPush f t r s)" using inv by (rule feed_invar_push)
  show "feed_invar (RecordJob f t r ls)" using inv by (rule feed_invar_job)
  show "Snapshot (RecordPush f t r s) repo =
      (if recorded repo (Push t r s) then (fst (Snapshot f repo), t) else Snapshot f repo)"
    using inv by (auto simp: Snapshot_eq feed_invar_push) (auto simp: RecordPush_def Let_def recorded_def)
  show "count_of (fst (Snapshot (RecordJob f t r ls) repo)) key =
      count_of (fst (Snapshot f repo)) key + (if recorded_job repo key (Job t r ls) then 1 else 0)"
    using inv by (auto simp: Snapshot_eq feed_invar_job)
      (auto simp: RecordJob_def Let_def recorded_def recorded_job_def split: option.split)
  show "snd (Snapshot (RecordJob f t r ls) repo) =
      (if recorded repo (Job t r ls) then t else snd (Snapshot f repo))"
    using inv by (auto simp: Snapshot_eq feed_invar_job)
      (auto simp: RecordJob_def Let_def recorded_def split: option.split)
  show "distinct (keys (fst (Snapshot f repo)))"
    using inv by (simp add: Snapshot_eq getOrCreate_distinct)
qed

section \<open>Properties\<close>

text \<open>After any history of pushes and jobs, the feed's snapshot of a repository is exact: the count
  of a label key is the number of jobs recorded under it in the whole history, and the time is that
  of the last recorded event (the zero time when there is none). In particular counts never decay:
  they are kept from the start of the process on.\<close>

lemma feed_counts_whole_history:
  "let (per, t) = Snapshot (run_events RecordPush RecordJob es NewInMemoryEventFeed) repo in
   count_of per key = jobs_recorded es repo key \<and> t = last_recorded es repo \<and> distinct (keys per)"
  using feed.history [of es repo key] feed.snapshot_distinct [OF feed.run_invar [OF feed.new_invar], of es repo]
  by (auto simp: split_beta)

end
