(* ===== verification/Reconciler.thy ===== *)
theory Reconciler
  imports Labels Scheduler Adapter Activity EventFeed "HOL-Library.Product_Lexorder"
begin

text \<open>
  The policy controller (\<open>internal/controller/warmrunnerpolicy_controller.go\<close>), with the metrics it
  writes (\<open>internal/controller/metrics.go\<close>).

  \<^item> \<open>reconciler\<close> holds the fields of \<open>WarmRunnerPolicyReconciler\<close> the code calls: the scheduler,
    the demand source, the predictor, the activity sampler and the event feed are interfaces in
    the source and functions here; a \<open>nil\<close> interface is \<open>None\<close>.
  \<^item> \<open>rstate\<close> is what survives between reconciles: the three \<open>prev\<close> maps and the metrics. A gauge
    vector is a map from label values to values, a counter vector a function to \<open>nat\<close>.
  \<^item> \<open>clock\<close> holds the readings of \<open>time.Now()\<close>, one per place the code reads it.
  \<^item> The cluster is the world \<open>'w\<close> of theory Adapter; \<open>Reconcile\<close> returns the result, the world
    after its writes, and the state after its bookkeeping.

  \<open>Reconcile\<close> is cut at its own paragraphs: \<open>planFloor\<close> observes demand and decides the floor (with
  \<open>signalLegs\<close> for scheduler, predictor and activity, and \<open>clampFloor\<close> for the two caps), then come
  \<open>patchBackend\<close>, \<open>reportStatus\<close> and \<open>emitMetrics\<close>.
\<close>

section \<open>State\<close>

record Snapshot =
  snap_Queued :: int32
  snap_Running :: int32

type_synonym demand_source = "string \<Rightarrow> string \<Rightarrow> string list \<Rightarrow> Snapshot \<times> error option"
type_synonym per_label_set = "(string, int) gomap"

record 'w reconciler =
  rec_Scheduler :: "WarmRunnerPolicySpec \<Rightarrow> time \<Rightarrow> Demand \<Rightarrow> int32 \<Rightarrow> time \<Rightarrow> Decision"
  rec_Demand :: "demand_source option"
  rec_NewPoller :: "string \<Rightarrow> demand_source"
  rec_AdapterFunc :: "(Target \<Rightarrow> ('w adapter \<times> Ref) option) option"
  rec_Predictor :: "(string \<Rightarrow> string \<Rightarrow> string \<Rightarrow> error + per_label_set) option"
  rec_Activity :: "(string \<Rightarrow> string \<Rightarrow> string \<Rightarrow> duration \<Rightarrow> string list \<Rightarrow> error + per_label_set) option"
  rec_EventFeed :: "(string \<Rightarrow> per_label_set \<times> time) option"

record metrics =
  m_desiredFloor :: "string \<times> string \<rightharpoonup> int"
  m_appliedFloor :: "string \<times> string \<rightharpoonup> int"
  m_queueDepth :: "string \<rightharpoonup> int"
  m_floorChanges :: "string \<times> string \<Rightarrow> nat"
  m_reconcileErrors :: "string \<times> string \<Rightarrow> nat"
  m_predictedFloor :: "string \<rightharpoonup> int"
  m_predictedJobs :: "string \<times> string \<rightharpoonup> int"
  m_activityFloor :: "string \<rightharpoonup> int"
  m_activityJobs :: "string \<times> string \<rightharpoonup> int"
  m_dryRunSkippedPatches :: "string \<Rightarrow> nat"
  m_activeWindowExpiries :: "string \<Rightarrow> nat"
  m_activeWindowRemaining :: "string \<rightharpoonup> duration"

record rstate =
  prevPredictedLabels :: "string \<Rightarrow> string list"
  prevActivityLabels :: "string \<Rightarrow> string list"
  prevActiveUntil :: "string \<Rightarrow> time option"
  rs_metrics :: metrics

record clock =
  clk_decide :: time
  clk_feed :: time
  clk_poll :: time
  clk_emit :: time
  clk_now :: time
  clk_cond :: "string \<Rightarrow> time"

record Result =
  res_RequeueAfter :: duration

definition defaultActiveWindow :: duration where "defaultActiveWindow = 600 * second"
definition defaultPollIntervalWithApp :: duration where "defaultPollIntervalWithApp = 300 * second"
definition predictorTopN :: nat where "predictorTopN = 8"
definition activityTopN :: nat where "activityTopN = predictorTopN"
definition activityWindowDefault :: duration where "activityWindowDefault = 15 * minute"

section \<open>Errors and conditions\<close>

definition errReason :: "error option \<Rightarrow> string" where
  "errReason e = (case e of None \<Rightarrow> ''OK'' | Some _ \<Rightarrow> ''Error'')"

definition errMsg :: "error option \<Rightarrow> string" where
  "errMsg e = (case e of None \<Rightarrow> [] | Some x \<Rightarrow> err_text x)"

definition setCondition ::
  "('w, 'o) kube \<Rightarrow> clock \<Rightarrow> WarmRunnerPolicy \<Rightarrow> string \<Rightarrow> bool \<Rightarrow> string \<Rightarrow> string \<Rightarrow> WarmRunnerPolicy" where
  "setCondition k clk p ctype ok reason msg =
     p\<lparr>pol_Status := (pol_Status p)\<lparr>st_Conditions :=
        SetStatusCondition k (clk_cond clk ctype) (st_Conditions (pol_Status p))
          \<lparr>cond_Type = ctype, cond_Status = ok, cond_Reason = reason, cond_Message = msg,
           cond_ObservedGeneration = pol_Generation p, cond_LastTransitionTime = 0\<rparr>\<rparr>\<rparr>"

section \<open>Configuration\<close>

definition effectivePollInterval :: "WarmRunnerPolicy \<Rightarrow> duration" where
  "effectivePollInterval pol =
     (if qr_PollInterval (spec_QueueRule (pol_Spec pol)) > 0
      then qr_PollInterval (spec_QueueRule (pol_Spec pol))
      else if spec_GitHubAppRef (pol_Spec pol) \<noteq> None then defaultPollIntervalWithApp
      else 0)"

definition adapterFor ::
  "('w, 'o) kube \<Rightarrow> 'w reconciler \<Rightarrow> Target \<Rightarrow> ('w adapter \<times> Ref) option" where
  "adapterFor k r t =
     (case rec_AdapterFunc r of
        Some f \<Rightarrow> f t
      | None \<Rightarrow>
          if Kind t = ''arc'' then
            map_option (\<lambda>a. (NewArcAdapter k,
              \<lparr>ref_Name = rns_Name (arc_RunnerSet a), ref_Namespace = rns_Namespace (arc_RunnerSet a)\<rparr>))
              (tgt_Arc t)
          else if Kind t = ''garm'' then
            map_option (\<lambda>g. (NewGarmAdapter k,
              \<lparr>ref_Name = rns_Name (garm_Pool g), ref_Namespace = rns_Namespace (garm_Pool g)\<rparr>))
              (tgt_Garm t)
          else None)"

definition resolveAuthToken ::
  "('w, 'o) kube \<Rightarrow> 'w \<Rightarrow> WarmRunnerPolicy \<Rightarrow> error + string" where
  "resolveAuthToken k w pol =
     (let sel = auth_SecretRef (gh_Auth (spec_GitHub (pol_Spec pol))) in
      if sel_Name sel = [] \<or> sel_Key sel = [] then
        Inl (Error False (''github auth secretRef is incomplete (name='' @ quoted (sel_Name sel)
          @ '' key='' @ quoted (sel_Key sel) @ '')''))
      else
        (case get_secret k w \<lparr>nn_Name = sel_Name sel, nn_Namespace = pol_Namespace pol\<rparr> of
           Inl e \<Rightarrow> Inl (wrap_error (''resolving auth secret '' @ quoted (sel_Name sel)) e)
         | Inr data \<Rightarrow>
             (case data (sel_Key sel) of
                None \<Rightarrow> Inl (Error False (''auth secret '' @ quoted (sel_Name sel) @ '' missing key '' @ quoted (sel_Key sel)))
              | Some tok \<Rightarrow>
                  if tok = [] then Inl (Error False (''auth secret '' @ quoted (sel_Name sel) @ '' missing key '' @ quoted (sel_Key sel)))
                  else Inr tok)))"

definition demandSource ::
  "('w, 'o) kube \<Rightarrow> 'w reconciler \<Rightarrow> 'w \<Rightarrow> WarmRunnerPolicy \<Rightarrow> error + demand_source" where
  "demandSource k r w pol =
     (case rec_Demand r of
        Some d \<Rightarrow> Inr d
      | None \<Rightarrow>
          (case resolveAuthToken k w pol of
             Inl e \<Rightarrow> Inl e
           | Inr token \<Rightarrow> Inr (rec_NewPoller r token)))"

definition predictorToken ::
  "('w, 'o) kube \<Rightarrow> 'w reconciler \<Rightarrow> 'w \<Rightarrow> WarmRunnerPolicy \<Rightarrow> error + string" where
  "predictorToken k r w pol =
     (case rec_Demand r of
        None \<Rightarrow> resolveAuthToken k w pol
      | Some _ \<Rightarrow> (case resolveAuthToken k w pol of Inl _ \<Rightarrow> Inr [] | Inr tok \<Rightarrow> Inr tok))"

section \<open>The label-set contribution\<close>

text \<open>The loop over a snapshot's label sets, the same in \<open>computePredicted\<close>, \<open>computeActivity\<close> and
  \<open>computeActivityFromFeed\<close>.\<close>

fun contribLoop ::
  "string list \<Rightarrow> int32 \<Rightarrow> PredictedLabelSet list \<Rightarrow> per_label_set \<Rightarrow> int32 \<times> PredictedLabelSet list" where
  "contribLoop want contrib matched [] = (contrib, matched)"
| "contribLoop want contrib matched ((key, cnt) # m) =
     (let labels = splitLabelSetKey key in
      if \<not> labelsSuperset labels want then contribLoop want contrib matched m
      else contribLoop want (to_int32 (contrib + to_int32 cnt))
             (matched @ [\<lparr>pls_Labels = labels, pls_Count = to_int32 cnt\<rparr>]) m)"

definition labelSetLess :: "PredictedLabelSet \<Rightarrow> PredictedLabelSet \<Rightarrow> bool" where
  "labelSetLess a b =
     (if pls_Count a \<noteq> pls_Count b then pls_Count a > pls_Count b
      else LabelSetKey (pls_Labels a) < LabelSetKey (pls_Labels b))"

definition topLabelSets :: "nat \<Rightarrow> PredictedLabelSet list \<Rightarrow> PredictedLabelSet list" where
  "topLabelSets n matched =
     (let matched = sort_slice labelSetLess matched in
      if length matched > n then take n matched else matched)"

section \<open>The predictor leg\<close>

type_synonym leg = "int32 \<times> PredictedLabelSet list \<times> per_label_set \<times> error option"

definition computePredicted ::
  "('w, 'o) kube \<Rightarrow> 'w reconciler \<Rightarrow> 'w \<Rightarrow> WarmRunnerPolicy \<Rightarrow> leg" where
  "computePredicted k r w pol =
     (case rec_Predictor r of
        None \<Rightarrow> (0, [], [], None)
      | Some predict \<Rightarrow>
          if (case spec_Predictor (pol_Spec pol) of None \<Rightarrow> False | Some c \<Rightarrow> \<not> pc_Enabled c)
          then (0, [], [], None)
          else
            (case predictorToken k r w pol of
               Inl terr \<Rightarrow> (0, [], [], Some terr)
             | Inr token \<Rightarrow>
                 (let gh = spec_GitHub (pol_Spec pol) in
                  case predict (gh_Owner gh) (gh_Repository gh) token of
                    Inl err \<Rightarrow> (0, [], [], Some err)
                  | Inr perLabelSet \<Rightarrow>
                      (let (contrib, matched) = contribLoop (gh_Labels gh) 0 [] perLabelSet in
                       (contrib, topLabelSets predictorTopN matched, perLabelSet, None)))))"

section \<open>The activity leg\<close>

definition repoName :: "WarmRunnerPolicy \<Rightarrow> string" where
  "repoName pol =
     gh_Owner (spec_GitHub (pol_Spec pol)) @ ''/'' @ gh_Repository (spec_GitHub (pol_Spec pol))"

definition computeActivityFromFeed ::
  "(string \<Rightarrow> per_label_set \<times> time) \<Rightarrow> clock \<Rightarrow> WarmRunnerPolicy \<Rightarrow>
    int32 \<times> PredictedLabelSet list \<times> per_label_set \<times> string \<times> time option" where
  "computeActivityFromFeed snapshot clk pol =
     (let (perLabelSet, lastEvent) = snapshot (repoName pol) in
      if lastEvent = 0 then (0, [], [], [], None)
      else
        let window =
              (case spec_ActiveWindowSeconds (pol_Spec pol) of
                 None \<Rightarrow> defaultActiveWindow
               | Some s \<Rightarrow> if s > 0 then s * second else defaultActiveWindow)
        in if time_sub (clk_feed clk) lastEvent > window then (0, [], [], [], None)
           else
             let activeUntil = lastEvent + window;
                 (contrib, matched) = contribLoop (gh_Labels (spec_GitHub (pol_Spec pol))) 0 [] perLabelSet
             in (contrib, topLabelSets activityTopN matched, perLabelSet, LastEventSourceWebhook,
                 Some activeUntil))"

definition emitActiveWindowMetrics :: "clock \<Rightarrow> WarmRunnerPolicy \<Rightarrow> rstate \<Rightarrow> rstate" where
  "emitActiveWindowMetrics clk pol rs =
     (let repo = repoName pol; now = clk_emit clk;
          prev = prevActiveUntil rs (pol_Name pol);
          m = rs_metrics rs;
          inactive =
            rs\<lparr>rs_metrics :=
                 (if prev \<noteq> None then
                    m\<lparr>m_activeWindowExpiries :=
                         (m_activeWindowExpiries m)(repo := Suc (m_activeWindowExpiries m repo)),
                      m_activeWindowRemaining := (m_activeWindowRemaining m)(repo \<mapsto> 0)\<rparr>
                  else m),
               prevActiveUntil := (prevActiveUntil rs)(pol_Name pol := None)\<rparr>
      in case st_ActiveUntil (pol_Status pol) of
           None \<Rightarrow> inactive
         | Some cur \<Rightarrow>
             if cur > now then
               rs\<lparr>rs_metrics := m\<lparr>m_activeWindowRemaining :=
                      (m_activeWindowRemaining m)(repo \<mapsto> time_sub cur now)\<rparr>,
                  prevActiveUntil := (prevActiveUntil rs)(pol_Name pol := Some cur)\<rparr>
             else inactive)"

definition setActivityStatus :: "string \<Rightarrow> time option \<Rightarrow> WarmRunnerPolicy \<Rightarrow> WarmRunnerPolicy" where
  "setActivityStatus source activeUntil pol =
     pol\<lparr>pol_Status := (pol_Status pol)\<lparr>st_LastEventSource := source, st_ActiveUntil := activeUntil\<rparr>\<rparr>"

text \<open>The poll path of \<open>computeActivity\<close>: from the check of \<open>r.Activity\<close> to its last return.\<close>

definition computeActivityPoll ::
  "('w, 'o) kube \<Rightarrow> 'w reconciler \<Rightarrow> clock \<Rightarrow> 'w \<Rightarrow> WarmRunnerPolicy \<Rightarrow> leg \<times> WarmRunnerPolicy" where
  "computeActivityPoll k r clk w pol =
     (case rec_Activity r of
        None \<Rightarrow> ((0, [], [], None), pol)
      | Some sample \<Rightarrow>
          if (case spec_Activity (pol_Spec pol) of None \<Rightarrow> False | Some c \<Rightarrow> \<not> ac_Enabled c)
          then ((0, [], [], None), pol)
          else
            let window =
                  (case spec_Activity (pol_Spec pol) of
                     None \<Rightarrow> activityWindowDefault
                   | Some c \<Rightarrow> if ac_WindowSeconds c > 0 then ac_WindowSeconds c * second
                               else activityWindowDefault);
                denylist =
                  BuiltinDenylist
                  @ (case spec_Activity (pol_Spec pol) of None \<Rightarrow> [] | Some c \<Rightarrow> ac_BotLoginDenylist c)
            in case predictorToken k r w pol of
                 Inl terr \<Rightarrow> ((0, [], [], Some terr), pol)
               | Inr token \<Rightarrow>
                   (let gh = spec_GitHub (pol_Spec pol) in
                    case sample (gh_Owner gh) (gh_Repository gh) token window denylist of
                      Inl err \<Rightarrow> ((0, [], [], Some err), pol)
                    | Inr perLabelSet \<Rightarrow>
                        (let (contrib, matched) = contribLoop (gh_Labels gh) 0 [] perLabelSet;
                             matched = topLabelSets activityTopN matched;
                             pol = (if spec_GitHubAppRef (pol_Spec pol) \<noteq> None \<and> length matched > 0
                                    then setActivityStatus LastEventSourcePoll
                                           (Some (clk_poll clk + window)) pol
                                    else pol)
                         in ((contrib, matched, perLabelSet, None), pol))))"

definition computeActivity ::
  "('w, 'o) kube \<Rightarrow> 'w reconciler \<Rightarrow> clock \<Rightarrow> 'w \<Rightarrow> WarmRunnerPolicy \<Rightarrow> rstate \<Rightarrow>
    leg \<times> WarmRunnerPolicy \<times> rstate" where
  "computeActivity k r clk w pol rs =
     (let (res, pol') =
        (case (spec_GitHubAppRef (pol_Spec pol), rec_EventFeed r) of
           (Some _, Some snapshot) \<Rightarrow>
             (let (contrib, matched, per, source, activeUntil) = computeActivityFromFeed snapshot clk pol in
              if source = LastEventSourceWebhook
              then ((contrib, matched, per, None), setActivityStatus source activeUntil pol)
              else computeActivityPoll k r clk w pol)
         | _ \<Rightarrow> computeActivityPoll k r clk w pol)
      in (res, pol', emitActiveWindowMetrics clk pol' rs))"

section \<open>Per-label-set gauges\<close>

text \<open>The two loops of \<open>emitPredictedJobsMetrics\<close> and \<open>emitActivityJobsMetrics\<close>: one sample per
  label set, then the samples of label sets seen last time and absent now are deleted.\<close>

definition setJobGauges ::
  "string \<Rightarrow> per_label_set \<Rightarrow> string list \<Rightarrow> (string \<times> string \<rightharpoonup> int) \<Rightarrow> (string \<times> string \<rightharpoonup> int)" where
  "setJobGauges policy perLabelSet prev gauge =
     (let gauge = fold (\<lambda>(key, cnt) g. g((policy, key) \<mapsto> cnt)) perLabelSet gauge;
          curr = keys perLabelSet
      in fold (\<lambda>key g. if List.member curr key then g else g((policy, key) := None)) prev gauge)"

definition emitPredictedJobsMetrics :: "string \<Rightarrow> per_label_set \<Rightarrow> rstate \<Rightarrow> rstate" where
  "emitPredictedJobsMetrics policy perLabelSet rs =
     rs\<lparr>rs_metrics := (rs_metrics rs)\<lparr>m_predictedJobs :=
          setJobGauges policy perLabelSet (prevPredictedLabels rs policy) (m_predictedJobs (rs_metrics rs))\<rparr>,
        prevPredictedLabels := (prevPredictedLabels rs)(policy := keys perLabelSet)\<rparr>"

definition emitActivityJobsMetrics :: "string \<Rightarrow> per_label_set \<Rightarrow> rstate \<Rightarrow> rstate" where
  "emitActivityJobsMetrics policy perLabelSet rs =
     rs\<lparr>rs_metrics := (rs_metrics rs)\<lparr>m_activityJobs :=
          setJobGauges policy perLabelSet (prevActivityLabels rs policy) (m_activityJobs (rs_metrics rs))\<rparr>,
        prevActivityLabels := (prevActivityLabels rs)(policy := keys perLabelSet)\<rparr>"

section \<open>Reconcile\<close>

text \<open>What the three signal legs leave behind: the floor they ask for, what each contributes, and the
  policy and bookkeeping state with their conditions and window metrics.\<close>

record signals =
  sig_desired :: int32
  sig_predicted :: int32
  sig_predictedSets :: "PredictedLabelSet list"
  sig_perLabelSet :: per_label_set
  sig_activity :: int32
  sig_activitySets :: "PredictedLabelSet list"
  sig_activityPerLabelSet :: per_label_set
  sig_pol :: WarmRunnerPolicy
  sig_rs :: rstate

definition predictorEnabled :: "'w reconciler \<Rightarrow> WarmRunnerPolicy \<Rightarrow> bool" where
  "predictorEnabled r pol =
     ((case rec_Predictor r of None \<Rightarrow> False | Some _ \<Rightarrow> True)
      \<and> (case spec_Predictor (pol_Spec pol) of None \<Rightarrow> True | Some c \<Rightarrow> pc_Enabled c))"

definition activityEnabled :: "'w reconciler \<Rightarrow> WarmRunnerPolicy \<Rightarrow> bool" where
  "activityEnabled r pol =
     ((case rec_Activity r of None \<Rightarrow> False | Some _ \<Rightarrow> True)
      \<and> (case spec_Activity (pol_Spec pol) of None \<Rightarrow> True | Some c \<Rightarrow> ac_Enabled c))"

definition signalLegs ::
  "('w, 'o) kube \<Rightarrow> 'w reconciler \<Rightarrow> clock \<Rightarrow> 'w \<Rightarrow> rstate \<Rightarrow> WarmRunnerPolicy \<Rightarrow> Snapshot \<Rightarrow> int32 \<Rightarrow> signals" where
  "signalLegs k r clk w rs pol snap current =
     (let lastDec = (case st_LastDecreaseTime (pol_Status pol) of None \<Rightarrow> 0 | Some t \<Rightarrow> t);
          dec = dec_DesiredFloor (rec_Scheduler r (pol_Spec pol) (clk_decide clk)
                  \<lparr>dem_Queued = snap_Queued snap, dem_Running = snap_Running snap\<rparr> current lastDec);
          (predictedContrib, predictedSets, per, predErr) = computePredicted k r w pol;
          (pol, predictedContrib) =
            (case predErr of
               Some e \<Rightarrow> (setCondition k clk pol ''PredictorAvailable'' False ''PredictError'' (err_text e), 0)
             | None \<Rightarrow>
                 (if predictorEnabled r pol
                  then setCondition k clk pol ''PredictorAvailable'' True ''Available'' []
                  else pol, predictedContrib));
          dec = (if predictedContrib > dec then predictedContrib else dec);
          ((activityContrib, activitySets, actPer, actErr), pol, rs) = computeActivity k r clk w pol rs;
          (pol, activityContrib) =
            (case actErr of
               Some e \<Rightarrow> (setCondition k clk pol ''ActivityAvailable'' False
                            ActivityConditionReasonSampleError (err_text e), 0)
             | None \<Rightarrow>
                 (if activityEnabled r pol
                  then setCondition k clk pol ''ActivityAvailable'' True ActivityConditionReasonAvailable []
                  else pol, activityContrib));
          dec = (if activityContrib > dec then activityContrib else dec)
      in \<lparr>sig_desired = dec, sig_predicted = predictedContrib, sig_predictedSets = predictedSets,
          sig_perLabelSet = per, sig_activity = activityContrib, sig_activitySets = activitySets,
          sig_activityPerLabelSet = actPer, sig_pol = pol, sig_rs = rs\<rparr>)"

definition clampFloor :: "FloorRange \<Rightarrow> int32 \<times> bool \<times> error option \<Rightarrow> int32 \<Rightarrow> int32" where
  "clampFloor fr backend dec =
     (let dec = (if dec > floor_Max fr then floor_Max fr else dec);
          (backendMax, isSet, maxErr) = backend
      in if maxErr = None \<and> isSet \<and> dec > backendMax then backendMax else dec)"

text \<open>The patch: whether it was skipped by dry run, its error, the world and the policy after it.\<close>

definition patchBackend ::
  "'w adapter \<Rightarrow> Ref \<Rightarrow> clock \<Rightarrow> 'w \<Rightarrow> WarmRunnerPolicy \<Rightarrow> error option \<Rightarrow> int32 \<Rightarrow> int32 \<Rightarrow>
    bool \<times> error option \<times> 'w \<times> WarmRunnerPolicy" where
  "patchBackend ad ref clk w pol demErr current desired =
     (if demErr = None \<and> desired \<noteq> current then
        if spec_DryRun (pol_Spec pol) then (True, None, w, pol)
        else
          (let (setErr, w) = SetFloor ad w ref desired in
           (False, setErr, w,
            if setErr = None \<and> desired < current
            then pol\<lparr>pol_Status := (pol_Status pol)\<lparr>st_LastDecreaseTime := Some (clk_now clk)\<rparr>\<rparr>
            else pol))
      else (False, None, w, pol))"

definition appliedFloor :: "error option \<Rightarrow> error option \<Rightarrow> bool \<Rightarrow> int32 \<Rightarrow> int32 \<Rightarrow> int32" where
  "appliedFloor demErr setErr skippedByDryRun current desired =
     (if demErr \<noteq> None \<or> setErr \<noteq> None \<or> skippedByDryRun then current else desired)"

definition reportStatus ::
  "('w, 'o) kube \<Rightarrow> clock \<Rightarrow> error option \<Rightarrow> int32 \<Rightarrow> int32 \<Rightarrow> Snapshot \<Rightarrow> signals \<Rightarrow> WarmRunnerPolicy \<Rightarrow> WarmRunnerPolicy" where
  "reportStatus k clk setErr desired applied snap sig pol =
     (let pol = setCondition k clk pol ''AdapterAvailable'' (setErr = None) (errReason setErr) (errMsg setErr);
          pol = (if spec_DryRun (pol_Spec pol)
                 then setCondition k clk pol DryRunConditionType True DryRunConditionReasonActive []
                 else setCondition k clk pol DryRunConditionType False DryRunConditionReasonInactive [])
      in pol\<lparr>pol_Status := (pol_Status pol)
           \<lparr>st_DesiredFloor := desired, st_AppliedFloor := applied,
            st_DryRun := spec_DryRun (pol_Spec pol), st_LastQueueDepth := snap_Queued snap,
            st_LastReconcileTime := Some (clk_now clk), st_PredictedFloor := sig_predicted sig,
            st_PredictedLabelSets := sig_predictedSets sig, st_ActivityFloor := sig_activity sig,
            st_ActivityLabelSets := sig_activitySets sig\<rparr>\<rparr>)"

definition countError :: "string \<Rightarrow> string \<Rightarrow> rstate \<Rightarrow> rstate" where
  "countError policy kind rs =
     (let m = rs_metrics rs in
      rs\<lparr>rs_metrics := m\<lparr>m_reconcileErrors :=
        (m_reconcileErrors m)((policy, kind) := Suc (m_reconcileErrors m (policy, kind)))\<rparr>\<rparr>)"

definition countDryRunSkip :: "string \<Rightarrow> rstate \<Rightarrow> rstate" where
  "countDryRunSkip policy rs =
     (let m = rs_metrics rs in
      rs\<lparr>rs_metrics := m\<lparr>m_dryRunSkippedPatches :=
        (m_dryRunSkippedPatches m)(policy := Suc (m_dryRunSkippedPatches m policy))\<rparr>\<rparr>)"

definition countFloorChange :: "string \<Rightarrow> string \<Rightarrow> rstate \<Rightarrow> rstate" where
  "countFloorChange policy direction rs =
     (let m = rs_metrics rs in
      rs\<lparr>rs_metrics := m\<lparr>m_floorChanges :=
        (m_floorChanges m)((policy, direction) := Suc (m_floorChanges m (policy, direction)))\<rparr>\<rparr>)"

definition emitMetrics ::
  "string \<Rightarrow> string \<Rightarrow> error option \<Rightarrow> error option \<Rightarrow> int32 \<Rightarrow> int32 \<Rightarrow> int32 \<Rightarrow> Snapshot \<Rightarrow> signals \<Rightarrow> rstate \<Rightarrow> rstate" where
  "emitMetrics name kind demErr setErr current desired applied snap sig rs =
     (let m = rs_metrics rs;
          rs = rs\<lparr>rs_metrics := m
                 \<lparr>m_desiredFloor := (m_desiredFloor m)((name, kind) \<mapsto> desired),
                  m_appliedFloor := (m_appliedFloor m)((name, kind) \<mapsto> applied),
                  m_queueDepth := (m_queueDepth m)(name \<mapsto> snap_Queued snap),
                  m_predictedFloor := (m_predictedFloor m)(name \<mapsto> sig_predicted sig)\<rparr>\<rparr>;
          rs = emitPredictedJobsMetrics name (sig_perLabelSet sig) rs;
          rs = rs\<lparr>rs_metrics := (rs_metrics rs)
                 \<lparr>m_activityFloor := (m_activityFloor (rs_metrics rs))(name \<mapsto> sig_activity sig)\<rparr>\<rparr>;
          rs = emitActivityJobsMetrics name (sig_activityPerLabelSet sig) rs
      in if demErr = None \<and> setErr = None then
           if desired > current then countFloorChange name ''up'' rs
           else if desired < current then countFloorChange name ''down'' rs
           else rs
         else rs)"

type_synonym 'w outcome = "(Result \<times> error option) \<times> 'w \<times> rstate"

text \<open>The first half of \<open>Reconcile\<close> once a demand source was built: everything that is read and
  decided before anything is written.\<close>

record plan =
  pl_snap :: Snapshot
  pl_demErr :: "error option"
  pl_current :: int32
  pl_sig :: signals
  pl_desired :: int32

definition planFloor ::
  "('w, 'o) kube \<Rightarrow> 'w reconciler \<Rightarrow> clock \<Rightarrow> 'w \<Rightarrow> rstate \<Rightarrow> WarmRunnerPolicy \<Rightarrow>
    'w adapter \<Rightarrow> Ref \<Rightarrow> demand_source \<Rightarrow> plan" where
  "planFloor k r clk w rs pol ad ref src =
     (let gh = spec_GitHub (pol_Spec pol);
          (snap, demErr) = src (gh_Owner gh) (gh_Repository gh) (gh_Labels gh);
          rs = (if demErr \<noteq> None then countError (pol_Name pol) ''demand_source'' rs else rs);
          pol = setCondition k clk pol ''DemandSourceAvailable'' (demErr = None) (errReason demErr) (errMsg demErr);
          current = fst (GetFloor ad w ref);
          sig = signalLegs k r clk w rs pol snap current;
          desired = clampFloor (spec_Floor (pol_Spec pol)) (GetMax ad w ref) (sig_desired sig)
      in \<lparr>pl_snap = snap, pl_demErr = demErr, pl_current = current, pl_sig = sig, pl_desired = desired\<rparr>)"

text \<open>The second half: patch, status, metrics.\<close>

definition applyPlan ::
  "('w, 'o) kube \<Rightarrow> clock \<Rightarrow> 'w \<Rightarrow> 'w adapter \<Rightarrow> Ref \<Rightarrow> plan \<Rightarrow> 'w outcome" where
  "applyPlan k clk w ad ref p =
     (let sig = pl_sig p; demErr = pl_demErr p; current = pl_current p; desired = pl_desired p;
          (skippedByDryRun, setErr, w, pol) = patchBackend ad ref clk w (sig_pol sig) demErr current desired;
          name = pol_Name pol;
          rs = sig_rs sig;
          rs = (if skippedByDryRun then countDryRunSkip name rs else rs);
          rs = (if setErr \<noteq> None then countError name ''adapter'' rs else rs);
          applied = appliedFloor demErr setErr skippedByDryRun current desired;
          pol = reportStatus k clk setErr desired applied (pl_snap p) sig pol;
          (statusErr, w) = update_policy_status k w pol;
          rs = emitMetrics name (Kind (spec_Target (pol_Spec pol))) demErr setErr current desired applied
                 (pl_snap p) sig rs
      in case statusErr of
           Some e \<Rightarrow> ((\<lparr>res_RequeueAfter = 0\<rparr>, Some e), w, countError name ''status_update'' rs)
         | None \<Rightarrow> ((\<lparr>res_RequeueAfter = effectivePollInterval pol\<rparr>, None), w, rs))"

definition reconcileFloor ::
  "('w, 'o) kube \<Rightarrow> 'w reconciler \<Rightarrow> clock \<Rightarrow> 'w \<Rightarrow> rstate \<Rightarrow> WarmRunnerPolicy \<Rightarrow>
    'w adapter \<Rightarrow> Ref \<Rightarrow> demand_source \<Rightarrow> 'w outcome" where
  "reconcileFloor k r clk w rs pol ad ref src =
     applyPlan k clk w ad ref (planFloor k r clk w rs pol ad ref src)"

text \<open>No demand source could be built: the condition is recorded and the backend is left alone.\<close>

definition reconcileNoSource ::
  "('w, 'o) kube \<Rightarrow> clock \<Rightarrow> 'w \<Rightarrow> rstate \<Rightarrow> WarmRunnerPolicy \<Rightarrow> error \<Rightarrow> 'w outcome" where
  "reconcileNoSource k clk w rs pol srcErr =
     (let rs = countError (pol_Name pol) ''demand_source'' rs;
          pol = setCondition k clk pol ''DemandSourceAvailable'' False
                  (errReason (Some srcErr)) (errMsg (Some srcErr));
          pol = pol\<lparr>pol_Status := (pol_Status pol)\<lparr>st_LastReconcileTime := Some (clk_now clk)\<rparr>\<rparr>;
          (statusErr, w) = update_policy_status k w pol
      in case statusErr of
           Some e \<Rightarrow> ((\<lparr>res_RequeueAfter = 0\<rparr>, Some e), w, countError (pol_Name pol) ''status_update'' rs)
         | None \<Rightarrow> ((\<lparr>res_RequeueAfter = effectivePollInterval pol\<rparr>, None), w, rs))"

definition Reconcile ::
  "('w, 'o) kube \<Rightarrow> 'w reconciler \<Rightarrow> clock \<Rightarrow> 'w \<Rightarrow> rstate \<Rightarrow> NamespacedName \<Rightarrow> 'w outcome" where
  "Reconcile k r clk w rs req =
     (case get_policy k w req of
        Inl e \<Rightarrow> ((\<lparr>res_RequeueAfter = 0\<rparr>, if err_not_found e then None else Some e), w, rs)
      | Inr pol \<Rightarrow>
          (case adapterFor k r (spec_Target (pol_Spec pol)) of
             None \<Rightarrow> ((\<lparr>res_RequeueAfter = 0\<rparr>, None), w, rs)
           | Some (ad, ref) \<Rightarrow>
               (case demandSource k r w pol of
                  Inl srcErr \<Rightarrow> reconcileNoSource k clk w rs pol srcErr
                | Inr src \<Rightarrow> reconcileFloor k r clk w rs pol ad ref src)))"

section \<open>What the stages leave alone\<close>

named_theorems frame \<open>the parts of a policy a stage does not write\<close>

text \<open>Two policies that agree on everything but the conditions and the activity fields of the
  status.\<close>

definition same_identity :: "WarmRunnerPolicy \<Rightarrow> WarmRunnerPolicy \<Rightarrow> bool" where
  "same_identity p q \<longleftrightarrow>
     pol_Name p = pol_Name q \<and> pol_Namespace p = pol_Namespace q
     \<and> pol_Generation p = pol_Generation q \<and> pol_Spec p = pol_Spec q"

definition same_decrease :: "WarmRunnerPolicy \<Rightarrow> WarmRunnerPolicy \<Rightarrow> bool" where
  "same_decrease p q \<longleftrightarrow>
     st_LastDecreaseTime (pol_Status p) = st_LastDecreaseTime (pol_Status q)"

lemma same_identity_refl [simp]: "same_identity p p"
  by (simp add: same_identity_def)

lemma same_decrease_refl [simp]: "same_decrease p p"
  by (simp add: same_decrease_def)

lemma setCondition_frame [simp, frame]:
  "pol_Name (setCondition k clk p t ok a b) = pol_Name p"
  "pol_Namespace (setCondition k clk p t ok a b) = pol_Namespace p"
  "pol_Generation (setCondition k clk p t ok a b) = pol_Generation p"
  "pol_Spec (setCondition k clk p t ok a b) = pol_Spec p"
  "st_LastDecreaseTime (pol_Status (setCondition k clk p t ok a b)) = st_LastDecreaseTime (pol_Status p)"
  "st_ActiveUntil (pol_Status (setCondition k clk p t ok a b)) = st_ActiveUntil (pol_Status p)"
  "st_LastEventSource (pol_Status (setCondition k clk p t ok a b)) = st_LastEventSource (pol_Status p)"
  by (simp_all add: setCondition_def)

lemma computeActivityPoll_frame [frame]:
  assumes "computeActivityPoll k r clk w pol = (l, pol')"
  shows "same_identity pol' pol" "same_decrease pol' pol"
  using assms
  by (auto simp: computeActivityPoll_def setActivityStatus_def same_identity_def same_decrease_def Let_def
      split: option.splits if_splits sum.splits prod.splits)

lemma computeActivity_frame [frame]:
  assumes "computeActivity k r clk w pol rs = (l, pol', rs')"
  shows "same_identity pol' pol" "same_decrease pol' pol"
  using assms computeActivityPoll_frame [of k r clk w pol l pol']
  by (auto simp: computeActivity_def setActivityStatus_def Let_def same_identity_def same_decrease_def
      split: option.splits if_splits prod.splits)

end
