(* ===== verification/Floor.thy ===== *)
theory Floor
  imports Reconciler
begin

text \<open>
  The floor the reconciler decides and writes. \<open>signalLegs\<close> is the maximum of the scheduler's
  proposal and the two contributions; \<open>clampFloor\<close> caps it; \<open>applyPlan\<close> writes it, or not.
\<close>

section \<open>The signals\<close>

definition scheduler_proposal ::
  "'w reconciler \<Rightarrow> clock \<Rightarrow> WarmRunnerPolicy \<Rightarrow> Snapshot \<Rightarrow> int32 \<Rightarrow> int32" where
  "scheduler_proposal r clk pol snap current =
     dec_DesiredFloor (rec_Scheduler r (pol_Spec pol) (clk_decide clk)
       \<lparr>dem_Queued = snap_Queued snap, dem_Running = snap_Running snap\<rparr> current
       (case st_LastDecreaseTime (pol_Status pol) of None \<Rightarrow> 0 | Some t \<Rightarrow> t))"

text \<open>The two legs taken apart: what each computed and the policy between them.\<close>

lemma signalLegsE:
  obtains c1 s1 per1 e1 pol1 c2 s2 per2 e2 pol2 rs2 pol3
  where "computePredicted k r w pol = (c1, s1, per1, e1)"
    and "same_identity pol1 pol" "same_decrease pol1 pol"
    and "computeActivity k r clk w pol1 rs = ((c2, s2, per2, e2), pol2, rs2)"
    and "same_identity pol3 pol" "same_decrease pol3 pol"
    and "signalLegs k r clk w rs pol snap current =
      (let p = (if e1 = None then c1 else 0); a = (if e2 = None then c2 else 0) in
       \<lparr>sig_desired = max (max (scheduler_proposal r clk pol snap current) p) a,
        sig_predicted = p, sig_predictedSets = s1, sig_perLabelSet = per1, sig_activity = a,
        sig_activitySets = s2, sig_activityPerLabelSet = per2, sig_pol = pol3, sig_rs = rs2\<rparr>)"
proof -
  obtain c1 s1 per1 e1 where P: "computePredicted k r w pol = (c1, s1, per1, e1)"
    by (metis surj_pair)
  define pol1 where "pol1 = (case e1 of
       Some e \<Rightarrow> setCondition k clk pol ''PredictorAvailable'' False ''PredictError'' (err_text e)
     | None \<Rightarrow> if predictorEnabled r pol
         then setCondition k clk pol ''PredictorAvailable'' True ''Available'' [] else pol)"
  obtain c2 s2 per2 e2 pol2 rs2
    where A: "computeActivity k r clk w pol1 rs = ((c2, s2, per2, e2), pol2, rs2)"
    by (metis surj_pair)
  define pol3 where "pol3 = (case e2 of
      Some e \<Rightarrow> setCondition k clk pol2 ''ActivityAvailable'' False ActivityConditionReasonSampleError (err_text e)
    | None \<Rightarrow> if activityEnabled r pol2
        then setCondition k clk pol2 ''ActivityAvailable'' True ActivityConditionReasonAvailable [] else pol2)"
  have 1: "same_identity pol1 pol" "same_decrease pol1 pol"
    by (simp_all add: pol1_def same_identity_def same_decrease_def split: option.split)
  have 3: "same_identity pol3 pol" "same_decrease pol3 pol"
    using 1 computeActivity_frame [OF A]
    by (simp_all add: pol3_def same_identity_def same_decrease_def split: option.split)
  have m: "(if a > b then a else b) = max b a" for a b :: int by (simp add: max_def)
  have "signalLegs k r clk w rs pol snap current =
      (let p = (if e1 = None then c1 else 0); a = (if e2 = None then c2 else 0) in
       \<lparr>sig_desired = max (max (scheduler_proposal r clk pol snap current) p) a,
        sig_predicted = p, sig_predictedSets = s1, sig_perLabelSet = per1, sig_activity = a,
        sig_activitySets = s2, sig_activityPerLabelSet = per2, sig_pol = pol3, sig_rs = rs2\<rparr>)"
    unfolding signalLegs_def scheduler_proposal_def m using P A
    by (cases e1; cases e2) (simp_all add: Let_def pol1_def pol3_def)
  then show thesis using that P 1 A 3 by blast
qed

lemma signalLegs_desired:
  "sig_desired (signalLegs k r clk w rs pol snap current) =
     max (max (scheduler_proposal r clk pol snap current)
              (sig_predicted (signalLegs k r clk w rs pol snap current)))
         (sig_activity (signalLegs k r clk w rs pol snap current))"
  by (rule signalLegsE [of k r w pol clk rs snap current]) (simp add: Let_def)

lemma signalLegs_frame:
  "same_identity (sig_pol (signalLegs k r clk w rs pol snap current)) pol"
  "same_decrease (sig_pol (signalLegs k r clk w rs pol snap current)) pol"
  by (rule signalLegsE [of k r w pol clk rs snap current], simp add: Let_def)+

section \<open>The caps\<close>

lemma clampFloor_le: "clampFloor fr b d \<le> d" "clampFloor fr b d \<le> floor_Max fr"
  by (auto simp: clampFloor_def Let_def split: prod.split)

lemma clampFloor_backend: "clampFloor fr (cap, True, None) d \<le> cap"
  by (auto simp: clampFloor_def Let_def)

lemma clampFloor_eq:
  "clampFloor fr b d =
    (case b of (cap, True, None) \<Rightarrow> min (min d (floor_Max fr)) cap | _ \<Rightarrow> min d (floor_Max fr))"
  by (auto simp: clampFloor_def Let_def min_def split: prod.split option.split bool.split)

text \<open>A floor that is within both caps is not lowered by them below a value within both.\<close>

definition within_caps :: "FloorRange \<Rightarrow> int32 \<times> bool \<times> error option \<Rightarrow> int32 \<Rightarrow> bool" where
  "within_caps fr b c \<longleftrightarrow>
     c \<le> floor_Max fr \<and> (case b of (cap, isSet, err) \<Rightarrow> isSet \<and> err = None \<longrightarrow> c \<le> cap)"

lemma clampFloor_ge: "within_caps fr b c \<Longrightarrow> c \<le> d \<Longrightarrow> c \<le> clampFloor fr b d"
  by (auto simp: within_caps_def clampFloor_def Let_def split: prod.split)

section \<open>The plan\<close>

lemma planFloor_simps:
  fixes k r clk w rs pol ad ref src
  defines "p \<equiv> planFloor k r clk w rs pol ad ref src"
  shows "pl_current p = fst (GetFloor ad w ref)"
    and "pl_demErr p = snd (src (gh_Owner (spec_GitHub (pol_Spec pol)))
           (gh_Repository (spec_GitHub (pol_Spec pol))) (gh_Labels (spec_GitHub (pol_Spec pol))))"
    and "pl_desired p = clampFloor (spec_Floor (pol_Spec pol)) (GetMax ad w ref) (sig_desired (pl_sig p))"
    and "same_identity (sig_pol (pl_sig p)) pol"
    and "same_decrease (sig_pol (pl_sig p)) pol"
    and "sig_desired (pl_sig p) =
           max (max (scheduler_proposal r clk pol (pl_snap p) (pl_current p)) (sig_predicted (pl_sig p)))
             (sig_activity (pl_sig p))"
proof -
  obtain snap demErr where s: "src (gh_Owner (spec_GitHub (pol_Spec pol)))
      (gh_Repository (spec_GitHub (pol_Spec pol))) (gh_Labels (spec_GitHub (pol_Spec pol))) = (snap, demErr)"
    by force
  define pol1 where "pol1 = setCondition k clk pol ''DemandSourceAvailable'' (demErr = None)
    (errReason demErr) (errMsg demErr)"
  define rs1 where "rs1 = (if demErr \<noteq> None then countError (pol_Name pol) ''demand_source'' rs else rs)"
  have p: "p = (let sig = signalLegs k r clk w rs1 pol1 snap (fst (GetFloor ad w ref)) in
      \<lparr>pl_snap = snap, pl_demErr = demErr, pl_current = fst (GetFloor ad w ref), pl_sig = sig,
       pl_desired = clampFloor (spec_Floor (pol_Spec pol)) (GetMax ad w ref) (sig_desired sig)\<rparr>)"
    by (simp add: p_def planFloor_def Let_def s pol1_def rs1_def)
  show "pl_current p = fst (GetFloor ad w ref)" by (simp add: p Let_def)
  show "pl_demErr p = snd (src (gh_Owner (spec_GitHub (pol_Spec pol)))
      (gh_Repository (spec_GitHub (pol_Spec pol))) (gh_Labels (spec_GitHub (pol_Spec pol))))"
    by (simp add: p Let_def s)
  show "pl_desired p = clampFloor (spec_Floor (pol_Spec pol)) (GetMax ad w ref) (sig_desired (pl_sig p))"
    by (simp add: p Let_def)
  have i: "same_identity pol1 pol" "same_decrease pol1 pol"
    by (simp_all add: pol1_def same_identity_def same_decrease_def)
  show "same_identity (sig_pol (pl_sig p)) pol"
    using signalLegs_frame(1) [of k r clk w rs1 pol1 snap "fst (GetFloor ad w ref)"] i
    by (simp add: p Let_def same_identity_def)
  show "same_decrease (sig_pol (pl_sig p)) pol"
    using signalLegs_frame(2) [of k r clk w rs1 pol1 snap "fst (GetFloor ad w ref)"] i
    by (simp add: p Let_def same_decrease_def)
  have "scheduler_proposal r clk pol1 snap c = scheduler_proposal r clk pol snap c" for c
    using i by (simp add: scheduler_proposal_def same_identity_def same_decrease_def)
  then show "sig_desired (pl_sig p) =
      max (max (scheduler_proposal r clk pol (pl_snap p) (pl_current p)) (sig_predicted (pl_sig p)))
        (sig_activity (pl_sig p))"
    using signalLegs_desired [of k r clk w rs1 pol1 snap "fst (GetFloor ad w ref)"]
    by (simp add: p Let_def)
qed

end
