(* ===== verification/Signals.thy ===== *)
theory Signals
  imports Reconciler
begin

text \<open>
  The label-set contributions of the reconciler's predictor and activity legs: what the loop over a
  snapshot computes, that the result does not depend on the order in which Go visits the snapshot's
  map nor on how \<open>sort.Slice\<close> places equivalent elements, and what the status shows of it.
\<close>

section \<open>Specification\<close>

text \<open>The label sets of a snapshot that serve a policy: those that include all its labels.\<close>

definition serves :: "string list \<Rightarrow> string \<times> int \<Rightarrow> bool" where
  "serves want kv \<longleftrightarrow> set want \<subseteq> set (splitLabelSetKey (fst kv))"

definition demand_for :: "string list \<Rightarrow> per_label_set \<Rightarrow> int" where
  "demand_for want m = sum_list (map snd (filter (serves want) m))"

definition entry :: "string \<times> int \<Rightarrow> PredictedLabelSet" where
  "entry kv = \<lparr>pls_Labels = splitLabelSetKey (fst kv), pls_Count = to_int32 (snd kv)\<rparr>"

text \<open>A snapshot as the predictor, the sampler and the feed build it: distinct keys, each the key of
  a list of plain labels.\<close>

definition canonical_snapshot :: "per_label_set \<Rightarrow> bool" where
  "canonical_snapshot m \<longleftrightarrow> distinct (keys m) \<and> (\<forall>k \<in> set (keys m). canonical_key k)"

text \<open>The order \<open>labelSetLess\<close> compares by: larger counts first, then the key.\<close>

definition rank :: "PredictedLabelSet \<Rightarrow> int \<times> string" where
  "rank p = (- pls_Count p, LabelSetKey (pls_Labels p))"

section \<open>The loop\<close>

lemma contribLoop_eq:
  "is_int32 c \<Longrightarrow> contribLoop want c ms m =
    (to_int32 (c + demand_for want m), ms @ map entry (filter (serves want) m))"
proof (induction m arbitrary: c ms)
  case Nil
  then show ?case by (simp add: demand_for_def)
next
  case (Cons kv m)
  obtain key n where kv: "kv = (key, n)" by force
  have "to_int32 (to_int32 (c + to_int32 n) + demand_for want m) = to_int32 (c + (n + demand_for want m))"
    by (simp add: to_int32_add) (metis add.assoc to_int32_add to_int32_add_right)
  then show ?case
    using Cons by (simp add: kv serves_def entry_def demand_for_def policy_filter.superset_iff)
qed

lemma demand_for_perm: "mset m' = mset m \<Longrightarrow> demand_for want m' = demand_for want m"
  unfolding demand_for_def by (metis mset_filter mset_map sum_mset_sum_list)

lemma labelSetLess_rank: "labelSetLess a b \<longleftrightarrow> rank a < rank b"
  by (auto simp: labelSetLess_def rank_def less_prod_def)

lemma entry_key [simp]: "canonical_key (fst kv) \<Longrightarrow> LabelSetKey (pls_Labels (entry kv)) = fst kv"
  by (simp add: entry_def)

lemma inj_rank_entries:
  assumes "canonical_snapshot m"
  shows "inj_on rank (set (map entry (filter (serves want) m)))"
proof (rule inj_onI)
  fix a b
  assume "a \<in> set (map entry (filter (serves want) m))" "b \<in> set (map entry (filter (serves want) m))"
  then obtain x y where x: "x \<in> set m" "a = entry x" and y: "y \<in> set m" "b = entry y" by auto
  assume "rank a = rank b"
  moreover have "canonical_key (fst x)" "canonical_key (fst y)"
    using assms x(1) y(1) by (auto simp: canonical_snapshot_def keys_def)
  ultimately have "fst x = fst y" using x(2) y(2) by (simp add: rank_def)
  then have "x = y"
    using assms x(1) y(1) by (metis canonical_snapshot_def eq_key_imp_eq_value keys_def prod.collapse)
  then show "a = b" using x y by simp
qed

section \<open>The top label sets\<close>

lemma topLabelSets_eq: "topLabelSets n ms = take n (sort_slice labelSetLess ms)"
  by (simp add: topLabelSets_def Let_def)

lemma topLabelSets_sorted: "sorted (map rank (topLabelSets n ms))"
  using sorted_sort_slice [of labelSetLess rank ms, OF labelSetLess_rank]
  by (simp add: topLabelSets_eq take_map [symmetric] sorted_wrt_take)

lemma topLabelSets_subset: "set (topLabelSets n ms) \<subseteq> set ms"
  using set_take_subset [of n "sort_slice labelSetLess ms"] by (simp add: topLabelSets_eq)

lemma topLabelSets_length: "length (topLabelSets n ms) = min n (length ms)"
  by (simp add: topLabelSets_eq)

lemma topLabelSets_dominates:
  assumes "x \<in> set (topLabelSets n ms)" "y \<in> set (drop n (sort_slice labelSetLess ms))"
  shows "rank x \<le> rank y"
proof -
  let ?s = "sort_slice labelSetLess ms"
  have "sorted (map rank (take n ?s @ drop n ?s))"
    using sorted_sort_slice [of labelSetLess rank ms, OF labelSetLess_rank] by simp
  then show ?thesis using assms by (simp add: topLabelSets_eq sorted_append del: append_take_drop_id)
qed

section \<open>Properties\<close>

text \<open>C13. The contribution and the label sets shown in the status are functions of the snapshot as a
  map. Whatever order \<open>range\<close> visits the map in, and however \<open>sort.Slice\<close> arranges what it is given
  in an order its comparison allows, the same number and the same list come out.\<close>

theorem label_sets_deterministic:
  assumes "canonical_snapshot m" "mset m' = mset m"
    and "mset ys = mset (snd (contribLoop want 0 [] m'))"
    and "sorted_wrt (\<lambda>a b. \<not> labelSetLess b a) ys"
  shows "fst (contribLoop want 0 [] m') = fst (contribLoop want 0 [] m)
    \<and> take n ys = topLabelSets n (snd (contribLoop want 0 [] m))"
proof -
  let ?es = "map entry (filter (serves want) m)"
  have "mset ys = mset ?es"
    using assms(2,3) by (simp add: contribLoop_eq)
  moreover have "sorted (map rank ys)"
    using assms(4) by (simp add: sorted_map labelSetLess_rank not_less)
  ultimately have "ys = sort_slice labelSetLess ?es"
    using sort_slice_unique [of labelSetLess rank ys ?es, OF labelSetLess_rank]
      inj_rank_entries [OF assms(1)] by blast
  then show ?thesis
    using demand_for_perm [OF assms(2)] by (simp add: contribLoop_eq topLabelSets_eq)
qed

theorem label_sets_deterministic_witness:
  "let m = [(''gpu,linux'', 2), (''cpu'', 7), (''gpu'', 1)]; m' = [(''cpu'', 7), (''gpu'', 1), (''gpu,linux'', 2)]
   in fst (contribLoop [''gpu''] 0 [] m') = 3
      \<and> [\<lparr>pls_Labels = [''gpu'', ''linux''], pls_Count = 2\<rparr>, \<lparr>pls_Labels = [''gpu''], pls_Count = 1\<rparr>]
        = topLabelSets 8 (snd (contribLoop [''gpu''] 0 [] m))"
proof -
  let ?m = "[(''gpu,linux'', 2), (''cpu'', 7), (''gpu'', 1)]"
  let ?m' = "[(''cpu'', 7), (''gpu'', 1), (''gpu,linux'', 2)]"
  let ?ys = "[\<lparr>pls_Labels = [''gpu'', ''linux''], pls_Count = 2\<rparr>, \<lparr>pls_Labels = [''gpu''], pls_Count = 1\<rparr>]"
  have "plain_labels [''linux'', ''gpu'']" "plain_labels [''cpu'']" "plain_labels [''gpu'']"
    and "LabelSetKey [''linux'', ''gpu''] = ''gpu,linux''" "LabelSetKey [''cpu''] = ''cpu''"
    "LabelSetKey [''gpu''] = ''gpu''" by code_simp+
  then have key: "canonical_key ''gpu,linux''" "canonical_key ''cpu''" "canonical_key ''gpu''"
    using canonical_keyI [of "[''linux'', ''gpu'']"] canonical_keyI [of "[''cpu'']"]
      canonical_keyI [of "[''gpu'']"] by simp_all
  have m: "canonical_snapshot ?m" unfolding canonical_snapshot_def using key by simp
  have "snd (contribLoop [''gpu''] 0 [] ?m') =
      [\<lparr>pls_Labels = [''gpu''], pls_Count = 1\<rparr>, \<lparr>pls_Labels = [''gpu'', ''linux''], pls_Count = 2\<rparr>]" by code_simp
  then have ys: "mset ?ys = mset (snd (contribLoop [''gpu''] 0 [] ?m'))" by simp
  have "\<not> labelSetLess (?ys ! 1) (?ys ! 0)" by code_simp
  then have "sorted_wrt (\<lambda>a b. \<not> labelSetLess b a) ?ys" by simp
  moreover have "mset ?m' = mset ?m" by simp
  moreover have "fst (contribLoop [''gpu''] 0 [] ?m) = 3" by code_simp
  ultimately show ?thesis
    using label_sets_deterministic [OF m _ ys, of 8] by (simp add: Let_def)
qed

end
