(* ===== verification/Memory_Cluster.thy ===== *)
theory Memory_Cluster
  imports Reconciler
begin

text \<open>
  A small in-memory cluster: one concrete value for the parameter \<open>kube\<close>, on which the hypotheses
  about the Kubernetes client hold and the concrete instances of the theorems are evaluated. It
  is not part of the model of the program.
\<close>

section \<open>The cluster\<close>

type_synonym fields = "(string list \<times> int64) list"
type_synonym stored = "(GroupVersionKind \<times> NamespacedName) \<times> fields"

record cluster =
  cl_objects :: "(GroupVersionKind \<times> NamespacedName, fields) gomap"
  cl_policies :: "(NamespacedName, WarmRunnerPolicy) gomap"
  cl_secrets :: "(NamespacedName, string \<rightharpoonup> string) gomap"
  cl_apps :: "(NamespacedName, GitHubApp) gomap"

definition not_found :: error where
  "not_found = Error True ''not found''"

definition mem_get :: "('k, 'v) gomap \<Rightarrow> 'k \<Rightarrow> error + 'v" where
  "mem_get m key = (case map_of m key of None \<Rightarrow> Inl not_found | Some v \<Rightarrow> Inr v)"

definition set_condition :: "time \<Rightarrow> Condition list \<Rightarrow> Condition \<Rightarrow> Condition list" where
  "set_condition now cs c =
     (if \<exists>x \<in> set cs. cond_Type x = cond_Type c
      then map (\<lambda>x. if cond_Type x = cond_Type c
                    then c\<lparr>cond_LastTransitionTime :=
                            (if cond_Status x = cond_Status c then cond_LastTransitionTime x else now)\<rparr>
                    else x) cs
      else cs @ [c\<lparr>cond_LastTransitionTime := now\<rparr>])"

definition memory :: "(cluster, stored) kube" where
  "memory =
     \<lparr>get_object = (\<lambda>w g n. map_sum id (Pair (g, n)) (mem_get (cl_objects w) (g, n))),
      update_object = (\<lambda>w ob. case map_of (cl_objects w) (fst ob) of
          None \<Rightarrow> (Some not_found, w)
        | Some _ \<Rightarrow> (None, w\<lparr>cl_objects := AList.update (fst ob) (snd ob) (cl_objects w)\<rparr>)),
      NestedInt64 = (\<lambda>ob p. case map_of (snd ob) p of None \<Rightarrow> (0, False, None) | Some v \<Rightarrow> (v, True, None)),
      SetNestedField = (\<lambda>ob v p. (None, (fst ob, AList.update p v (snd ob)))),
      get_policy = (\<lambda>w n. map_sum id (\<lambda>p. p\<lparr>pol_Name := nn_Name n, pol_Namespace := nn_Namespace n\<rparr>)
          (mem_get (cl_policies w) n)),
      get_app = (\<lambda>w n. map_sum id (\<lambda>a. a\<lparr>gha_Name := nn_Name n\<rparr>)
          (if nn_Namespace n = [] then mem_get (cl_apps w) n else Inl not_found)),
      list_apps = (\<lambda>w. Inr (map snd (cl_apps w))),
      get_secret = (\<lambda>w n. mem_get (cl_secrets w) n),
      update_policy_status = (\<lambda>w pol. case map_of (cl_policies w) (policy_key pol) of
          None \<Rightarrow> (Some not_found, w)
        | Some old \<Rightarrow> (None, w\<lparr>cl_policies :=
            AList.update (policy_key pol) (old\<lparr>pol_Status := stored_status (pol_Status pol)\<rparr>) (cl_policies w)\<rparr>)),
      update_app_status = (\<lambda>w app. case map_of (cl_apps w) \<lparr>nn_Name = gha_Name app, nn_Namespace = []\<rparr> of
          None \<Rightarrow> (Some not_found, w)
        | Some old \<Rightarrow> (None, w\<lparr>cl_apps := AList.update \<lparr>nn_Name = gha_Name app, nn_Namespace = []\<rparr>
            (old\<lparr>gha_Status := gha_Status app\<rparr>) (cl_apps w)\<rparr>)),
      SetStatusCondition = set_condition\<rparr>"

section \<open>It keeps the laws\<close>

lemma memory_nested: "nested_laws memory"
  by (auto simp: nested_laws_def memory_def update_conv' split: option.splits)

lemma memory_store: "store_laws memory"
  by (auto simp: store_laws_def memory_def mem_get_def update_conv' split: option.splits)

lemma memory_laws: "kube_laws memory"
  by (simp add: kube_laws_def memory_nested memory_store)

lemma memory_status: "status_laws memory"
  by (auto simp: status_laws_def memory_def mem_get_def update_conv' policy_key_def split: option.splits)

lemma memory_cluster: "cluster_laws memory"
  by (simp add: cluster_laws_def memory_laws memory_status)

section \<open>A reconciler over it\<close>

definition zero_metrics :: metrics where
  "zero_metrics =
     \<lparr>m_desiredFloor = Map.empty, m_appliedFloor = Map.empty, m_queueDepth = Map.empty,
      m_floorChanges = (\<lambda>_. 0), m_reconcileErrors = (\<lambda>_. 0), m_predictedFloor = Map.empty,
      m_predictedJobs = Map.empty, m_activityFloor = Map.empty, m_activityJobs = Map.empty,
      m_dryRunSkippedPatches = (\<lambda>_. 0), m_activeWindowExpiries = (\<lambda>_. 0),
      m_activeWindowRemaining = Map.empty\<rparr>"

definition zero_rstate :: rstate where
  "zero_rstate =
     \<lparr>prevPredictedLabels = (\<lambda>_. []), prevActivityLabels = (\<lambda>_. []),
      prevActiveUntil = (\<lambda>_. None), rs_metrics = zero_metrics\<rparr>"

definition utc :: tzdb where
  "utc name = (if name = ''UTC'' then Some (\<lambda>_. 0) else None)"

text \<open>A reconciler with the heuristic scheduler, a demand source that reports the given error, and a
  predictor that sees two label sets for the example policy and one that is not its own.\<close>

definition example_prediction :: per_label_set where
  "example_prediction = [(''gpu,linux'', 2), (''cpu'', 7), (''gpu'', 1)]"

definition example_reconciler :: "error option \<Rightarrow> cluster reconciler" where
  "example_reconciler demErr =
     \<lparr>rec_Scheduler = Decide utc,
      rec_Demand = Some (\<lambda>_ _ _. (\<lparr>snap_Queued = 0, snap_Running = 0\<rparr>, demErr)),
      rec_NewPoller = (\<lambda>_ _ _ _. (\<lparr>snap_Queued = 0, snap_Running = 0\<rparr>, demErr)),
      rec_AdapterFunc = None,
      rec_Predictor = Some (\<lambda>_ _ _. Inr example_prediction),
      rec_Activity = None,
      rec_EventFeed = None\<rparr>"

definition example_clock :: "time \<Rightarrow> clock" where
  "example_clock t =
     \<lparr>clk_decide = t, clk_feed = t, clk_poll = t, clk_emit = t, clk_now = t, clk_cond = (\<lambda>_. t)\<rparr>"

definition example_req :: NamespacedName where
  "example_req = \<lparr>nn_Name = ''p'', nn_Namespace = ''ns''\<rparr>"

definition example_ref :: Ref where
  "example_ref = \<lparr>ref_Name = ''set'', ref_Namespace = ''ns''\<rparr>"

text \<open>The cluster with a policy and the runner set it targets, whose floor is given.\<close>

definition example_cluster :: "WarmRunnerPolicy \<Rightarrow> int \<Rightarrow> cluster" where
  "example_cluster pol floor =
     \<lparr>cl_objects = [((arcGVK, ref_key example_ref),
        [([''spec'', ''minRunners''], floor), ([''spec'', ''maxRunners''], 10)])],
      cl_policies = [(example_req, pol)], cl_secrets = [], cl_apps = []\<rparr>"

definition example_src :: "error option \<Rightarrow> demand_source" where
  "example_src demErr = (\<lambda>_ _ _. (\<lparr>snap_Queued = 0, snap_Running = 0\<rparr>, demErr))"

lemma example_policy_read:
  "get_policy memory (example_cluster example_policy f) example_req = Inr example_policy"
  by (simp add: memory_def mem_get_def example_cluster_def example_req_def example_policy_def)

lemma example_adapter:
  "adapterFor memory (example_reconciler e) (spec_Target (pol_Spec example_policy))
    = Some (NewArcAdapter memory, example_ref)"
  by (simp add: adapterFor_def example_reconciler_def example_policy_def example_spec_def Kind_def example_ref_def)

lemma example_valid: "valid_floor (spec_Floor (pol_Spec example_policy))"
  by code_simp

definition evening :: clock where "evening = example_clock (20 * 60 * minute)"

theorem adapter_set_get_witness:
  "GetFloor (NewArcAdapter memory)
     (snd (SetFloor (NewArcAdapter memory) (example_cluster example_policy 4) example_ref 7)) example_ref = (7, None)"
proof -
  let ?ad = "NewArcAdapter memory" and ?w = "example_cluster example_policy 4"
  have "fst (SetFloor ?ad ?w example_ref 7) = None" by code_simp
  then have s: "SetFloor ?ad ?w example_ref 7 = (None, snd (SetFloor ?ad ?w example_ref 7))" by (metis prod.collapse)
  have "is_int32 7" by code_simp
  from adapter_set_get [OF memory_laws disjI1 [OF refl] this s] show ?thesis by blast
qed

end
