(* ===== verification/Safety.thy ===== *)
theory Safety
  imports Floor Signals Memory_Cluster
begin

section \<open>What a reconcile writes\<close>

text \<open>The world after a plan is applied: at most one \<open>SetFloor\<close>, then one status update.\<close>

lemma applyPlanE:
  assumes "applyPlan k clk w ad ref p = (res, w', rs')"
  obtains skipped setErr w1 pol2 applied
  where "patchBackend ad ref clk w (sig_pol (pl_sig p)) (pl_demErr p) (pl_current p) (pl_desired p)
      = (skipped, setErr, w1, pol2)"
    and "applied = appliedFloor (pl_demErr p) setErr skipped (pl_current p) (pl_desired p)"
    and "w' = snd (update_policy_status k w1
      (reportStatus k clk setErr (pl_desired p) applied (pl_snap p) (pl_sig p) pol2))"
    and "snd res = fst (update_policy_status k w1
      (reportStatus k clk setErr (pl_desired p) applied (pl_snap p) (pl_sig p) pol2))"
proof -
  obtain skipped setErr w1 pol2
    where b: "patchBackend ad ref clk w (sig_pol (pl_sig p)) (pl_demErr p) (pl_current p) (pl_desired p)
      = (skipped, setErr, w1, pol2)"
    by (metis surj_pair)
  show thesis
    using assms b that [OF b refl]
    by (auto simp: applyPlan_def Let_def split: prod.splits option.splits)
qed

lemma patchBackend_cases:
  assumes "patchBackend ad ref clk w pol demErr current desired = (skipped, setErr, w1, pol2)"
  obtains (idle) "demErr \<noteq> None \<or> desired = current" "skipped = False" "setErr = None" "w1 = w" "pol2 = pol"
  | (dry) "demErr = None" "desired \<noteq> current" "spec_DryRun (pol_Spec pol)" "skipped = True"
      "setErr = None" "w1 = w" "pol2 = pol"
  | (patched) "demErr = None" "desired \<noteq> current" "\<not> spec_DryRun (pol_Spec pol)" "skipped = False"
      "SetFloor ad w ref desired = (setErr, w1)"
      "pol2 = (if setErr = None \<and> desired < current
         then pol\<lparr>pol_Status := (pol_Status pol)\<lparr>st_LastDecreaseTime := Some (clk_now clk)\<rparr>\<rparr> else pol)"
proof (cases "demErr = None \<and> desired \<noteq> current")
  case False
  then have "skipped = False \<and> setErr = None \<and> w1 = w \<and> pol2 = pol"
    using assms by (auto simp: patchBackend_def)
  with False show thesis by (intro idle) simp_all
next
  case t: True
  show thesis
  proof (cases "spec_DryRun (pol_Spec pol)")
    case True
    then have "skipped = True \<and> setErr = None \<and> w1 = w \<and> pol2 = pol"
      using assms t by (auto simp: patchBackend_def)
    with t True show thesis by (intro dry) simp_all
  next
    case False
    obtain e w2 where s: "SetFloor ad w ref desired = (e, w2)" by force
    have "skipped = False \<and> setErr = e \<and> w1 = w2 \<and> pol2 = (if e = None \<and> desired < current
         then pol\<lparr>pol_Status := (pol_Status pol)\<lparr>st_LastDecreaseTime := Some (clk_now clk)\<rparr>\<rparr> else pol)"
      using assms t False s by (auto simp: patchBackend_def)
    with t False s show thesis by (intro patched) simp_all
  qed
qed

text \<open>The ways \<open>Reconcile\<close> can go.\<close>

lemma Reconcile_cases:
  assumes "Reconcile k r clk w rs req = (res, w', rs')"
  obtains (none) "w' = w" "rs' = rs" "\<And>pol. get_policy k w req = Inr pol \<Longrightarrow>
      adapterFor k r (spec_Target (pol_Spec pol)) = None"
  | (no_source) pol e pol' where "get_policy k w req = Inr pol" "demandSource k r w pol = Inl e"
      "reconcileNoSource k clk w rs pol e = (res, w', rs')"
      "w' = snd (update_policy_status k w pol')" "snd res = fst (update_policy_status k w pol')"
      "same_identity pol' pol" "same_decrease pol' pol"
  | (plan) pol ad ref src where "get_policy k w req = Inr pol"
      "adapterFor k r (spec_Target (pol_Spec pol)) = Some (ad, ref)"
      "demandSource k r w pol = Inr src"
      "applyPlan k clk w ad ref (planFloor k r clk w rs pol ad ref src) = (res, w', rs')"
proof (cases "get_policy k w req")
  case (Inl e)
  then show thesis using assms none by (auto simp: Reconcile_def)
next
  case pol: (Inr pol)
  show thesis
  proof (cases "adapterFor k r (spec_Target (pol_Spec pol))")
    case None
    then show thesis using assms pol none by (auto simp: Reconcile_def)
  next
    case (Some ar)
    obtain ad ref where ar: "ar = (ad, ref)" by force
    show thesis
    proof (cases "demandSource k r w pol")
      case (Inl e)
      have ns: "reconcileNoSource k clk w rs pol e = (res, w', rs')"
        using assms pol Some ar Inl by (simp add: Reconcile_def)
      let ?pol' = "let q = setCondition k clk pol ''DemandSourceAvailable'' False
          (errReason (Some e)) (errMsg (Some e)) in
        q\<lparr>pol_Status := (pol_Status q)\<lparr>st_LastReconcileTime := Some (clk_now clk)\<rparr>\<rparr>"
      have "w' = snd (update_policy_status k w ?pol')" "snd res = fst (update_policy_status k w ?pol')"
        using ns by (auto simp: reconcileNoSource_def Let_def split: prod.splits option.splits)
      moreover have "same_identity ?pol' pol" "same_decrease ?pol' pol"
        by (simp_all add: Let_def same_identity_def same_decrease_def)
      ultimately show thesis using no_source pol Inl ns by blast
    next
      case (Inr src)
      then show thesis using assms pol Some ar plan by (simp add: Reconcile_def reconcileFloor_def)
    qed
  qed
qed

lemma same_trans:
  "same_identity p q \<Longrightarrow> same_identity q q' \<Longrightarrow> same_identity p q'"
  "same_decrease p q \<Longrightarrow> same_decrease q q' \<Longrightarrow> same_decrease p q'"
  by (simp_all add: same_identity_def same_decrease_def)

lemma same_identity_key: "same_identity p q \<Longrightarrow> policy_key p = policy_key q"
  by (simp add: same_identity_def policy_key_def)

lemma reportStatus_frame [simp]:
  "same_identity (reportStatus k clk e d a sn sig pol) pol"
  "same_decrease (reportStatus k clk e d a sn sig pol) pol"
  "st_AppliedFloor (pol_Status (reportStatus k clk e d a sn sig pol)) = a"
  "st_DesiredFloor (pol_Status (reportStatus k clk e d a sn sig pol)) = d"
  by (simp_all add: reportStatus_def Let_def same_identity_def same_decrease_def)

section \<open>The legs depend on the spec only\<close>

definition leg_floor :: "leg \<Rightarrow> int32" where
  "leg_floor l = (case l of (c, _, _, None) \<Rightarrow> c | _ \<Rightarrow> 0)"

lemma same_identityD:
  assumes "same_identity p q"
  shows "pol_Spec p = pol_Spec q" "pol_Namespace p = pol_Namespace q" "pol_Name p = pol_Name q"
  using assms by (simp_all add: same_identity_def)

lemma resolveAuthToken_cong:
  assumes "same_identity p q"
  shows "resolveAuthToken k w p = resolveAuthToken k w q"
  unfolding resolveAuthToken_def same_identityD [OF assms] ..

lemma predictorToken_cong:
  assumes "same_identity p q"
  shows "predictorToken k r w p = predictorToken k r w q"
  unfolding predictorToken_def resolveAuthToken_cong [OF assms] ..

lemma computeActivityFromFeed_cong:
  assumes "same_identity p q"
  shows "computeActivityFromFeed sn clk p = computeActivityFromFeed sn clk q"
  unfolding computeActivityFromFeed_def repoName_def same_identityD [OF assms] ..

lemma computeActivityPoll_cong:
  assumes "same_identity p q"
  shows "fst (computeActivityPoll k r clk w p) = fst (computeActivityPoll k r clk w q)"
  unfolding computeActivityPoll_def same_identityD [OF assms] predictorToken_cong [OF assms]
  by (simp add: Let_def split: option.split sum.split prod.split)

lemma computeActivity_cong:
  assumes "same_identity p q"
  shows "fst (computeActivity k r clk w p rs) = fst (computeActivity k r clk w q rs')"
  using computeActivityPoll_cong [OF assms, of k r clk w] computeActivityFromFeed_cong [OF assms, of _ clk]
  by (auto simp: computeActivity_def Let_def same_identityD [OF assms] split: option.split prod.split)

lemma contribLoop_int32: "is_int32 c \<Longrightarrow> is_int32 (fst (contribLoop want c ms m))"
  by (simp add: contribLoop_eq)

lemma computePredicted_int32: "is_int32 (fst (computePredicted k r w pol))"
  by (simp add: computePredicted_def contribLoop_eq Let_def split: option.split sum.split)

lemma computeActivityPoll_int32: "is_int32 (fst (fst (computeActivityPoll k r clk w pol)))"
  by (simp add: computeActivityPoll_def contribLoop_eq Let_def split: option.split sum.split)

lemma computeActivity_int32: "is_int32 (fst (fst (computeActivity k r clk w pol rs)))"
  using computeActivityPoll_int32 [of k r clk w pol]
  by (auto simp: computeActivity_def computeActivityFromFeed_def contribLoop_eq Let_def
      split: option.split prod.splits if_splits)

lemma signalLegs_legs:
  "sig_predicted (signalLegs k r clk w rs pol snap current) = leg_floor (computePredicted k r w pol)"
  "sig_activity (signalLegs k r clk w rs pol snap current) =
     leg_floor (fst (computeActivity k r clk w pol rs'))"
proof -
  obtain c1 s1 per1 e1 pol1 c2 s2 per2 e2 pol2 rs2 pol3
    where P: "computePredicted k r w pol = (c1, s1, per1, e1)" and i: "same_identity pol1 pol"
      and A: "computeActivity k r clk w pol1 rs = ((c2, s2, per2, e2), pol2, rs2)"
      and S: "signalLegs k r clk w rs pol snap current =
        (let p = (if e1 = None then c1 else 0); a = (if e2 = None then c2 else 0) in
         \<lparr>sig_desired = max (max (scheduler_proposal r clk pol snap current) p) a,
          sig_predicted = p, sig_predictedSets = s1, sig_perLabelSet = per1, sig_activity = a,
          sig_activitySets = s2, sig_activityPerLabelSet = per2, sig_pol = pol3, sig_rs = rs2\<rparr>)"
    by (rule signalLegsE [of k r w pol clk rs snap current]) blast
  show "sig_predicted (signalLegs k r clk w rs pol snap current) = leg_floor (computePredicted k r w pol)"
    by (simp add: S P Let_def leg_floor_def split: option.split)
  show "sig_activity (signalLegs k r clk w rs pol snap current) =
     leg_floor (fst (computeActivity k r clk w pol rs'))"
  proof -
    have "fst (computeActivity k r clk w pol rs') = (c2, s2, per2, e2)"
      using computeActivity_cong [OF i, of k r clk w rs rs'] A by simp
    then show ?thesis by (simp add: S Let_def leg_floor_def split: option.split)
  qed
qed

end
