(* ===== verification/Guarantees.thy ===== *)
theory Guarantees
  imports Safety
begin

text \<open>What a reconcile guarantees about the backend and about the status it writes, for the operator
  as \<open>cmd/main.go\<close> assembles it: the heuristic scheduler and the two built-in adapters.\<close>

section \<open>The production adapters\<close>

definition production :: "tzdb \<Rightarrow> 'w reconciler \<Rightarrow> bool" where
  "production tz r \<longleftrightarrow> rec_Scheduler r = Decide tz \<and> rec_AdapterFunc r = None"

lemma productionD:
  assumes "production tz r"
  shows "rec_Scheduler r = Decide tz" "rec_AdapterFunc r = None"
  using assms by (simp_all add: production_def)

lemma adapterFor_cases:
  assumes "production tz r" "adapterFor k r t = Some (ad, ref)"
  shows "ad = NewArcAdapter k \<or> ad = NewGarmAdapter k"
  using assms by (auto simp: production_def adapterFor_def split: if_splits)

lemma SetFloor_policies:
  assumes "status_laws k" "ad = NewArcAdapter k \<or> ad = NewGarmAdapter k"
    "SetFloor ad w ref f = (err, w')"
  shows "get_policy k w' n = get_policy k w n"
proof -
  have "w' = w \<or> (\<exists>ob. update_object k w ob = (err, w'))"
    using assms(2,3)
    by (auto simp: NewArcAdapter_def NewGarmAdapter_def arc_SetFloor_def garm_SetFloor_def
      split: sum.splits prod.splits option.splits)
  then show ?thesis using status_lawsD(6) [OF assms(1)] by fastforce
qed

lemma floor_after_SetFloor:
  assumes "kube_laws k" "ad = NewArcAdapter k \<or> ad = NewGarmAdapter k" "is_int32 f"
    "SetFloor ad w ref f = (err, w')"
  shows "GetFloor ad w' ref = (if err = None then (f, None) else GetFloor ad w ref)"
  using assms arc.floor_after_write [of k f w ref err w'] garm.floor_after_write [of k f w ref err w']
  by blast

lemma production_int32:
  assumes "ad = NewArcAdapter k \<or> ad = NewGarmAdapter k"
  shows "is_int32 (fst (GetFloor ad w ref))" "is_int32 (fst (GetMax ad w ref))"
proof -
  show "is_int32 (fst (GetFloor ad w ref))" using assms by (elim disjE) (simp_all add: arc.floor_int32 garm.floor_int32)
  show "is_int32 (fst (GetMax ad w ref))" using assms by (elim disjE) (simp_all add: arc.max_int32 garm.max_int32)
qed

text \<open>Reading the backend does not depend on policies.\<close>

lemma floor_after_status:
  assumes "status_laws k" "ad = NewArcAdapter k \<or> ad = NewGarmAdapter k"
    "update_policy_status k w pol = (err, w')"
  shows "GetFloor ad w' ref = GetFloor ad w ref" "GetMax ad w' ref = GetMax ad w ref"
proof -
  have "get_object k w' g n = get_object k w g n" for g n
    using assms(3) by (rule status_lawsD(4) [OF assms(1)])
  then show "GetFloor ad w' ref = GetFloor ad w ref" "GetMax ad w' ref = GetMax ad w ref"
    using assms(2)
    by (auto simp: NewArcAdapter_def NewGarmAdapter_def arc_GetFloor_def garm_GetFloor_def
        arc_GetMax_def garm_GetMax_def)
qed

section \<open>The floor of a plan\<close>

lemma planFloor_legs:
  fixes k r clk w rs pol ad ref src
  defines "p \<equiv> planFloor k r clk w rs pol ad ref src"
  shows "sig_predicted (pl_sig p) = leg_floor (computePredicted k r w pol)"
    and "sig_activity (pl_sig p) = leg_floor (fst (computeActivity k r clk w pol rs))"
proof -
  obtain snap demErr where s: "src (gh_Owner (spec_GitHub (pol_Spec pol)))
      (gh_Repository (spec_GitHub (pol_Spec pol))) (gh_Labels (spec_GitHub (pol_Spec pol))) = (snap, demErr)"
    by force
  define pol1 where "pol1 = setCondition k clk pol ''DemandSourceAvailable'' (demErr = None)
    (errReason demErr) (errMsg demErr)"
  define rs1 where "rs1 = (if demErr \<noteq> None then countError (pol_Name pol) ''demand_source'' rs else rs)"
  have sig: "pl_sig p = signalLegs k r clk w rs1 pol1 snap (fst (GetFloor ad w ref))"
    by (simp add: p_def planFloor_def Let_def s pol1_def rs1_def)
  have i: "same_identity pol1 pol" by (simp add: pol1_def same_identity_def)
  have "computePredicted k r w pol1 = computePredicted k r w pol"
    unfolding computePredicted_def predictorToken_cong [OF i] same_identityD [OF i] ..
  then show "sig_predicted (pl_sig p) = leg_floor (computePredicted k r w pol)"
    unfolding sig by (simp add: signalLegs_legs(1))
  show "sig_activity (pl_sig p) = leg_floor (fst (computeActivity k r clk w pol rs))"
    unfolding sig signalLegs_legs(2) [where rs' = rs] computeActivity_cong [OF i, of k r clk w rs rs] ..
qed

lemma planFloor_desired:
  fixes k r clk w rs pol ad ref src
  assumes "rec_Scheduler r = Decide tz"
  defines "p \<equiv> planFloor k r clk w rs pol ad ref src"
  shows "pl_desired p = clampFloor (spec_Floor (pol_Spec pol)) (GetMax ad w ref)
    (max (max (dec_DesiredFloor (Decide tz (pol_Spec pol) (clk_decide clk) d (fst (GetFloor ad w ref))
                (case st_LastDecreaseTime (pol_Status pol) of None \<Rightarrow> 0 | Some t \<Rightarrow> t)))
          (leg_floor (computePredicted k r w pol)))
       (leg_floor (fst (computeActivity k r clk w pol rs))))"
  unfolding p_def planFloor_simps(3) planFloor_simps(6) planFloor_simps(1) planFloor_legs
    scheduler_proposal_def assms(1)
  by (subst heuristic.demand_ignored [of tz _ _ _ _ _ d]) rule

lemma leg_floor_int32: "is_int32 (fst l) \<Longrightarrow> is_int32 (leg_floor l)"
  by (cases l) (simp add: leg_floor_def split: option.split)

lemma is_int32_max: "is_int32 a \<Longrightarrow> is_int32 b \<Longrightarrow> is_int32 (max a b)"
  by (simp add: max_def)

lemma clampFloor_int32:
  "is_int32 d \<Longrightarrow> is_int32 (floor_Max fr) \<Longrightarrow> is_int32 (fst b) \<Longrightarrow> is_int32 (clampFloor fr b d)"
  by (cases b) (auto simp: clampFloor_def Let_def)

lemma planFloor_int32:
  assumes "production tz r" "adapterFor k r t = Some (ad, ref)" "valid_floor (spec_Floor (pol_Spec pol))"
  shows "is_int32 (pl_desired (planFloor k r clk w rs pol ad ref src))"
proof -
  note ad = adapterFor_cases [OF assms(1,2)]
  note int32 = leg_floor_int32 [OF computePredicted_int32, of k r w pol]
    leg_floor_int32 [OF computeActivity_int32, of k r clk w pol rs]
    heuristic.decide_int32 [OF assms(3) production_int32(1) [OF ad]] production_int32(2) [OF ad]
  have "is_int32 (floor_Max (spec_Floor (pol_Spec pol)))" using assms(3) by (simp add: valid_floor_def)
  then show ?thesis
    by (subst planFloor_desired [OF productionD(1) [OF assms(1)]]) (intro clampFloor_int32 is_int32_max int32)
qed

text \<open>A planned floor is within both caps, and at least the minimum unless the backend's own maximum
  is below it.\<close>

lemma planFloor_range:
  fixes k r clk w rs pol ad ref src
  assumes "rec_Scheduler r = Decide tz" "valid_floor (spec_Floor (pol_Spec pol))"
  defines "f \<equiv> pl_desired (planFloor k r clk w rs pol ad ref src)"
  shows "f \<le> floor_Max (spec_Floor (pol_Spec pol))"
    and "GetMax ad w ref = (cap, True, None) \<Longrightarrow> f \<le> cap"
    and "floor_Min (spec_Floor (pol_Spec pol)) \<le> f \<or> GetMax ad w ref = (f, True, None)"
proof -
  let ?s = "pol_Spec pol" let ?sig = "pl_sig (planFloor k r clk w rs pol ad ref src)"
  have f: "f = clampFloor (spec_Floor ?s) (GetMax ad w ref) (sig_desired ?sig)"
    unfolding f_def by (rule planFloor_simps(3))
  show "f \<le> floor_Max (spec_Floor ?s)" by (simp add: f clampFloor_le)
  show "GetMax ad w ref = (cap, True, None) \<Longrightarrow> f \<le> cap" by (simp add: f clampFloor_backend)
  have "floor_Min (spec_Floor ?s) \<le> sig_desired ?sig"
    using heuristic.at_least_min [OF assms(2), of tz]
    unfolding planFloor_simps(6) scheduler_proposal_def assms(1) by (simp add: le_max_iff_disj)
  moreover have "floor_Min (spec_Floor ?s) \<le> floor_Max (spec_Floor ?s)"
    using assms(2) by (simp add: valid_floor_def)
  ultimately show "floor_Min (spec_Floor ?s) \<le> f \<or> GetMax ad w ref = (f, True, None)"
    by (auto simp: f clampFloor_eq split: prod.split bool.split option.split)
qed

section \<open>The backend after a reconcile\<close>

text \<open>Whether a plan is written: demand was read, the floor differs and the policy is live.\<close>

definition wants_patch :: "plan \<Rightarrow> WarmRunnerPolicy \<Rightarrow> bool" where
  "wants_patch p pol \<longleftrightarrow>
     pl_demErr p = None \<and> pl_desired p \<noteq> pl_current p \<and> \<not> spec_DryRun (pol_Spec pol)"

lemma applyPlan_backend:
  fixes k clk w ad ref p
  assumes run: "applyPlan k clk w ad ref p = (res, w', rs')"
    and laws: "cluster_laws k" and ad: "ad = NewArcAdapter k \<or> ad = NewGarmAdapter k"
    and i32: "is_int32 (pl_desired p)"
  shows "GetMax ad w' ref = GetMax ad w ref \<or> wants_patch p (sig_pol (pl_sig p))"
    and "GetFloor ad w' ref =
      (if wants_patch p (sig_pol (pl_sig p)) \<and> fst (SetFloor ad w ref (pl_desired p)) = None
       then (pl_desired p, None) else GetFloor ad w ref)"
proof -
  from run obtain skipped setErr w1 pol2 applied
    where b: "patchBackend ad ref clk w (sig_pol (pl_sig p)) (pl_demErr p) (pl_current p) (pl_desired p)
        = (skipped, setErr, w1, pol2)"
      and w': "w' = snd (update_policy_status k w1
        (reportStatus k clk setErr (pl_desired p) applied (pl_snap p) (pl_sig p) pol2))"
    by (rule applyPlanE)
  have st: "status_laws k" and ku: "kube_laws k" using laws by (simp_all add: cluster_laws_def)
  have fw: "GetFloor ad w' ref = GetFloor ad w1 ref" "GetMax ad w' ref = GetMax ad w1 ref"
    using floor_after_status [OF st ad] w' by (metis prod.collapse)+
  show "GetMax ad w' ref = GetMax ad w ref \<or> wants_patch p (sig_pol (pl_sig p))"
    using b fw(2) by (cases rule: patchBackend_cases) (simp_all add: wants_patch_def)
  show "GetFloor ad w' ref =
      (if wants_patch p (sig_pol (pl_sig p)) \<and> fst (SetFloor ad w ref (pl_desired p)) = None
       then (pl_desired p, None) else GetFloor ad w ref)"
    using b
  proof (cases rule: patchBackend_cases)
    case patched
    then show ?thesis
      using floor_after_SetFloor [OF ku ad i32 patched(5)] fw by (simp add: wants_patch_def)
  qed (use fw in \<open>auto simp: wants_patch_def\<close>)
qed

text \<open>A reconcile that reaches the plan, seen through its result.\<close>

lemma Reconcile_plan:
  assumes "get_policy k w req = Inr pol" "adapterFor k r (spec_Target (pol_Spec pol)) = Some (ad, ref)"
    "demandSource k r w pol = Inr src"
  shows "Reconcile k r clk w rs req = applyPlan k clk w ad ref (planFloor k r clk w rs pol ad ref src)"
  using assms by (simp add: Reconcile_def reconcileFloor_def)

lemma planFloor_dry: "spec_DryRun (pol_Spec (sig_pol (pl_sig (planFloor k r clk w rs pol ad ref src))))
    = spec_DryRun (pol_Spec pol)"
  using planFloor_simps(4) [of k r clk w rs pol ad ref src] by (simp add: same_identity_def)

lemma noSource_backend:
  assumes "cluster_laws k" "ad = NewArcAdapter k \<or> ad = NewGarmAdapter k"
    "reconcileNoSource k clk w rs pol e = (res, w', rs')"
  shows "GetFloor ad w' ref = GetFloor ad w ref"
proof -
  have "\<exists>p err. update_policy_status k w p = (err, w')"
    using assms(3) by (auto simp: reconcileNoSource_def Let_def split: prod.splits option.splits)
  then show ?thesis using assms floor_after_status(1) [of k ad] by (auto simp: cluster_laws_def)
qed

text \<open>A plan applied without an error: the policy stored afterwards has the reported status.\<close>

lemma applyPlan_stored:
  assumes run: "applyPlan k clk w ad ref p = ((res, None), w', rs')"
    and laws: "cluster_laws k" and ad: "ad = NewArcAdapter k \<or> ad = NewGarmAdapter k"
    and pol: "get_policy k w req = Inr pol" "same_identity (sig_pol (pl_sig p)) pol"
  obtains skipped setErr w1 pol2 applied
  where "patchBackend ad ref clk w (sig_pol (pl_sig p)) (pl_demErr p) (pl_current p) (pl_desired p)
      = (skipped, setErr, w1, pol2)"
    and "applied = appliedFloor (pl_demErr p) setErr skipped (pl_current p) (pl_desired p)"
    and "GetFloor ad w' ref = GetFloor ad w1 ref"
    and "get_policy k w' req = Inr (pol\<lparr>pol_Status := stored_status (pol_Status
      (reportStatus k clk setErr (pl_desired p) applied (pl_snap p) (pl_sig p) pol2))\<rparr>)"
proof -
  have st: "status_laws k" using laws by (simp add: cluster_laws_def)
  from run obtain skipped setErr w1 pol2 applied
    where b: "patchBackend ad ref clk w (sig_pol (pl_sig p)) (pl_demErr p) (pl_current p) (pl_desired p)
        = (skipped, setErr, w1, pol2)"
      and a: "applied = appliedFloor (pl_demErr p) setErr skipped (pl_current p) (pl_desired p)"
      and w': "w' = snd (update_policy_status k w1
        (reportStatus k clk setErr (pl_desired p) applied (pl_snap p) (pl_sig p) pol2))"
      and ok: "snd (res, None) = fst (update_policy_status k w1
        (reportStatus k clk setErr (pl_desired p) applied (pl_snap p) (pl_sig p) pol2))"
    by (rule applyPlanE)
  define q where "q = reportStatus k clk setErr (pl_desired p) applied (pl_snap p) (pl_sig p) pol2"
  have up: "update_policy_status k w1 q = (None, w')"
    using w' ok by (metis prod.collapse q_def snd_conv)
  have "same_identity pol2 pol"
    using b pol(2) by (cases rule: patchBackend_cases) (auto simp: same_identity_def)
  then have key: "policy_key q = req"
    using same_identity_key [OF same_trans(1) [OF reportStatus_frame(1)]] status_lawsD(1) [OF st pol(1)]
    unfolding q_def by metis
  have "get_policy k w1 req = Inr pol"
    using b SetFloor_policies [OF st ad] pol(1) by (cases rule: patchBackend_cases) auto
  then have "get_policy k w' req = Inr (pol\<lparr>pol_Status := stored_status (pol_Status q)\<rparr>)"
    using status_lawsD(2) [OF st _ up] key by simp
  then show thesis
    using that [OF b a] floor_after_status(1) [OF st ad up, of ref] by (simp add: q_def)
qed

lemma example_setup:
  "production utc (example_reconciler e)"
  "demandSource memory (example_reconciler e) w pol = Inr (example_src e)"
  by (simp_all add: production_def example_reconciler_def demandSource_def example_src_def)

section \<open>Properties\<close>

text \<open>The floor the documentation promises: the largest of the schedule (held up by the cooldown), the
  predicted jobs and the recent activity, cut to the policy's maximum and to the backend's own.\<close>

definition promised_floor ::
  "tzdb \<Rightarrow> ('w, 'o) kube \<Rightarrow> 'w reconciler \<Rightarrow> clock \<Rightarrow> 'w \<Rightarrow> rstate \<Rightarrow> WarmRunnerPolicy \<Rightarrow>
    'w adapter \<Rightarrow> Ref \<Rightarrow> int32" where
  "promised_floor tz k r clk w rs pol ad ref =
     (let spec = pol_Spec pol; current = fst (GetFloor ad w ref);
          lastDecrease = (case st_LastDecreaseTime (pol_Status pol) of None \<Rightarrow> 0 | Some t \<Rightarrow> t);
          sched = scheduled_floor tz spec (clk_decide clk);
          kept = (if time_sub (clk_decide clk) lastDecrease < qr_Cooldown (spec_QueueRule spec)
                  then max sched current else sched);
          want = max kept (max (leg_floor (computePredicted k r w pol))
                              (leg_floor (fst (computeActivity k r clk w pol rs))));
          capped = min want (floor_Max (spec_Floor spec))
      in case GetMax ad w ref of (cap, True, None) \<Rightarrow> min capped cap | _ \<Rightarrow> capped)"

lemma planFloor_promised:
  assumes "rec_Scheduler r = Decide tz"
  shows "pl_desired (planFloor k r clk w rs pol ad ref src) = promised_floor tz k r clk w rs pol ad ref"
proof -
  have "dec_DesiredFloor (Decide tz spec now d cur prev) =
      (if time_sub now prev < qr_Cooldown (spec_QueueRule spec)
       then max (scheduled_floor tz spec now) cur else scheduled_floor tz spec now)" for spec now d cur prev
    by (simp add: Decide_eq max_def)
  then show ?thesis
    unfolding planFloor_desired [OF assms, where d = "\<lparr>dem_Queued = 0, dem_Running = 0\<rparr>"]
      clampFloor_eq promised_floor_def Let_def
    by (simp only: max.assoc)
qed

text \<open>C1. What a reconcile does to the backend, for the production scheduler and adapters. When
  demand could be read, the policy is live, the promised floor differs from the one read and the
  write succeeds, the backend's floor afterwards is the promised one; in every other case it is what
  it was.\<close>

theorem reconcile_writes_promised_floor:
  assumes "cluster_laws k" "production tz r" "get_policy k w req = Inr pol"
    and "adapterFor k r (spec_Target (pol_Spec pol)) = Some (ad, ref)"
    and "valid_floor (spec_Floor (pol_Spec pol))" and "demandSource k r w pol = Inr src"
  shows "let gh = spec_GitHub (pol_Spec pol); f = promised_floor tz k r clk w rs pol ad ref;
             w' = fst (snd (Reconcile k r clk w rs req))
    in GetFloor ad w' ref =
      (if snd (src (gh_Owner gh) (gh_Repository gh) (gh_Labels gh)) = None
          \<and> \<not> spec_DryRun (pol_Spec pol) \<and> f \<noteq> fst (GetFloor ad w ref)
          \<and> fst (SetFloor ad w ref f) = None
       then (f, None) else GetFloor ad w ref)"
proof -
  let ?p = "planFloor k r clk w rs pol ad ref src"
  obtain res w' rs' where run: "applyPlan k clk w ad ref ?p = (res, w', rs')" by (metis surj_pair)
  have "w' = fst (snd (Reconcile k r clk w rs req))"
    using Reconcile_plan [OF assms(3,4,6), of clk rs] run by simp
  then show ?thesis
    using applyPlan_backend(2) [OF run assms(1) adapterFor_cases [OF assms(2,4)]
        planFloor_int32 [OF assms(2,4,5)]]
    unfolding Let_def wants_patch_def planFloor_simps(1,2) planFloor_dry
      planFloor_promised [OF productionD(1) [OF assms(2)]] by (simp add: conj_ac)
qed

theorem reconcile_writes_promised_floor_witness:
  "GetFloor (NewArcAdapter memory)
     (fst (snd (Reconcile memory (example_reconciler None) evening
        (example_cluster example_policy 4) zero_rstate example_req))) example_ref = (3, None)"
proof -
  let ?w = "example_cluster example_policy 4" and ?ad = "NewArcAdapter memory"
  have f: "promised_floor utc memory (example_reconciler None) evening ?w zero_rstate example_policy ?ad example_ref = 3"
    by code_simp
  have g: "fst (GetFloor ?ad ?w example_ref) = 4" "fst (SetFloor ?ad ?w example_ref 3) = None"
    "snd (example_src None a b c) = None" "\<not> spec_DryRun (pol_Spec example_policy)" for a b c
    by (code_simp, code_simp, simp add: example_src_def, code_simp)
  show ?thesis
    using reconcile_writes_promised_floor [OF memory_cluster example_setup(1) example_policy_read [of 4]
        example_adapter example_valid example_setup(2), where clk = evening and rs = zero_rstate]
    by (simp add: f g Let_def)
qed



text \<open>C3. A reconcile leaves the backend alone when no demand source can be built, when demand cannot be
  read and when the policy is in dry run: whatever the adapter and the client are, the only thing it
  may do to the cluster is one status update, of the same policy, with the recorded time of the last
  decrease unchanged.\<close>

theorem reconcile_leaves_backend_alone:
  assumes "get_policy k w req = Inr pol"
    and "spec_DryRun (pol_Spec pol) \<or> (\<exists>e. demandSource k r w pol = Inl e)
      \<or> (\<exists>src. demandSource k r w pol = Inr src
           \<and> snd (src (gh_Owner (spec_GitHub (pol_Spec pol))) (gh_Repository (spec_GitHub (pol_Spec pol)))
                   (gh_Labels (spec_GitHub (pol_Spec pol)))) \<noteq> None)"
  shows "let w' = fst (snd (Reconcile k r clk w rs req)) in
    w' = w \<or> (\<exists>p. w' = snd (update_policy_status k w p) \<and> policy_key p = policy_key pol
       \<and> pol_Spec p = pol_Spec pol
       \<and> st_LastDecreaseTime (pol_Status p) = st_LastDecreaseTime (pol_Status pol))"
proof -
  obtain res w' rs' where run: "Reconcile k r clk w rs req = (res, w', rs')" by (metis surj_pair)
  have "w' = w \<or> (\<exists>p. w' = snd (update_policy_status k w p) \<and> same_identity p pol \<and> same_decrease p pol)"
    using run
  proof (cases rule: Reconcile_cases)
    case none
    then show ?thesis by simp
  next
    case (no_source pol e pol')
    then show ?thesis using assms(1) by auto
  next
    case (plan pol0 ad ref src)
    let ?p = "planFloor k r clk w rs pol ad ref src"
    have pol0: "pol0 = pol" using plan(1) assms(1) by simp
    note frame = planFloor_simps(4,5) [of k r clk w rs pol ad ref src]
    from plan(4) obtain skipped setErr w1 pol2 applied
      where b: "patchBackend ad ref clk w (sig_pol (pl_sig ?p)) (pl_demErr ?p) (pl_current ?p) (pl_desired ?p)
          = (skipped, setErr, w1, pol2)"
        and w': "w' = snd (update_policy_status k w1
          (reportStatus k clk setErr (pl_desired ?p) applied (pl_snap ?p) (pl_sig ?p) pol2))"
      unfolding pol0 by (rule applyPlanE)
    have "w1 = w \<and> pol2 = sig_pol (pl_sig ?p)"
      using b
    proof (cases rule: patchBackend_cases)
      case patched
      then show ?thesis
        using assms(2) plan(3) pol0 by (auto simp: planFloor_dry planFloor_simps(2))
    qed simp_all
    then show ?thesis
      using w' same_trans(1) [OF reportStatus_frame(1) frame(1)]
        same_trans(2) [OF reportStatus_frame(2) frame(2)] by blast
  qed
  then show ?thesis
    using run by (auto simp: same_identity_def same_decrease_def policy_key_def)
qed

theorem reconcile_leaves_backend_alone_witness:
  "let w = example_cluster example_policy 4;
       w' = fst (snd (Reconcile memory (example_reconciler (Some (Error False ''rate limited''))) evening
              w zero_rstate example_req))
   in w' \<noteq> w \<and> GetFloor (NewArcAdapter memory) w' example_ref = GetFloor (NewArcAdapter memory) w example_ref"
proof -
  let ?w = "example_cluster example_policy 4" and ?e = "Some (Error False ''rate limited'')"
  let ?w' = "fst (snd (Reconcile memory (example_reconciler ?e) evening ?w zero_rstate example_req))"
  have "?w' \<noteq> ?w"
  proof -
    have "st_LastReconcileTime (pol_Status (the (map_of (cl_policies ?w') example_req))) \<noteq> None"
      "st_LastReconcileTime (pol_Status (the (map_of (cl_policies ?w) example_req))) = None" by code_simp+
    then show ?thesis by metis
  qed
  moreover have "snd (example_src ?e a b c) \<noteq> None" for a b c by (simp add: example_src_def)
  ultimately obtain p where "?w' = snd (update_policy_status memory ?w p)"
    using reconcile_leaves_backend_alone [OF example_policy_read [of 4], of "example_reconciler ?e" evening
        zero_rstate] example_setup(2) [of ?e]
    by (fastforce simp: Let_def)
  then have "GetFloor (NewArcAdapter memory) ?w' example_ref = GetFloor (NewArcAdapter memory) ?w example_ref"
    using floor_after_status(1) [OF memory_status, of "NewArcAdapter memory" ?w p _ ?w' example_ref]
    by (metis prod.collapse)
  with \<open>?w' \<noteq> ?w\<close> show ?thesis by (simp add: Let_def)
qed



text \<open>What the predictor leg contributes: the number of predicted jobs whose label set includes all
  the policy's labels, reduced to 32 bits, and in the status the (at most eight) largest of those
  label sets in descending order: no label set left out has a larger count than one shown.\<close>

lemma predicted_contribution:
  assumes "rec_Predictor r = Some predict" "predictorEnabled r pol" "predictorToken k r w pol = Inr token"
    and "predict (gh_Owner (spec_GitHub (pol_Spec pol))) (gh_Repository (spec_GitHub (pol_Spec pol))) token
      = Inr per"
  shows "let want = gh_Labels (spec_GitHub (pol_Spec pol));
             serving = map entry (filter (serves want) per)
    in \<exists>shown. computePredicted k r w pol = (to_int32 (demand_for want per), shown, per, None)
      \<and> length shown = min 8 (length serving)
      \<and> sorted_wrt (\<lambda>a b. pls_Count b \<le> pls_Count a) shown
      \<and> (\<exists>left. mset serving = mset shown + mset left
           \<and> (\<forall>a \<in> set shown. \<forall>b \<in> set left. pls_Count b \<le> pls_Count a))"
proof -
  let ?want = "gh_Labels (spec_GitHub (pol_Spec pol))"
  let ?ms = "map entry (filter (serves ?want) per)"
  let ?shown = "topLabelSets 8 ?ms" and ?left = "drop 8 (sort_slice labelSetLess ?ms)"
  have "computePredicted k r w pol = (to_int32 (demand_for ?want per), ?shown, per, None)"
    using assms
    by (auto simp: computePredicted_def predictorEnabled_def contribLoop_eq predictorTopN_def Let_def
        split: option.splits)
  moreover have "sorted_wrt (\<lambda>a b. pls_Count b \<le> pls_Count a) ?shown"
    using topLabelSets_sorted [of 8 ?ms] unfolding sorted_map
    by (rule sorted_wrt_mono_rel [rotated]) (auto simp: rank_def less_eq_prod_def)
  moreover have "mset ?ms = mset ?shown + mset ?left"
    by (metis append_take_drop_id mset_append mset_sort_slice topLabelSets_eq)
  moreover have "\<forall>a \<in> set ?shown. \<forall>b \<in> set ?left. pls_Count b \<le> pls_Count a"
    using topLabelSets_dominates [of _ 8 ?ms] by (fastforce simp: rank_def less_eq_prod_def)
  ultimately show ?thesis
    unfolding Let_def by (intro exI [of _ ?shown] conjI exI [of _ ?left]) (simp_all add: topLabelSets_length)
qed

theorem predicted_contribution_witness:
  "fst (computePredicted memory (example_reconciler None) (example_cluster example_policy 4) example_policy) = 3"
proof -
  let ?r = "example_reconciler None"
  have "predictorEnabled ?r example_policy" by code_simp
  moreover have "predictorToken memory ?r (example_cluster example_policy 4) example_policy = Inr []"
    by code_simp
  moreover have "rec_Predictor ?r = Some (\<lambda>_ _ _. Inr example_prediction)"
    by (simp add: example_reconciler_def)
  moreover have "to_int32 (demand_for (gh_Labels (spec_GitHub (pol_Spec example_policy))) example_prediction) = 3"
    by code_simp
  ultimately show ?thesis
    using predicted_contribution [of ?r _ example_policy memory "example_cluster example_policy 4" "[]"
        example_prediction] by (auto simp: Let_def)
qed

end
