(* ===== verification/Cooldown.thy ===== *)
theory Cooldown
  imports Guarantees
begin

text \<open>
  The cooldown over time. A run interleaves reconciles of one policy with changes by the rest of the
  cluster; it logs the reconciles that lowered the backend's floor. The theorem is that two logged
  reconciles are a cooldown apart, up to the second to which Kubernetes stores an instant.

  The hypotheses of a logged step are the ones the code relies on without checking: the floor could
  be read, and it was within the two caps. The examples at the end show what happens without them.
\<close>

section \<open>Runs\<close>

text \<open>What the rest of the cluster may do between two reconciles: anything but delete the policy, write
  its record of the last decrease, or change its cooldown.\<close>

definition environment_step :: "('w, 'o) kube \<Rightarrow> NamespacedName \<Rightarrow> 'w \<Rightarrow> 'w \<Rightarrow> bool" where
  "environment_step k req w w' \<longleftrightarrow>
     (case (get_policy k w req, get_policy k w' req) of
        (Inr p, Inr q) \<Rightarrow>
          st_LastDecreaseTime (pol_Status q) = st_LastDecreaseTime (pol_Status p)
          \<and> qr_Cooldown (spec_QueueRule (pol_Spec q)) = qr_Cooldown (spec_QueueRule (pol_Spec p))
      | _ \<Rightarrow> False)"

definition regular_backend :: "('w, 'o) kube \<Rightarrow> 'w reconciler \<Rightarrow> 'w \<Rightarrow> WarmRunnerPolicy \<Rightarrow> bool" where
  "regular_backend k r w pol \<longleftrightarrow>
     (case adapterFor k r (spec_Target (pol_Spec pol)) of
        None \<Rightarrow> True
      | Some (ad, ref) \<Rightarrow>
          snd (GetFloor ad w ref) = None
          \<and> within_caps (spec_Floor (pol_Spec pol)) (GetMax ad w ref) (fst (GetFloor ad w ref)))"

definition lowered :: "('w, 'o) kube \<Rightarrow> 'w reconciler \<Rightarrow> WarmRunnerPolicy \<Rightarrow> 'w \<Rightarrow> 'w \<Rightarrow> bool" where
  "lowered k r pol w w' \<longleftrightarrow>
     (case adapterFor k r (spec_Target (pol_Spec pol)) of
        None \<Rightarrow> False
      | Some (ad, ref) \<Rightarrow> fst (GetFloor ad w' ref) < fst (GetFloor ad w ref))"

inductive run ::
  "('w, 'o) kube \<Rightarrow> 'w reconciler \<Rightarrow> NamespacedName \<Rightarrow> 'w \<Rightarrow> rstate \<Rightarrow> 'w \<Rightarrow> rstate \<Rightarrow> time list \<Rightarrow> bool"
  for k r req w0 rs0 where
  init: "run k r req w0 rs0 w0 rs0 []"
| environment: "run k r req w0 rs0 w rs ts \<Longrightarrow> environment_step k req w w' \<Longrightarrow> run k r req w0 rs0 w' rs ts"
| reconcile: "run k r req w0 rs0 w rs ts \<Longrightarrow> get_policy k w req = Inr pol \<Longrightarrow>
    valid_floor (spec_Floor (pol_Spec pol)) \<Longrightarrow> regular_backend k r w pol \<Longrightarrow>
    clk_decide clk \<le> clk_now clk \<Longrightarrow>
    Reconcile k r clk w rs req = ((res, None), w', rs') \<Longrightarrow>
    run k r req w0 rs0 w' rs' (if lowered k r pol w w' then ts @ [clk_now clk] else ts)"

section \<open>One reconcile\<close>

lemma stored_time_idem [simp]: "stored_time (stored_time t) = stored_time t"
  by (simp add: stored_time_def)

lemma stored_time_bounds: "stored_time t \<le> t" "t < stored_time t + second"
  using pos_mod_bound [of second t] pos_mod_sign [of second t] by (simp_all add: stored_time_def second_def)

text \<open>A plan that lowers a floor within the caps was asked to by the scheduler, after the cooldown.\<close>

lemma plan_decrease:
  assumes "rec_Scheduler r = Decide tz"
    "within_caps (spec_Floor (pol_Spec pol)) (GetMax ad w ref) (fst (GetFloor ad w ref))"
    "pl_desired (planFloor k r clk w rs pol ad ref src) < fst (GetFloor ad w ref)"
  shows "qr_Cooldown (spec_QueueRule (pol_Spec pol)) \<le> time_sub (clk_decide clk)
    (case st_LastDecreaseTime (pol_Status pol) of None \<Rightarrow> 0 | Some t \<Rightarrow> t)"
proof -
  let ?p = "planFloor k r clk w rs pol ad ref src"
  have "sig_desired (pl_sig ?p) < fst (GetFloor ad w ref)"
    using clampFloor_ge [OF assms(2)] assms(3) planFloor_simps(3) [of k r clk w rs pol ad ref src]
    by (metis not_less)
  then have "scheduler_proposal r clk pol (pl_snap ?p) (fst (GetFloor ad w ref)) < fst (GetFloor ad w ref)"
    using planFloor_simps(6) [of k r clk w rs pol ad ref src] planFloor_simps(1) [of k r clk w rs pol ad ref src]
    by simp
  then show ?thesis
    unfolding scheduler_proposal_def assms(1) by (rule heuristic.decrease_after_cooldown)
qed

text \<open>What a reconcile without error does to the record of the last decrease.\<close>

definition decrease_record ::
  "('w, 'o) kube \<Rightarrow> 'w reconciler \<Rightarrow> clock \<Rightarrow> WarmRunnerPolicy \<Rightarrow> 'w \<Rightarrow> 'w \<Rightarrow> WarmRunnerPolicy \<Rightarrow> bool" where
  "decrease_record k r clk pol w w' pol' \<longleftrightarrow>
     pol_Spec pol' = pol_Spec pol
     \<and> (if lowered k r pol w w'
        then qr_Cooldown (spec_QueueRule (pol_Spec pol)) \<le> time_sub (clk_decide clk)
               (case st_LastDecreaseTime (pol_Status pol) of None \<Rightarrow> 0 | Some t \<Rightarrow> t)
             \<and> st_LastDecreaseTime (pol_Status pol') = Some (stored_time (clk_now clk))
        else map_option stored_time (st_LastDecreaseTime (pol_Status pol'))
               = map_option stored_time (st_LastDecreaseTime (pol_Status pol)))"

lemma noSource_record:
  assumes "cluster_laws k" "production tz r" "get_policy k w req = Inr pol"
    "adapterFor k r (spec_Target (pol_Spec pol)) = Some (ad, ref)"
    "reconcileNoSource k clk w rs pol e = ((res, None), w', rs')"
  shows "\<exists>pol'. get_policy k w' req = Inr pol' \<and> decrease_record k r clk pol w w' pol'"
proof -
  have st: "status_laws k" using assms(1) by (simp add: cluster_laws_def)
  obtain q where up: "update_policy_status k w q = (None, w')" and i: "same_identity q pol" "same_decrease q pol"
    using assms(5)
    by (fastforce simp: reconcileNoSource_def Let_def same_identity_def same_decrease_def
        split: prod.splits option.splits)
  have "policy_key q = req" using same_identity_key [OF i(1)] status_lawsD(1) [OF st assms(3)] by simp
  then have "get_policy k w' req = Inr (pol\<lparr>pol_Status := stored_status (pol_Status q)\<rparr>)"
    using status_lawsD(2) [OF st _ up] assms(3) by simp
  moreover have "\<not> lowered k r pol w w'"
    using noSource_backend [OF assms(1) adapterFor_cases [OF assms(2,4)] assms(5)]
    by (simp add: lowered_def assms(4))
  ultimately show ?thesis
    using i(2) by (auto simp: decrease_record_def stored_status_def same_decrease_def option.map_comp comp_def)
qed

lemma plan_record:
  assumes "cluster_laws k" "production tz r" "get_policy k w req = Inr pol"
    "adapterFor k r (spec_Target (pol_Spec pol)) = Some (ad, ref)"
    "valid_floor (spec_Floor (pol_Spec pol))" "regular_backend k r w pol"
    "applyPlan k clk w ad ref (planFloor k r clk w rs pol ad ref src) = ((res, None), w', rs')"
  shows "\<exists>pol'. get_policy k w' req = Inr pol' \<and> decrease_record k r clk pol w w' pol'"
proof -
  let ?p = "planFloor k r clk w rs pol ad ref src"
  note ad = adapterFor_cases [OF assms(2,4)]
  have ku: "kube_laws k" using assms(1) by (simp add: cluster_laws_def)
  have reg: "within_caps (spec_Floor (pol_Spec pol)) (GetMax ad w ref) (fst (GetFloor ad w ref))"
    using assms(6) by (simp add: regular_backend_def assms(4))
  obtain skipped setErr w1 pol2 applied
    where b: "patchBackend ad ref clk w (sig_pol (pl_sig ?p)) (pl_demErr ?p) (pl_current ?p) (pl_desired ?p)
        = (skipped, setErr, w1, pol2)"
      and fl: "GetFloor ad w' ref = GetFloor ad w1 ref"
      and rd: "get_policy k w' req = Inr (pol\<lparr>pol_Status := stored_status (pol_Status
        (reportStatus k clk setErr (pl_desired ?p) applied (pl_snap ?p) (pl_sig ?p) pol2))\<rparr>)"
    using applyPlan_stored [OF assms(7,1) ad assms(3) planFloor_simps(4)] by metis
  have low: "lowered k r pol w w' \<longleftrightarrow> fst (GetFloor ad w1 ref) < fst (GetFloor ad w ref)"
    by (simp add: lowered_def assms(4) fl)
  have frame: "st_LastDecreaseTime (pol_Status (sig_pol (pl_sig ?p))) = st_LastDecreaseTime (pol_Status pol)"
    using planFloor_simps(5) [of k r clk w rs pol ad ref src] by (simp add: same_decrease_def)
  have rep: "st_LastDecreaseTime (pol_Status (reportStatus k clk e d a sn sig q))
      = st_LastDecreaseTime (pol_Status q)" for e d a sn sig q
    using reportStatus_frame(2) by (simp add: same_decrease_def)
  have "decrease_record k r clk pol w w' (pol\<lparr>pol_Status := stored_status (pol_Status
        (reportStatus k clk setErr (pl_desired ?p) applied (pl_snap ?p) (pl_sig ?p) pol2))\<rparr>)"
    using b
  proof (cases rule: patchBackend_cases)
    case patched
    then show ?thesis
      using floor_after_SetFloor [OF ku ad planFloor_int32 [OF assms(2,4,5)] patched(5)]
        plan_decrease [OF productionD(1) [OF assms(2)] reg, of k clk rs src]
      by (cases setErr) (auto simp: decrease_record_def low stored_status_def rep frame planFloor_simps(1)
          option.map_comp comp_def)
  qed (simp_all add: decrease_record_def low stored_status_def rep frame option.map_comp comp_def)
  with rd show ?thesis by blast
qed

lemma Reconcile_record:
  assumes "cluster_laws k" "production tz r" "get_policy k w req = Inr pol"
    "valid_floor (spec_Floor (pol_Spec pol))" "regular_backend k r w pol"
    "Reconcile k r clk w rs req = ((res, None), w', rs')"
  shows "\<exists>pol'. get_policy k w' req = Inr pol' \<and> decrease_record k r clk pol w w' pol'"
  using assms(6)
proof (cases rule: Reconcile_cases)
  case none
  then show ?thesis using assms(3) by (simp add: decrease_record_def lowered_def)
next
  case (no_source pol0 e pol')
  show ?thesis
  proof (cases "adapterFor k r (spec_Target (pol_Spec pol))")
    case None
    then show ?thesis using assms(3,6) by (auto simp: Reconcile_def decrease_record_def lowered_def)
  next
    case (Some ar)
    then show ?thesis
      using noSource_record [OF assms(1-3), of "fst ar" "snd ar" clk rs e res w' rs'] no_source assms(3) by simp
  qed
next
  case (plan pol0 ad ref src)
  then show ?thesis using plan_record [OF assms(1-3) _ assms(4,5)] assms(3) by auto
qed

section \<open>The invariant of a run\<close>

definition spaced :: "duration \<Rightarrow> time list \<Rightarrow> bool" where
  "spaced d ts \<longleftrightarrow> successively (\<lambda>s t. s + d - second < t) ts"

lemma spaced_snoc: "spaced d (ts @ [t]) \<longleftrightarrow> spaced d ts \<and> (ts \<noteq> [] \<longrightarrow> last ts + d - second < t)"
  by (auto simp: spaced_def successively_append_iff)

lemma spaced_step:
  assumes "min_duration < d" "d \<le> time_sub (clk_decide clk) t" "stored_time t = stored_time s"
    "clk_decide clk \<le> clk_now clk"
  shows "s + d - second < clk_now clk"
  using time_sub_geD [OF assms(1,2)] assms(3,4) stored_time_bounds(1) [of t] stored_time_bounds(2) [of s]
  by linarith

lemma run_invariant:
  assumes "run k r req w0 rs0 w rs ts" "cluster_laws k" "production tz r"
    and "get_policy k w0 req = Inr pol0" "d = qr_Cooldown (spec_QueueRule (pol_Spec pol0))" "min_duration < d"
  shows "\<exists>pol. get_policy k w req = Inr pol \<and> qr_Cooldown (spec_QueueRule (pol_Spec pol)) = d
    \<and> (ts \<noteq> [] \<longrightarrow> map_option stored_time (st_LastDecreaseTime (pol_Status pol)) = Some (stored_time (last ts)))
    \<and> spaced d ts"
  using assms(1)
proof (induction rule: run.induct)
  case init
  then show ?case using assms(4,5) by (simp add: spaced_def)
next
  case (environment w rs ts w')
  then show ?case by (auto simp: environment_step_def split: sum.splits)
next
  case (reconcile w rs ts pol clk res w' rs')
  note now = \<open>clk_decide clk \<le> clk_now clk\<close>
  obtain pol' where p': "get_policy k w' req = Inr pol'" "decrease_record k r clk pol w w' pol'"
    using Reconcile_record [OF assms(2,3) reconcile.hyps(2-4) reconcile.hyps(6)] by blast
  have cd: "qr_Cooldown (spec_QueueRule (pol_Spec pol)) = d" and sp: "spaced d ts"
    and last: "ts \<noteq> [] \<Longrightarrow> map_option stored_time (st_LastDecreaseTime (pol_Status pol)) = Some (stored_time (last ts))"
    using reconcile.IH reconcile.hyps(2) by auto
  show ?case
  proof (cases "lowered k r pol w w'")
    case True
    then have rec: "d \<le> time_sub (clk_decide clk) (case st_LastDecreaseTime (pol_Status pol) of None \<Rightarrow> 0 | Some t \<Rightarrow> t)"
      "st_LastDecreaseTime (pol_Status pol') = Some (stored_time (clk_now clk))" "pol_Spec pol' = pol_Spec pol"
      using p'(2) cd by (simp_all add: decrease_record_def)
    have "ts \<noteq> [] \<longrightarrow> last ts + d - second < clk_now clk"
      using last spaced_step [OF assms(6) _ _ now] rec(1) by (auto split: option.splits)
    then show ?thesis using True p'(1) rec cd sp by (simp add: spaced_snoc)
  next
    case False
    then have "map_option stored_time (st_LastDecreaseTime (pol_Status pol'))
        = map_option stored_time (st_LastDecreaseTime (pol_Status pol))" "pol_Spec pol' = pol_Spec pol"
      using p'(2) by (simp_all add: decrease_record_def)
    then show ?thesis using False p'(1) cd sp last by auto
  qed
qed

section \<open>Properties\<close>


text \<open>Two decreases three minutes apart, with the floor raised by another actor in between.\<close>

definition example_later :: clock where
  "example_later = example_clock (20 * 60 * minute + 3 * minute)"

definition example_first :: "cluster outcome" where
  "example_first = Reconcile memory (example_reconciler None) evening (example_cluster example_policy 4)
     zero_rstate example_req"

definition example_raised :: cluster where
  "example_raised = (fst (snd example_first))\<lparr>cl_objects := cl_objects (example_cluster example_policy 4)\<rparr>"

definition example_second :: "cluster outcome" where
  "example_second = Reconcile memory (example_reconciler None) example_later example_raised
     (snd (snd example_first)) example_req"


section \<open>Where the cooldown does not hold\<close>

text \<open>The caps are applied after the cooldown. A policy whose last decrease was a second ago and whose
  floor is above its maximum is lowered at once.\<close>

definition example_recent :: WarmRunnerPolicy where
  "example_recent = example_policy\<lparr>pol_Status := example_status\<lparr>st_LastDecreaseTime :=
     Some (20 * 60 * minute - second)\<rparr>\<rparr>"

lemma cap_overrides_cooldown:
  "qr_Cooldown (spec_QueueRule (pol_Spec example_recent)) = 2 * minute
   \<and> GetFloor (NewArcAdapter memory) (example_cluster example_recent 9) example_ref = (9, None)
   \<and> GetFloor (NewArcAdapter memory) (fst (snd (Reconcile memory (example_reconciler None) evening
        (example_cluster example_recent 9) zero_rstate example_req))) example_ref = (5, None)"
  by (intro conjI; code_simp)

text \<open>The error of \<open>GetFloor\<close> is dropped and the floor read as 0. When only that read fails, the floor
  the backend really has can be lowered inside the cooldown, and the decrease is not recorded: the
  reconcile takes it for a raise.\<close>

definition flaky_arc :: "cluster \<Rightarrow> cluster adapter" where
  "flaky_arc bad = (NewArcAdapter memory)\<lparr>GetFloor := (\<lambda>w ref. if cl_objects w = cl_objects bad
     then (0, Some (Error False ''timeout'')) else arc_GetFloor memory w ref)\<rparr>"

lemma read_error_lowers_floor:
  "let w = example_cluster example_recent 5;
       r = (example_reconciler None)\<lparr>rec_AdapterFunc := Some (\<lambda>_. Some (flaky_arc w, example_ref))\<rparr>;
       w' = fst (snd (Reconcile memory r evening w zero_rstate example_req))
   in arc_GetFloor memory w example_ref = (5, None) \<and> arc_GetFloor memory w' example_ref = (3, None)
      \<and> (case get_policy memory w' example_req of Inl _ \<Rightarrow> False | Inr p \<Rightarrow>
           st_LastDecreaseTime (pol_Status p) = Some (20 * 60 * minute - second))"
  by code_simp

end
