(* ===== verification/Gauges.thy ===== *)
theory Gauges
  imports Guarantees
begin

text \<open>
  The metrics the policy controller keeps: the per-label-set gauges and their pruning, and the counter
  of expired activity windows. They are written by \<open>emitPredictedJobsMetrics\<close>,
  \<open>emitActivityJobsMetrics\<close> and \<open>emitActiveWindowMetrics\<close> and live, with the \<open>prev\<close> maps of the
  reconciler, in \<open>rstate\<close>.
\<close>

section \<open>Pruned gauges\<close>

text \<open>The invariant that makes pruning complete: what is exported for a policy is what was remembered
  for it.\<close>

definition gauges_pruned :: "rstate \<Rightarrow> bool" where
  "gauges_pruned rs \<longleftrightarrow>
     (\<forall>p key. (m_predictedJobs (rs_metrics rs) (p, key) \<noteq> None \<longleftrightarrow> key \<in> set (prevPredictedLabels rs p))
           \<and> (m_activityJobs (rs_metrics rs) (p, key) \<noteq> None \<longleftrightarrow> key \<in> set (prevActivityLabels rs p)))"

lemma fold_set_gauge:
  "fold (\<lambda>(key, cnt) g. g((policy, key) \<mapsto> cnt)) m g (p, key) =
     (if p = policy then ((\<lambda>x. g (policy, x)) ++ map_of (rev m)) key else g (p, key))"
proof (induction m arbitrary: g)
  case (Cons kv m)
  then show ?case by (cases kv) (auto simp: map_add_def split: option.split)
qed simp

lemma fold_prune:
  "fold (\<lambda>key g. if key \<in> set now then g else g((policy, key) := None)) prev g (p, key) =
     (if p = policy \<and> key \<in> set prev \<and> key \<notin> set now then None else g (p, key))"
  by (induction prev arbitrary: g) auto

lemma setJobGauges_apply:
  "setJobGauges policy per prev g (p, key) =
     (if p \<noteq> policy then g (p, key)
      else if key \<in> set (keys per) then map_of (rev per) key
      else if key \<in> set prev then None else g (p, key))"
proof -
  have k: "key \<in> set (keys per) \<longleftrightarrow> map_of (rev per) key \<noteq> None"
    by (simp add: keys_def map_of_eq_None_iff)
  have "setJobGauges policy per prev g (p, key) =
      (if p = policy \<and> key \<in> set prev \<and> key \<notin> set (keys per) then None
       else if p = policy then ((\<lambda>x. g (policy, x)) ++ map_of (rev per)) key else g (p, key))"
    by (simp add: setJobGauges_def Let_def fold_prune fold_set_gauge)
  then show ?thesis by (auto simp: k map_add_def split: option.split)
qed

lemma setJobGauges_dom:
  assumes "\<And>key. g (policy, key) \<noteq> None \<longleftrightarrow> key \<in> set prev"
  shows "setJobGauges policy per prev g (policy, key) \<noteq> None \<longleftrightarrow> key \<in> set (keys per)"
proof -
  have "key \<in> set (keys per) \<Longrightarrow> map_of (rev per) key \<noteq> None"
    by (simp add: keys_def map_of_eq_None_iff)
  moreover have "g (policy, key) = None" if "key \<notin> set prev" using assms [of key] that by blast
  ultimately show ?thesis by (auto simp: setJobGauges_apply)
qed

lemma setJobGauges_exact:
  assumes "\<And>key. g (policy, key) \<noteq> None \<longleftrightarrow> key \<in> set prev" "distinct (keys per)"
  shows "setJobGauges policy per prev g (policy, key) = map_of per key"
proof (cases "key \<in> set (keys per)")
  case True
  moreover have "map_of (rev per) = map_of per"
    using assms(2) by (simp add: map_of_inject_set keys_def rev_map [symmetric])
  ultimately show ?thesis by (simp add: setJobGauges_apply)
next
  case False
  then show ?thesis using setJobGauges_dom [of g policy prev per key, OF assms(1)] by (simp add: set_keys domIff)
qed

text \<open>The bookkeeping that does not touch the gauges.\<close>

definition same_gauges :: "rstate \<Rightarrow> rstate \<Rightarrow> bool" where
  "same_gauges rs rs' \<longleftrightarrow>
     m_predictedJobs (rs_metrics rs) = m_predictedJobs (rs_metrics rs')
     \<and> m_activityJobs (rs_metrics rs) = m_activityJobs (rs_metrics rs')
     \<and> prevPredictedLabels rs = prevPredictedLabels rs' \<and> prevActivityLabels rs = prevActivityLabels rs'"

lemma same_gauges_counters [simp]:
  "same_gauges (countError p kind rs) rs" "same_gauges (countDryRunSkip p rs) rs"
  "same_gauges (countFloorChange p dir rs) rs" "same_gauges (emitActiveWindowMetrics clk pol rs) rs"
  "same_gauges rs rs"
  by (simp_all add: same_gauges_def countError_def countDryRunSkip_def countFloorChange_def
      emitActiveWindowMetrics_def Let_def split: option.split)

lemma same_gauges_trans: "same_gauges a b \<Longrightarrow> same_gauges b c \<Longrightarrow> same_gauges a c"
  by (simp add: same_gauges_def)

lemma gauges_pruned_cong: "same_gauges rs rs' \<Longrightarrow> gauges_pruned rs \<longleftrightarrow> gauges_pruned rs'"
  by (simp add: gauges_pruned_def same_gauges_def)

lemma computeActivity_gauges: "same_gauges (snd (snd (computeActivity k r clk w pol rs))) rs"
  by (simp add: computeActivity_def Let_def split_beta)

lemma planFloor_gauges: "same_gauges (sig_rs (pl_sig (planFloor k r clk w rs pol ad ref src))) rs"
proof -
  have leg: "same_gauges (sig_rs (signalLegs k r clk w rs1 pol1 snap current)) rs1" for rs1 pol1 snap current
    by (rule signalLegsE [of k r w pol1 clk rs1 snap current])
      (simp add: Let_def, metis computeActivity_gauges snd_conv)
  show ?thesis
    by (auto simp: planFloor_def Let_def split_beta intro: same_gauges_trans [OF leg])
qed

lemma planFloor_perLabelSet:
  "sig_perLabelSet (pl_sig (planFloor k r clk w rs pol ad ref src)) = fst (snd (snd (computePredicted k r w pol)))"
proof -
  obtain snap demErr where s: "src (gh_Owner (spec_GitHub (pol_Spec pol)))
      (gh_Repository (spec_GitHub (pol_Spec pol))) (gh_Labels (spec_GitHub (pol_Spec pol))) = (snap, demErr)"
    by force
  define pol1 where "pol1 = setCondition k clk pol ''DemandSourceAvailable'' (demErr = None)
    (errReason demErr) (errMsg demErr)"
  have i: "same_identity pol1 pol" by (simp add: pol1_def same_identity_def)
  have "computePredicted k r w pol1 = computePredicted k r w pol"
    unfolding computePredicted_def predictorToken_cong [OF i] same_identityD [OF i] ..
  moreover have "sig_perLabelSet (signalLegs k r clk w rs1 pol1 snap current)
      = fst (snd (snd (computePredicted k r w pol1)))" for rs1 current
    by (rule signalLegsE [of k r w pol1 clk rs1 snap current]) (simp add: Let_def)
  ultimately show ?thesis by (simp add: planFloor_def Let_def s pol1_def [symmetric])
qed

section \<open>Emission\<close>

lemma emitMetrics_gauges:
  fixes name kind demErr setErr current desired applied snap sig rs
  assumes "gauges_pruned rs"
  defines "rs' \<equiv> emitMetrics name kind demErr setErr current desired applied snap sig rs"
  shows "gauges_pruned rs'"
    and "distinct (keys (sig_perLabelSet sig)) \<Longrightarrow>
      m_predictedJobs (rs_metrics rs') (name, key) = map_of (sig_perLabelSet sig) key"
    and "distinct (keys (sig_activityPerLabelSet sig)) \<Longrightarrow>
      m_activityJobs (rs_metrics rs') (name, key) = map_of (sig_activityPerLabelSet sig) key"
    and "p \<noteq> name \<Longrightarrow> m_predictedJobs (rs_metrics rs') (p, key) = m_predictedJobs (rs_metrics rs) (p, key)"
    and "p \<noteq> name \<Longrightarrow> m_activityJobs (rs_metrics rs') (p, key) = m_activityJobs (rs_metrics rs) (p, key)"
proof -
  let ?P = "setJobGauges name (sig_perLabelSet sig) (prevPredictedLabels rs name) (m_predictedJobs (rs_metrics rs))"
  let ?A = "setJobGauges name (sig_activityPerLabelSet sig) (prevActivityLabels rs name) (m_activityJobs (rs_metrics rs))"
  have eq: "m_predictedJobs (rs_metrics rs') = ?P" "m_activityJobs (rs_metrics rs') = ?A"
    "prevPredictedLabels rs' = (prevPredictedLabels rs)(name := keys (sig_perLabelSet sig))"
    "prevActivityLabels rs' = (prevActivityLabels rs)(name := keys (sig_activityPerLabelSet sig))"
    by (simp_all add: rs'_def emitMetrics_def emitPredictedJobsMetrics_def emitActivityJobsMetrics_def
        countFloorChange_def Let_def)
  have P: "m_predictedJobs (rs_metrics rs) (name, key) \<noteq> None \<longleftrightarrow> key \<in> set (prevPredictedLabels rs name)"
    and A: "m_activityJobs (rs_metrics rs) (name, key) \<noteq> None \<longleftrightarrow> key \<in> set (prevActivityLabels rs name)" for key
    using assms(1) by (simp_all add: gauges_pruned_def)
  have "(?P (p, key) \<noteq> None \<longleftrightarrow> key \<in> set (((prevPredictedLabels rs)(name := keys (sig_perLabelSet sig))) p))
      \<and> (?A (p, key) \<noteq> None \<longleftrightarrow> key \<in> set (((prevActivityLabels rs)(name := keys (sig_activityPerLabelSet sig))) p))" for p key
  proof (cases "p = name")
    case True
    then show ?thesis using setJobGauges_dom [OF P] setJobGauges_dom [OF A] by simp
  next
    case False
    then show ?thesis using assms(1) by (simp add: setJobGauges_apply gauges_pruned_def)
  qed
  then show "gauges_pruned rs'" unfolding gauges_pruned_def eq by blast
  show "distinct (keys (sig_perLabelSet sig)) \<Longrightarrow>
      m_predictedJobs (rs_metrics rs') (name, key) = map_of (sig_perLabelSet sig) key"
    unfolding eq by (rule setJobGauges_exact [OF P])
  show "distinct (keys (sig_activityPerLabelSet sig)) \<Longrightarrow>
      m_activityJobs (rs_metrics rs') (name, key) = map_of (sig_activityPerLabelSet sig) key"
    unfolding eq by (rule setJobGauges_exact [OF A])
  show "p \<noteq> name \<Longrightarrow> m_predictedJobs (rs_metrics rs') (p, key) = m_predictedJobs (rs_metrics rs) (p, key)"
    "p \<noteq> name \<Longrightarrow> m_activityJobs (rs_metrics rs') (p, key) = m_activityJobs (rs_metrics rs) (p, key)"
    unfolding eq by (simp_all add: setJobGauges_apply)
qed

section \<open>Properties\<close>

lemma applyPlan_rs:
  assumes "applyPlan k clk w ad ref p = (res, w', rs')"
  obtains rs1 kind setErr applied where "same_gauges rs1 (sig_rs (pl_sig p))"
    "same_gauges rs' (emitMetrics (pol_Name (sig_pol (pl_sig p))) kind (pl_demErr p) setErr (pl_current p)
       (pl_desired p) applied (pl_snap p) (pl_sig p) rs1)"
proof -
  obtain skipped setErr w1 pol2
    where b: "patchBackend ad ref clk w (sig_pol (pl_sig p)) (pl_demErr p) (pl_current p) (pl_desired p)
      = (skipped, setErr, w1, pol2)" by (metis surj_pair)
  have n: "pol_Name pol2 = pol_Name (sig_pol (pl_sig p))"
    using b by (cases rule: patchBackend_cases) auto
  define rs0 where "rs0 = (if skipped then countDryRunSkip (pol_Name pol2) (sig_rs (pl_sig p)) else sig_rs (pl_sig p))"
  define rs1 where "rs1 = (if setErr \<noteq> None then countError (pol_Name pol2) ''adapter'' rs0 else rs0)"
  have "same_gauges rs0 (sig_rs (pl_sig p))" by (simp add: rs0_def)
  moreover have "same_gauges rs1 rs0" by (simp add: rs1_def)
  ultimately have "same_gauges rs1 (sig_rs (pl_sig p))" by (metis same_gauges_trans)
  moreover define applied where "applied = appliedFloor (pl_demErr p) setErr skipped (pl_current p) (pl_desired p)"
  define pol3 where "pol3 = reportStatus k clk setErr (pl_desired p) applied (pl_snap p) (pl_sig p) pol2"
  define E where "E = emitMetrics (pol_Name pol2) (Kind (spec_Target (pol_Spec pol3))) (pl_demErr p) setErr
      (pl_current p) (pl_desired p) applied (pl_snap p) (pl_sig p) rs1"
  obtain statusErr w2 where u: "update_policy_status k w1 pol3 = (statusErr, w2)" by force
  have "rs' = (case statusErr of None \<Rightarrow> E | Some _ \<Rightarrow> countError (pol_Name pol2) ''status_update'' E)"
    using assms unfolding applyPlan_def Let_def b prod.case rs0_def [symmetric] rs1_def [symmetric]
      applied_def [symmetric] pol3_def [symmetric] u E_def [symmetric]
    by (cases statusErr) simp_all
  then have "same_gauges rs' E" by (cases statusErr) simp_all
  ultimately show thesis using that [of rs1] unfolding E_def n by blast
qed

lemma Reconcile_emits:
  assumes "applyPlan k clk w ad ref (planFloor k r clk w rs pol ad ref src) = (res, w', rs')" "gauges_pruned rs"
  obtains rs1 kind demErr setErr current desired applied snap
  where "gauges_pruned rs1" "same_gauges rs1 rs"
    and "same_gauges rs' (emitMetrics (pol_Name pol) kind demErr setErr current desired applied snap
        (pl_sig (planFloor k r clk w rs pol ad ref src)) rs1)"
proof -
  let ?p = "planFloor k r clk w rs pol ad ref src"
  have name: "pol_Name (sig_pol (pl_sig ?p)) = pol_Name pol"
    using planFloor_simps(4) [of k r clk w rs pol ad ref src] by (simp add: same_identity_def)
  from assms(1) obtain rs1 kind setErr applied
    where s1: "same_gauges rs1 (sig_rs (pl_sig ?p))"
      and s2: "same_gauges rs' (emitMetrics (pol_Name pol) kind (pl_demErr ?p) setErr (pl_current ?p)
        (pl_desired ?p) applied (pl_snap ?p) (pl_sig ?p) rs1)"
    unfolding name [symmetric] by (rule applyPlan_rs)
  note base = same_gauges_trans [OF s1 planFloor_gauges]
  then show thesis using that [OF _ base s2] gauges_pruned_cong [OF base] assms(2) by simp
qed

lemma noSource_gauges: "reconcileNoSource k clk w rs pol e = (res, w', rs') \<Longrightarrow> same_gauges rs' rs"
  by (auto simp: reconcileNoSource_def Let_def split: prod.splits option.splits
      intro: same_gauges_trans [OF same_gauges_counters(1)])

lemma Reconcile_pruned:
  assumes "gauges_pruned rs" "Reconcile k r clk w rs req = (res, w', rs')"
  shows "gauges_pruned rs'"
  using assms(2)
proof (cases rule: Reconcile_cases)
  case (plan pol ad ref src)
  from plan(4) assms(1) show ?thesis
    by (rule Reconcile_emits) (use emitMetrics_gauges(1) gauges_pruned_cong in blast)
next
  case (no_source pol e pol')
  show ?thesis using gauges_pruned_cong [OF noSource_gauges [OF no_source(3)]] assms(1) by simp
qed (use assms(1) in simp)

text \<open>C36. The per-label-set gauges. From a state in which every exported sample is remembered, a
  reconcile leads to such a state again, so that pruning never misses a sample; and when the
  reconcile got as far as deciding a floor, the samples exported for its policy are exactly the
  label sets of this prediction with their counts, and those of policies with other names are
  untouched.\<close>

theorem job_gauges_exact:
  assumes "gauges_pruned rs" "Reconcile k r clk w rs req = (res, w', rs')"
  shows "gauges_pruned rs' \<and>
    (\<forall>pol ad ref src. get_policy k w req = Inr pol \<and> adapterFor k r (spec_Target (pol_Spec pol)) = Some (ad, ref)
       \<and> demandSource k r w pol = Inr src \<longrightarrow>
       (\<forall>key. (distinct (keys (fst (snd (snd (computePredicted k r w pol)))))
           \<longrightarrow> m_predictedJobs (rs_metrics rs') (pol_Name pol, key)
               = map_of (fst (snd (snd (computePredicted k r w pol)))) key)
         \<and> (\<forall>p. p \<noteq> pol_Name pol \<longrightarrow>
              m_predictedJobs (rs_metrics rs') (p, key) = m_predictedJobs (rs_metrics rs) (p, key)
              \<and> m_activityJobs (rs_metrics rs') (p, key) = m_activityJobs (rs_metrics rs) (p, key))))"
proof (rule conjI [OF Reconcile_pruned [OF assms]], intro allI impI, elim conjE)
  fix pol ad ref src key
  assume pol: "get_policy k w req = Inr pol" and ad: "adapterFor k r (spec_Target (pol_Spec pol)) = Some (ad, ref)"
    and src: "demandSource k r w pol = Inr src"
  have "applyPlan k clk w ad ref (planFloor k r clk w rs pol ad ref src) = (res, w', rs')"
    using assms(2) pol ad src by (simp add: Reconcile_def reconcileFloor_def)
  from this assms(1) obtain rs1 kind demErr setErr current desired applied snap where e: "gauges_pruned rs1" "same_gauges rs1 rs"
      "same_gauges rs' (emitMetrics (pol_Name pol) kind demErr setErr current desired applied snap
        (pl_sig (planFloor k r clk w rs pol ad ref src)) rs1)" by (rule Reconcile_emits)
  note g = emitMetrics_gauges [OF e(1)]
  show "(distinct (keys (fst (snd (snd (computePredicted k r w pol)))))
           \<longrightarrow> m_predictedJobs (rs_metrics rs') (pol_Name pol, key)
               = map_of (fst (snd (snd (computePredicted k r w pol)))) key)
         \<and> (\<forall>p. p \<noteq> pol_Name pol \<longrightarrow>
              m_predictedJobs (rs_metrics rs') (p, key) = m_predictedJobs (rs_metrics rs) (p, key)
              \<and> m_activityJobs (rs_metrics rs') (p, key) = m_activityJobs (rs_metrics rs) (p, key))"
    unfolding planFloor_perLabelSet [symmetric, of k r w pol clk rs ad ref src]
    using g(2,4,5) e(2,3) by (simp add: same_gauges_def)
qed

theorem job_gauges_exact_witness:
  "gauges_pruned zero_rstate \<and> (\<exists>rs'. rs' = snd (snd (Reconcile memory (example_reconciler None) evening
       (example_cluster example_policy 4) zero_rstate example_req))
     \<and> gauges_pruned rs' \<and> m_predictedJobs (rs_metrics rs') (''p'', ''cpu'') = Some 7)"
proof -
  let ?w = "example_cluster example_policy 4" and ?r = "example_reconciler None"
  obtain res w' rs' where run: "Reconcile memory ?r evening ?w zero_rstate example_req = (res, w', rs')"
    by (metis surj_pair)
  have z: "gauges_pruned zero_rstate" by (simp add: gauges_pruned_def zero_rstate_def zero_metrics_def)
  have per: "fst (snd (snd (computePredicted memory ?r ?w example_policy))) = example_prediction" by code_simp
  have "distinct (keys example_prediction)" "map_of example_prediction ''cpu'' = Some 7"
    "pol_Name example_policy = ''p''" by code_simp+
  then have "gauges_pruned rs' \<and> m_predictedJobs (rs_metrics rs') (''p'', ''cpu'') = Some 7"
    using job_gauges_exact [OF z run] example_policy_read [of 4] example_adapter [of None]
      example_setup(2) [of None ?w example_policy] per by metis
  then show ?thesis using z run by simp
qed

section \<open>Expired activity windows\<close>

definition window_active :: "clock \<times> WarmRunnerPolicy \<Rightarrow> bool" where
  "window_active ob = (case st_ActiveUntil (pol_Status (snd ob)) of None \<Rightarrow> False | Some t \<Rightarrow> clk_emit (fst ob) < t)"

fun expiries :: "bool \<Rightarrow> bool list \<Rightarrow> nat" where
  "expiries was [] = 0"
| "expiries was (b # bs) = (if was \<and> \<not> b then 1 else 0) + expiries b bs"

lemma emitActiveWindow_step:
  "prevActiveUntil (emitActiveWindowMetrics clk pol rs) (pol_Name pol) \<noteq> None \<longleftrightarrow> window_active (clk, pol)"
  "m_activeWindowExpiries (rs_metrics (emitActiveWindowMetrics clk pol rs)) (repoName pol) =
     m_activeWindowExpiries (rs_metrics rs) (repoName pol)
     + (if prevActiveUntil rs (pol_Name pol) \<noteq> None \<and> \<not> window_active (clk, pol) then 1 else 0)"
  by (auto simp: emitActiveWindowMetrics_def window_active_def Let_def split: option.split)

text \<open>However often a policy is reconciled, the counter of expired windows of its repository has
  advanced by exactly the number of times its window was seen open and then seen closed.\<close>

lemma window_expiry_counted_once:
  assumes "list_all (\<lambda>(clk, pol). pol_Name pol = n \<and> repoName pol = repo) obs"
  shows "m_activeWindowExpiries (rs_metrics (fold (\<lambda>(clk, pol) rs. emitActiveWindowMetrics clk pol rs) obs rs)) repo
    = m_activeWindowExpiries (rs_metrics rs) repo
      + expiries (prevActiveUntil rs n \<noteq> None) (map window_active obs)"
  using assms
proof (induction obs arbitrary: rs)
  case (Cons ob obs)
  obtain clk pol where ob: "ob = (clk, pol)" by force
  then have np: "pol_Name pol = n" "repoName pol = repo" using Cons.prems by auto
  show ?case
    using Cons.IH [of "emitActiveWindowMetrics clk pol rs"] Cons.prems
      emitActiveWindow_step [where clk = clk and pol = pol and rs = rs]
    by (simp add: ob np)
qed simp

lemma window_expiry_counted_once_witness:
  "let open_pol = example_policy\<lparr>pol_Status := example_status\<lparr>st_ActiveUntil := Some 100\<rparr>\<rparr>;
       obs = [(example_clock 50, open_pol), (example_clock 150, open_pol), (example_clock 160, open_pol),
              (example_clock 70, open_pol), (example_clock 200, example_policy)]
   in m_activeWindowExpiries (rs_metrics (fold (\<lambda>(clk, pol) rs. emitActiveWindowMetrics clk pol rs) obs zero_rstate))
        ''o/r'' = 2"
proof -
  let ?p = "example_policy\<lparr>pol_Status := example_status\<lparr>st_ActiveUntil := Some 100\<rparr>\<rparr>"
  let ?obs = "[(example_clock 50, ?p), (example_clock 150, ?p), (example_clock 160, ?p),
    (example_clock 70, ?p), (example_clock 200, example_policy)]"
  have "list_all (\<lambda>(clk, pol). pol_Name pol = ''p'' \<and> repoName pol = ''o/r'') ?obs" by code_simp
  note counted = window_expiry_counted_once [OF this, of zero_rstate]
  have "expiries (prevActiveUntil zero_rstate ''p'' \<noteq> None) (map window_active ?obs) = 2"
    "m_activeWindowExpiries (rs_metrics zero_rstate) ''o/r'' = 0" by code_simp+
  with counted show ?thesis by (simp add: Let_def)
qed

section \<open>Where the bookkeeping is off\<close>

text \<open>The \<open>prev\<close> maps and the gauges are keyed by the policy's name without its namespace. A second
  policy of the same name deletes the samples of the first.\<close>

lemma same_name_policies_share_gauges:
  "let rs1 = emitPredictedJobsMetrics ''p'' [(''gpu'', 2)] zero_rstate;
       rs2 = emitPredictedJobsMetrics ''p'' [(''cpu'', 1)] rs1
   in m_predictedJobs (rs_metrics rs1) (''p'', ''gpu'') = Some 2
      \<and> m_predictedJobs (rs_metrics rs2) (''p'', ''gpu'') = None"
  by code_simp

text \<open>In dry run nothing is patched, yet the counter of floor changes advances.\<close>

lemma dry_run_counts_floor_change:
  "let pol = example_policy\<lparr>pol_Spec := example_spec\<lparr>spec_DryRun := True\<rparr>\<rparr>;
       (res, w', rs') = Reconcile memory (example_reconciler None) evening (example_cluster pol 4) zero_rstate example_req
   in arc_GetFloor memory w' example_ref = (4, None)
      \<and> m_floorChanges (rs_metrics rs') (''p'', ''down'') = 1"
  by code_simp

end
