(* ===== verification/Replay.thy ===== *)
theory Replay
  imports Prelude
begin

text \<open>
  The replay guard (\<open>internal/webhook/replay.go\<close>): the delivery IDs seen lately.

  \<open>container/list\<close> elements are pointers that the list \<open>lru\<close> and the map \<open>lookup\<close> share, so they are
  modelled with an explicit store: an element is an address, \<open>elem_value\<close> gives what it points to,
  \<open>guard_lru\<close> is the list from front to back and \<open>next_elem\<close> the first unused address. The mutex makes
  \<open>Seen\<close> one step.

  The locale \<open>replay_filter\<close> is what the receiver relies on; the model's \<open>Seen\<close> is shown to refine a
  list of dated IDs, and the locale is interpreted on it.
\<close>

section \<open>The code\<close>

record replayEntry =
  ent_key :: string
  ent_insertedAt :: time

record ReplayGuard =
  guard_size :: int
  guard_ttl :: duration
  guard_lru :: "nat list"
  guard_lookup :: "string \<rightharpoonup> nat"
  elem_value :: "nat \<Rightarrow> replayEntry"
  next_elem :: nat

definition NewReplayGuard :: "int \<Rightarrow> duration \<Rightarrow> ReplayGuard" where
  "NewReplayGuard cap ttl =
     \<lparr>guard_size = cap, guard_ttl = ttl, guard_lru = [], guard_lookup = Map.empty,
      elem_value = (\<lambda>_. \<lparr>ent_key = [], ent_insertedAt = 0\<rparr>), next_elem = 0\<rparr>"

text \<open>\<open>lru.Remove(elem)\<close> and \<open>delete(lookup, key)\<close>.\<close>

definition drop_elem :: "nat \<Rightarrow> string \<Rightarrow> ReplayGuard \<Rightarrow> ReplayGuard" where
  "drop_elem e key g =
     g\<lparr>guard_lru := remove1 e (guard_lru g), guard_lookup := (guard_lookup g)(key := None)\<rparr>"

definition evict_oldest :: "ReplayGuard \<Rightarrow> ReplayGuard" where
  "evict_oldest g =
     (if int (length (guard_lru g)) \<ge> guard_size g then
        (if guard_lru g = [] then g
         else let oldest = last (guard_lru g) in drop_elem oldest (ent_key (elem_value g oldest)) g)
      else g)"

definition push_front :: "string \<Rightarrow> time \<Rightarrow> ReplayGuard \<Rightarrow> ReplayGuard" where
  "push_front key now g =
     (let e = next_elem g in
      g\<lparr>elem_value := (elem_value g)(e := \<lparr>ent_key = key, ent_insertedAt = now\<rparr>), next_elem := Suc e,
        guard_lru := e # guard_lru g, guard_lookup := (guard_lookup g)(key \<mapsto> e)\<rparr>)"

definition Seen :: "ReplayGuard \<Rightarrow> time \<Rightarrow> string \<Rightarrow> bool \<times> ReplayGuard" where
  "Seen g now deliveryID =
     (case guard_lookup g deliveryID of
        Some elem \<Rightarrow>
          if time_sub now (ent_insertedAt (elem_value g elem)) \<le> guard_ttl g then (True, g)
          else (False, push_front deliveryID now (evict_oldest (drop_elem elem deliveryID g)))
      | None \<Rightarrow> (False, push_front deliveryID now (evict_oldest g)))"

section \<open>The guard as a list of dated IDs\<close>

type_synonym dated = "(string \<times> time) list"

definition trim :: "int \<Rightarrow> dated \<Rightarrow> dated" where
  "trim cap es = (if int (length es) \<ge> cap then butlast es else es)"

definition seen_spec :: "int \<Rightarrow> duration \<Rightarrow> dated \<Rightarrow> time \<Rightarrow> string \<Rightarrow> bool \<times> dated" where
  "seen_spec cap ttl es now did =
     (case map_of es did of
        Some t \<Rightarrow>
          if time_sub now t \<le> ttl then (True, es)
          else (False, (did, now) # trim cap (filter (\<lambda>e. fst e \<noteq> did) es))
      | None \<Rightarrow> (False, (did, now) # trim cap es))"

definition guard_abs :: "ReplayGuard \<Rightarrow> dated" where
  "guard_abs g = map (\<lambda>e. (ent_key (elem_value g e), ent_insertedAt (elem_value g e))) (guard_lru g)"

definition guard_invar :: "ReplayGuard \<Rightarrow> bool" where
  "guard_invar g \<longleftrightarrow>
     distinct (guard_lru g) \<and> (\<forall>e \<in> set (guard_lru g). e < next_elem g)
     \<and> (\<forall>key e. guard_lookup g key = Some e \<longleftrightarrow> e \<in> set (guard_lru g) \<and> ent_key (elem_value g e) = key)
     \<and> int (length (guard_lru g)) \<le> max 1 (guard_size g)"

section \<open>Refinement\<close>

lemma guard_invarD:
  assumes "guard_invar g"
  shows "distinct (guard_lru g)" "e \<in> set (guard_lru g) \<Longrightarrow> e < next_elem g"
    "guard_lookup g key = Some e \<longleftrightarrow> e \<in> set (guard_lru g) \<and> ent_key (elem_value g e) = key"
    "int (length (guard_lru g)) \<le> max 1 (guard_size g)"
  using assms by (auto simp: guard_invar_def)

lemma keys_inj: "guard_invar g \<Longrightarrow> inj_on (\<lambda>e. ent_key (elem_value g e)) (set (guard_lru g))"
  by (rule inj_onI) (metis guard_invarD(3) option.inject)

lemma abs_keys_distinct: "guard_invar g \<Longrightarrow> distinct (map fst (guard_abs g))"
  using keys_inj guard_invarD(1) by (auto simp: guard_abs_def comp_def distinct_map)

lemma map_of_guard_abs:
  assumes "guard_invar g"
  shows "map_of (guard_abs g) key =
    map_option (\<lambda>e. ent_insertedAt (elem_value g e)) (guard_lookup g key)"
proof (cases "guard_lookup g key")
  case None
  then have "key \<notin> fst ` set (guard_abs g)"
    using guard_invarD(3) [OF assms, of key] by (force simp: guard_abs_def)
  then show ?thesis using None by (simp add: map_of_eq_None_iff)
next
  case (Some e)
  then have "(key, ent_insertedAt (elem_value g e)) \<in> set (guard_abs g)"
    using guard_invarD(3) [OF assms] by (force simp: guard_abs_def)
  then show ?thesis using Some abs_keys_distinct [OF assms] by simp
qed

lemma drop_elem_ok:
  assumes "guard_invar g" "e \<in> set (guard_lru g)" "key = ent_key (elem_value g e)"
  shows "guard_invar (drop_elem e key g)"
    and "guard_abs (drop_elem e key g) = filter (\<lambda>p. fst p \<noteq> key) (guard_abs g)"
    and "guard_size (drop_elem e key g) = guard_size g" "guard_ttl (drop_elem e key g) = guard_ttl g"
    and "length (guard_lru (drop_elem e key g)) = length (guard_lru g) - 1"
proof -
  note d = guard_invarD(1) [OF assms(1)]
  have lk: "guard_lookup g k = Some x \<longleftrightarrow> x \<in> set (guard_lru g) \<and> ent_key (elem_value g x) = k" for k x
    by (rule guard_invarD(3) [OF assms(1)])
  have only: "x \<in> set (guard_lru g) \<Longrightarrow> ent_key (elem_value g x) = key \<longleftrightarrow> x = e" for x
    using assms(2,3) lk by (metis option.inject)
  show "guard_invar (drop_elem e key g)"
    unfolding guard_invar_def drop_elem_def
    using assms(1) d lk only guard_invarD(2,4) [OF assms(1)] assms(2)
    by (auto simp: length_remove1 dest: in_set_remove1)
  have "map (\<lambda>e. (ent_key (elem_value g e), ent_insertedAt (elem_value g e))) (filter (\<lambda>x. x \<noteq> e) (guard_lru g))
      = filter (\<lambda>p. fst p \<noteq> key) (guard_abs g)"
    using only by (simp add: guard_abs_def filter_map comp_def cong: filter_cong)
  then show "guard_abs (drop_elem e key g) = filter (\<lambda>p. fst p \<noteq> key) (guard_abs g)"
    using d by (simp add: drop_elem_def guard_abs_def distinct_remove1_removeAll removeAll_filter_not_eq eq_commute)
  show "length (guard_lru (drop_elem e key g)) = length (guard_lru g) - 1"
    using assms(2) by (simp add: drop_elem_def length_remove1)
qed (simp_all add: drop_elem_def)

lemma filter_last_butlast:
  assumes "distinct (map f xs)" "xs \<noteq> []"
  shows "filter (\<lambda>x. f x \<noteq> f (last xs)) xs = butlast xs"
proof -
  obtain ys y where "xs = ys @ [y]" using assms(2) by (cases xs rule: rev_cases) auto
  moreover from this have "\<forall>x \<in> set ys. f x \<noteq> f y" using assms(1) by (auto simp: image_iff)
  ultimately show ?thesis by simp
qed

lemma evict_oldest_ok:
  assumes "guard_invar g"
  shows "guard_invar (evict_oldest g)" "guard_abs (evict_oldest g) = trim (guard_size g) (guard_abs g)"
    and "guard_size (evict_oldest g) = guard_size g" "guard_ttl (evict_oldest g) = guard_ttl g"
    and "int (length (guard_lru (evict_oldest g))) < max 1 (guard_size g)"
proof -
  consider (keep) "int (length (guard_lru g)) < guard_size g"
    | (empty) "int (length (guard_lru g)) \<ge> guard_size g" "guard_lru g = []"
    | (evict) "int (length (guard_lru g)) \<ge> guard_size g" "guard_lru g \<noteq> []" by linarith
  then have "guard_invar (evict_oldest g) \<and> guard_abs (evict_oldest g) = trim (guard_size g) (guard_abs g)
    \<and> guard_size (evict_oldest g) = guard_size g \<and> guard_ttl (evict_oldest g) = guard_ttl g
    \<and> int (length (guard_lru (evict_oldest g))) < max 1 (guard_size g)"
  proof cases
    case evict
    let ?e = "last (guard_lru g)"
    have e: "evict_oldest g = drop_elem ?e (ent_key (elem_value g ?e)) g"
      using evict by (simp add: evict_oldest_def Let_def)
    note ok = drop_elem_ok [OF assms last_in_set [OF evict(2)] refl, folded e]
    have "ent_key (elem_value g ?e) = fst (last (guard_abs g))"
      using evict(2) by (simp add: guard_abs_def last_map)
    then have "guard_abs (evict_oldest g) = butlast (guard_abs g)"
      using ok(2) filter_last_butlast [OF abs_keys_distinct [OF assms]] evict(2) by (simp add: guard_abs_def)
    moreover have "int (length (guard_lru g) - 1) < max 1 (guard_size g)"
      using guard_invarD(4) [OF assms] evict(2) by (cases "guard_lru g") auto
    ultimately show ?thesis using ok evict by (simp add: trim_def guard_abs_def)
  qed (use assms in \<open>simp_all add: evict_oldest_def trim_def guard_abs_def\<close>)
  then show "guard_invar (evict_oldest g)" "guard_abs (evict_oldest g) = trim (guard_size g) (guard_abs g)"
    "guard_size (evict_oldest g) = guard_size g" "guard_ttl (evict_oldest g) = guard_ttl g"
    "int (length (guard_lru (evict_oldest g))) < max 1 (guard_size g)" by simp_all
qed

lemma push_front_ok:
  assumes "guard_invar g" "key \<notin> fst ` set (guard_abs g)" "int (length (guard_lru g)) < max 1 (guard_size g)"
  shows "guard_invar (push_front key now g)" "guard_abs (push_front key now g) = (key, now) # guard_abs g"
    and "guard_size (push_front key now g) = guard_size g" "guard_ttl (push_front key now g) = guard_ttl g"
proof -
  have fresh: "next_elem g \<notin> set (guard_lru g)" using guard_invarD(2) [OF assms(1)] by blast
  have key: "e \<in> set (guard_lru g) \<Longrightarrow> ent_key (elem_value g e) \<noteq> key" for e
    using assms(2) by (force simp: guard_abs_def)
  have old: "(if x = next_elem g then v else elem_value g x) = elem_value g x" if "x \<in> set (guard_lru g)" for x v
    using that fresh by auto
  show "guard_abs (push_front key now g) = (key, now) # guard_abs g"
    using fresh by (auto simp: push_front_def guard_abs_def Let_def)
  show "guard_invar (push_front key now g)"
    unfolding guard_invar_def push_front_def Let_def
    using guard_invarD [OF assms(1)] fresh key assms(3) by (auto simp: less_Suc_eq)
qed (simp_all add: push_front_def Let_def)

lemma trim_subset: "set (trim n es) \<subseteq> set es"
  by (auto simp: trim_def dest: in_set_butlastD)

lemma Seen_refines:
  assumes "guard_invar g" "Seen g now did = (b, g')"
  shows "guard_invar g'" "(b, guard_abs g') = seen_spec (guard_size g) (guard_ttl g) (guard_abs g) now did"
    and "guard_size g' = guard_size g" "guard_ttl g' = guard_ttl g"
proof -
  have insert: "guard_invar (push_front did now (evict_oldest h))
      \<and> guard_abs (push_front did now (evict_oldest h)) = (did, now) # trim (guard_size h) (guard_abs h)
      \<and> guard_size (push_front did now (evict_oldest h)) = guard_size h
      \<and> guard_ttl (push_front did now (evict_oldest h)) = guard_ttl h"
    if h: "guard_invar h" "did \<notin> fst ` set (guard_abs h)" for h
  proof -
    note ev = evict_oldest_ok [OF h(1)]
    have "did \<notin> fst ` set (guard_abs (evict_oldest h))"
      using h(2) trim_subset [of "guard_size h" "guard_abs h"] by (auto simp: ev(2))
    from push_front_ok [OF ev(1) this, of now] ev show ?thesis by simp
  qed
  have "guard_invar g' \<and> (b, guard_abs g') = seen_spec (guard_size g) (guard_ttl g) (guard_abs g) now did
    \<and> guard_size g' = guard_size g \<and> guard_ttl g' = guard_ttl g"
  proof (cases "guard_lookup g did")
    case None
    then have "did \<notin> fst ` set (guard_abs g)"
      using map_of_guard_abs [OF assms(1), of did] by (simp add: map_of_eq_None_iff)
    from insert [OF assms(1) this] show ?thesis
      using None assms map_of_guard_abs [OF assms(1), of did] by (auto simp: Seen_def seen_spec_def)
  next
    case (Some e)
    then have e: "e \<in> set (guard_lru g)" "did = ent_key (elem_value g e)"
      using guard_invarD(3) [OF assms(1)] by auto
    note dr = drop_elem_ok [OF assms(1) e(1,2)]
    have "did \<notin> fst ` set (guard_abs (drop_elem e did g))" by (auto simp: dr(2))
    from insert [OF dr(1) this] show ?thesis
      using Some assms map_of_guard_abs [OF assms(1), of did] dr
      by (cases "time_sub now (ent_insertedAt (elem_value g e)) \<le> guard_ttl g") (auto simp: Seen_def seen_spec_def)
  qed
  then show "guard_invar g'" "(b, guard_abs g') = seen_spec (guard_size g) (guard_ttl g) (guard_abs g) now did"
    "guard_size g' = guard_size g" "guard_ttl g' = guard_ttl g" by simp_all
qed

lemma NewReplayGuard_invar: "guard_invar (NewReplayGuard cap ttl)" "guard_abs (NewReplayGuard cap ttl) = []"
  by (simp_all add: guard_invar_def NewReplayGuard_def guard_abs_def)

section \<open>The interface of a replay filter\<close>

fun run_seen :: "('g \<Rightarrow> time \<Rightarrow> string \<Rightarrow> bool \<times> 'g) \<Rightarrow> (time \<times> string) list \<Rightarrow> 'g \<Rightarrow> bool list \<times> 'g" where
  "run_seen seen [] g = ([], g)"
| "run_seen seen ((t, did) # cs) g =
     (let (b, g) = seen g t did; (bs, g) = run_seen seen cs g in (b # bs, g))"

text \<open>An ID dated \<open>t\<close> is among the first \<open>n\<close> entries.\<close>

definition among :: "nat \<Rightarrow> string \<Rightarrow> time \<Rightarrow> dated \<Rightarrow> bool" where
  "among n did t es \<longleftrightarrow> (\<exists>i < n. i < length es \<and> es ! i = (did, t))"

lemma among_filter:
  assumes "among n did t es" "P (did, t)"
  shows "among n did t (filter P es)"
proof -
  obtain i where i: "i < n" "i < length es" "es ! i = (did, t)" using assms(1) by (auto simp: among_def)
  then have es: "es = take i es @ (did, t) # drop (Suc i) es" by (metis id_take_nth_drop)
  let ?j = "length (filter P (take i es))"
  have "filter P es = filter P (take i es) @ (did, t) # filter P (drop (Suc i) es)"
    using assms(2) by (subst es) simp
  moreover have "?j \<le> i" by (metis i(2) length_filter_le length_take min.absorb4)
  ultimately show ?thesis using i(1) unfolding among_def
    by (intro exI [of _ ?j]) (simp add: nth_append)
qed

lemma among_trim:
  assumes "among n did t es" "int n < cap"
  shows "among n did t (trim cap es)"
  using assms by (auto simp: among_def trim_def nth_butlast)

lemma among_Cons: "among n did t es \<Longrightarrow> among (Suc n) did t (e # es)"
  unfolding among_def by (metis Suc_less_eq length_Cons nth_Cons_Suc)

lemma among_lookup: "among n did t es \<Longrightarrow> distinct (map fst es) \<Longrightarrow> map_of es did = Some t"
  by (auto simp: among_def) (metis map_of_is_SomeI nth_mem)

text \<open>One call keeps an entry, one place further back at most, unless the capacity is reached.\<close>

lemma seen_spec_keeps:
  assumes "among n did t es" "distinct (map fst es)" "int n < cap"
    "did' = did \<Longrightarrow> time_sub now t \<le> ttl" "seen_spec cap ttl es now did' = (b, es')"
  shows "among (if b then n else Suc n) did t es'"
proof (cases "did' = did")
  case True
  then show ?thesis using assms among_lookup [OF assms(1,2)] by (simp add: seen_spec_def)
next
  case False
  have "among n did t (filter (\<lambda>e. fst e \<noteq> did') es)"
    using assms(1) False by (intro among_filter) auto
  then show ?thesis
    using assms(1,3,5) False
    by (auto simp: seen_spec_def split: option.splits if_splits intro!: among_Cons among_trim)
qed

locale replay_filter =
  fixes seen :: "'g \<Rightarrow> time \<Rightarrow> string \<Rightarrow> bool \<times> 'g"
    and invar :: "'g \<Rightarrow> bool" and entries :: "'g \<Rightarrow> dated"
    and capacity :: "'g \<Rightarrow> int" and ttl :: "'g \<Rightarrow> duration"
  assumes seen_invar: "invar g \<Longrightarrow> seen g now did = (b, g') \<Longrightarrow> invar g'"
    and seen_entries: "invar g \<Longrightarrow> seen g now did = (b, g') \<Longrightarrow>
      (b, entries g') = seen_spec (capacity g) (ttl g) (entries g) now did"
    and seen_params: "seen g now did = (b, g') \<Longrightarrow> capacity g' = capacity g \<and> ttl g' = ttl g"
    and seen_hit: "seen g now did = (True, g') \<Longrightarrow> g' = g"
    and entries_distinct: "invar g \<Longrightarrow> distinct (map fst (entries g))"
begin

lemma run_keeps:
  assumes "invar g" "among n did t (entries g)" "run_seen seen cs g = (bs, g')"
    and "\<And>t'. (t', did) \<in> set cs \<Longrightarrow> time_sub t' t \<le> ttl g"
    and "int n + int (length (filter Not bs)) \<le> capacity g"
  shows "invar g' \<and> among (n + length (filter Not bs)) did t (entries g')
    \<and> capacity g' = capacity g \<and> ttl g' = ttl g"
  using assms
proof (induction cs arbitrary: g n bs)
  case (Cons c cs)
  obtain t' d' where c: "c = (t', d')" by force
  obtain b g1 bs1 where s: "seen g t' d' = (b, g1)" and r: "run_seen seen cs g1 = (bs1, g')" and bs: "bs = b # bs1"
    using Cons.prems(3) by (auto simp: c Let_def split: prod.splits)
  have p: "capacity g1 = capacity g" "ttl g1 = ttl g" using seen_params [OF s] by auto
  let ?n = "if b then n else Suc n"
  have "among ?n did t (entries g1)"
  proof (cases b)
    case True
    then have "entries g1 = entries g"
      using seen_entries [OF Cons.prems(1) s] by (auto simp: seen_spec_def split: option.splits if_splits)
    then show ?thesis using True Cons.prems(2) by simp
  next
    case False
    then have "int n < capacity g" using Cons.prems(5) bs by simp
    from seen_spec_keeps [OF Cons.prems(2) entries_distinct [OF Cons.prems(1)] this _
        seen_entries [OF Cons.prems(1) s, symmetric]] Cons.prems(4)
    show ?thesis by (auto simp: c)
  qed
  moreover have "\<And>t'. (t', did) \<in> set cs \<Longrightarrow> time_sub t' t \<le> ttl g1" using Cons.prems(4) p by (simp add: c)
  moreover have "int ?n + int (length (filter Not bs1)) \<le> capacity g1" using Cons.prems(5) p bs by (cases b) simp_all
  moreover have "?n + length (filter Not bs1) = n + length (filter Not bs)" using bs by (cases b) simp_all
  ultimately show ?case
    using Cons.IH [OF seen_invar [OF Cons.prems(1) s] _ r, of ?n] p by metis
qed simp

text \<open>An ID that was let through is recognised for the length of the TTL, as long as fewer new IDs than
  the capacity are let through after it.\<close>

lemma replay_detected:
  assumes "invar g" "seen g t did = (False, g1)" "run_seen seen cs g1 = (bs, g2)"
    and "\<And>t'. (t', did) \<in> set cs \<Longrightarrow> time_sub t' t \<le> ttl g"
    and "int (length (filter Not bs)) < capacity g" "time_sub t2 t \<le> ttl g"
  shows "seen g2 t2 did = (True, g2)"
proof -
  have "among 1 did t (entries g1)"
    using seen_entries [OF assms(1,2)] by (auto simp: seen_spec_def among_def split: option.splits if_splits)
  from run_keeps [OF seen_invar [OF assms(1,2)] this assms(3)] assms(4,5) seen_params [OF assms(2)]
  have g2: "invar g2" "among (1 + length (filter Not bs)) did t (entries g2)" "ttl g2 = ttl g" by auto
  obtain b g3 where s: "seen g2 t2 did = (b, g3)" by force
  have "map_of (entries g2) did = Some t" using among_lookup [OF g2(2) entries_distinct [OF g2(1)]] .
  then have b using seen_entries [OF g2(1) s] assms(6) g2(3) by (auto simp: seen_spec_def)
  then show ?thesis using s seen_hit [of g2 t2 did g3] by simp
qed

end

lemma Seen_hit: "Seen g now did = (True, g') \<Longrightarrow> g' = g"
  by (auto simp: Seen_def split: option.splits if_splits)

lemma Seen_params: "Seen g now did = (b, g') \<Longrightarrow> guard_size g' = guard_size g \<and> guard_ttl g' = guard_ttl g"
  by (auto simp: Seen_def push_front_def evict_oldest_def drop_elem_def Let_def split: option.splits if_splits)

interpretation guard: replay_filter Seen guard_invar guard_abs guard_size guard_ttl
  by unfold_locales (simp_all add: Seen_refines(1) Seen_params Seen_hit abs_keys_distinct, rule Seen_refines(2))

section \<open>Properties\<close>

fun run_spec :: "int \<Rightarrow> duration \<Rightarrow> (time \<times> string) list \<Rightarrow> dated \<Rightarrow> bool list \<times> dated" where
  "run_spec cap ttl [] es = ([], es)"
| "run_spec cap ttl ((t, did) # cs) es =
     (let (b, es) = seen_spec cap ttl es t did; (bs, es) = run_spec cap ttl cs es in (b # bs, es))"

lemma run_seen_refines:
  "guard_invar g \<Longrightarrow> run_seen Seen cs g = (bs, g') \<Longrightarrow>
    guard_invar g' \<and> guard_size g' = guard_size g
    \<and> run_spec (guard_size g) (guard_ttl g) cs (guard_abs g) = (bs, guard_abs g')"
proof (induction cs arbitrary: g bs)
  case (Cons c cs)
  obtain t did b g1 bs1 where c: "c = (t, did)" and s: "Seen g t did = (b, g1)"
    and r: "run_seen Seen cs g1 = (bs1, g')" and bs: "bs = b # bs1"
    using Cons.prems(2) by (cases c) (auto simp: Let_def split: prod.splits)
  note ref = Seen_refines [OF Cons.prems(1) s]
  show ?case using Cons.IH [OF ref(1) r] ref(2) [symmetric] ref(3,4) by (simp add: c bs)
qed simp

text \<open>C21. The guard is a bounded list of dated IDs. From a new guard, after any sequence of calls, the
  shared list and map agree, at most \<open>size\<close> entries are held (one when \<open>size\<close> is not positive), and
  the answers are those of the specification: a call answers yes exactly when the ID is held with an
  age of at most the TTL, and otherwise the ID is dated anew and the oldest entry makes room.\<close>

theorem replay_guard_refines_spec:
  assumes "run_seen Seen cs (NewReplayGuard cap ttl) = (bs, g)"
  shows "guard_invar g \<and> int (length (guard_lru g)) \<le> max 1 cap
    \<and> run_spec cap ttl cs [] = (bs, guard_abs g)"
proof -
  have "guard_size (NewReplayGuard cap ttl) = cap" "guard_ttl (NewReplayGuard cap ttl) = ttl"
    by (simp_all add: NewReplayGuard_def)
  then show ?thesis
    using run_seen_refines [OF NewReplayGuard_invar(1) assms] NewReplayGuard_invar(2) [of cap ttl]
      guard_invarD(4) [of g] by simp
qed

theorem replay_guard_refines_spec_witness:
  "run_spec 2 10 [(1, ''a''), (2, ''b''), (3, ''a''), (4, ''c''), (5, ''b''), (20, ''c'')] []
     = ([False, False, True, False, True, False], [(''c'', 20), (''b'', 2)])"
proof -
  let ?cs = "[(1, ''a''), (2, ''b''), (3, ''a''), (4, ''c''), (5, ''b''), (20, ''c'')]"
  obtain bs g where run: "run_seen Seen ?cs (NewReplayGuard 2 10) = (bs, g)" by force
  have "fst (run_seen Seen ?cs (NewReplayGuard 2 10)) = [False, False, True, False, True, False]"
    "guard_abs (snd (run_seen Seen ?cs (NewReplayGuard 2 10))) = [(''c'', 20), (''b'', 2)]" by code_simp+
  then show ?thesis using replay_guard_refines_spec [OF run] run by (simp only: fst_conv snd_conv)
qed

text \<open>A replay is detected. Once \<open>Seen\<close> has let an ID through, every later call with that ID within
  the TTL answers yes and changes nothing, whatever other IDs are presented in between, as long as
  fewer than \<open>size\<close> of them were let through.\<close>

lemma replay_detected_within_ttl:
  assumes "guard_invar g" "Seen g t did = (False, g1)" "run_seen Seen cs g1 = (bs, g2)"
    and "\<forall>t'. (t', did) \<in> set cs \<longrightarrow> time_sub t' t \<le> guard_ttl g"
    and "int (length (filter Not bs)) < guard_size g" "time_sub t2 t \<le> guard_ttl g"
  shows "Seen g2 t2 did = (True, g2)"
  using guard.replay_detected [OF assms(1-3)] assms(4-6) by blast

theorem replay_detected_witness:
  "fst (Seen (snd (run_seen Seen [(2, ''b''), (3, ''a''), (4, ''c'')]
     (snd (Seen (NewReplayGuard 3 10) 1 ''a'')))) 11 ''a'')"
proof -
  let ?g = "NewReplayGuard 3 10" and ?cs = "[(2, ''b''), (3, ''a''), (4, ''c'')]"
  let ?g1 = "snd (Seen ?g 1 ''a'')"
  have f: "fst (Seen ?g 1 ''a'') = False" "fst (run_seen Seen ?cs ?g1) = [False, True, False]" by code_simp+
  have s: "Seen ?g 1 ''a'' = (False, ?g1)" using f(1) by (metis prod.collapse)
  have r: "run_seen Seen ?cs ?g1 = ([False, True, False], snd (run_seen Seen ?cs ?g1))"
    using f(2) by (metis prod.collapse)
  have "\<forall>t'. (t', ''a'') \<in> set ?cs \<longrightarrow> time_sub t' 1 \<le> guard_ttl ?g" "time_sub 11 1 \<le> guard_ttl ?g"
    "int (length (filter Not [False, True, False])) < guard_size ?g"
    by (simp_all add: NewReplayGuard_def time_sub_def min_duration_def max_duration_def)
  from replay_detected_within_ttl [OF NewReplayGuard_invar(1) s r this(1,3,2)] show ?thesis by simp
qed

text \<open>A hit does not refresh an entry: eviction is by age of insertion, not by last use. The ID used
  last is the one evicted here.\<close>

lemma hit_does_not_refresh:
  "fst (run_seen Seen [(1, ''a''), (2, ''b''), (3, ''a''), (4, ''c''), (5, ''a'')] (NewReplayGuard 2 100))
     = [False, False, True, False, False]"
  by code_simp

end
