(* ===== verification/Sha256.thy ===== *)
theory Sha256
  imports Prelude
begin

unbundle bit_operations_syntax

text \<open>
  \<open>crypto/sha256\<close> and \<open>crypto/hmac\<close> as \<open>VerifySignature\<close> uses them: SHA-256 of a byte string (FIPS
  180-4) on 32-bit words, and HMAC (RFC 2104) with its 64-byte block.
\<close>

type_synonym w32 = "32 word"

section \<open>SHA-256\<close>

text \<open>The constants of the standard are the first 32 bits of the fractional parts of the cube roots of
  the first 64 primes and of the square roots of the first 8. They are defined as that; the tables
  that evaluation uses are proved equal to the definitions.\<close>

definition first_primes :: "int list" where
  "first_primes =
     [2, 3, 5, 7, 11, 13, 17, 19, 23, 29, 31, 37, 41, 43, 47, 53, 59, 61, 67, 71,
      73, 79, 83, 89, 97, 101, 103, 107, 109, 113, 127, 131, 137, 139, 149, 151, 157, 163, 167, 173,
      179, 181, 191, 193, 197, 199, 211, 223, 227, 229, 233, 239, 241, 251, 257, 263, 269, 271, 277, 281,
      283, 293, 307, 311]"

text \<open>The greatest \<open>r < 2 ^ k\<close> with \<open>r ^ e \<le> n\<close>, bit by bit from the top.\<close>

fun root_bits :: "nat \<Rightarrow> int \<Rightarrow> int \<Rightarrow> nat \<Rightarrow> int" where
  "root_bits e n r 0 = r"
| "root_bits e n r (Suc k) = root_bits e n (if (r + 2 ^ k) ^ e \<le> n then r + 2 ^ k else r) k"

definition root_fraction :: "nat \<Rightarrow> int \<Rightarrow> w32" where
  "root_fraction e p = word_of_int (root_bits e (p * 2 ^ (32 * e)) 0 37)"

definition sha256_K :: "w32 list" where
  "sha256_K = map (root_fraction 3) first_primes"

definition sha256_init :: "w32 list" where
  "sha256_init = map (root_fraction 2) (take 8 first_primes)"

lemma sha256_K_table [code]:
  "sha256_K =
     [1116352408, 1899447441, 3049323471, 3921009573, 961987163, 1508970993, 2453635748, 2870763221,
      3624381080, 310598401, 607225278, 1426881987, 1925078388, 2162078206, 2614888103, 3248222580,
      3835390401, 4022224774, 264347078, 604807628, 770255983, 1249150122, 1555081692, 1996064986,
      2554220882, 2821834349, 2952996808, 3210313671, 3336571891, 3584528711, 113926993, 338241895,
      666307205, 773529912, 1294757372, 1396182291, 1695183700, 1986661051, 2177026350, 2456956037,
      2730485921, 2820302411, 3259730800, 3345764771, 3516065817, 3600352804, 4094571909, 275423344,
      430227734, 506948616, 659060556, 883997877, 958139571, 1322822218, 1537002063, 1747873779,
      1955562222, 2024104815, 2227730452, 2361852424, 2428436474, 2756734187, 3204031479, 3329325298]"
  by code_simp

lemma sha256_init_table [code]:
  "sha256_init =
     [1779033703, 3144134277, 1013904242, 2773480762, 1359893119, 2600822924, 528734635, 1541459225]"
  by code_simp

definition rotr :: "nat \<Rightarrow> w32 \<Rightarrow> w32" where
  "rotr n x = (drop_bit n x) OR (push_bit (32 - n) x)"

text \<open>The big-endian bytes of a word, and back.\<close>

definition word_bytes :: "w32 \<Rightarrow> string" where
  "word_bytes x = map (\<lambda>n. char_of (unat (drop_bit n x AND 0xff))) [24, 16, 8, 0]"

fun bytes_words :: "string \<Rightarrow> w32 list" where
  "bytes_words (a # b # c # d # s) =
     (push_bit 24 (of_nat (of_char a)) OR push_bit 16 (of_nat (of_char b))
      OR push_bit 8 (of_nat (of_char c)) OR of_nat (of_char d)) # bytes_words s"
| "bytes_words _ = []"

text \<open>The padding: a one bit, zeros to 56 bytes modulo 64, the length in bits as 64-bit big-endian.\<close>

definition sha256_pad :: "string \<Rightarrow> string" where
  "sha256_pad m =
     (let n = length m; z = (119 - n mod 64) mod 64 in
      m @ CHR 0x80 # replicate z (CHR 0x00)
        @ map (\<lambda>i. char_of (8 * n div 256 ^ i mod 256)) [7, 6, 5, 4, 3, 2, 1, 0])"

text \<open>The message schedule, newest word first.\<close>

fun sha256_extend :: "nat \<Rightarrow> w32 list \<Rightarrow> w32 list" where
  "sha256_extend 0 ws = ws"
| "sha256_extend (Suc n) ws =
     (let w15 = ws ! 14; w2 = ws ! 1;
          s0 = rotr 7 w15 XOR rotr 18 w15 XOR drop_bit 3 w15;
          s1 = rotr 17 w2 XOR rotr 19 w2 XOR drop_bit 10 w2
      in sha256_extend n ((ws ! 15 + s0 + ws ! 6 + s1) # ws))"

definition sha256_schedule :: "w32 list \<Rightarrow> w32 list" where
  "sha256_schedule block = rev (sha256_extend 48 (rev block))"

fun sha256_round :: "w32 list \<Rightarrow> w32 \<times> w32 \<Rightarrow> w32 list" where
  "sha256_round [a, b, c, d, e, f, g, h] (k, w) =
     (let s1 = rotr 6 e XOR rotr 11 e XOR rotr 25 e;
          ch = (e AND f) XOR (NOT e AND g);
          t1 = h + s1 + ch + k + w;
          s0 = rotr 2 a XOR rotr 13 a XOR rotr 22 a;
          maj = (a AND b) XOR (a AND c) XOR (b AND c)
      in [t1 + (s0 + maj), a, b, c, d + t1, e, f, g])"
| "sha256_round st _ = st"

definition sha256_compress :: "w32 list \<Rightarrow> w32 list \<Rightarrow> w32 list" where
  "sha256_compress st block =
     map2 (+) st (foldl sha256_round st (zip sha256_K (sha256_schedule block)))"

fun sha256_blocks :: "w32 list \<Rightarrow> w32 list list \<Rightarrow> w32 list" where
  "sha256_blocks st [] = st"
| "sha256_blocks st (b # bs) = sha256_blocks (sha256_compress st b) bs"

fun chunks :: "nat \<Rightarrow> 'a list \<Rightarrow> 'a list list" where
  "chunks n xs = (if xs = [] \<or> n = 0 then [] else take n xs # chunks n (drop n xs))"

declare chunks.simps [simp del]

definition sha256 :: "string \<Rightarrow> string" where
  "sha256 m = concat (map word_bytes (sha256_blocks sha256_init (chunks 16 (bytes_words (sha256_pad m)))))"

section \<open>HMAC\<close>

definition xor_byte :: "nat \<Rightarrow> char \<Rightarrow> char" where
  "xor_byte k c = char_of (of_char c XOR k)"

definition hmac_sha256 :: "string \<Rightarrow> string \<Rightarrow> string" where
  "hmac_sha256 key body =
     (let key = (if length key > 64 then sha256 key else key);
          key = key @ replicate (64 - length key) (CHR 0x00)
      in sha256 (map (xor_byte 0x5c) key @ sha256 (map (xor_byte 0x36) key @ body)))"

section \<open>Sizes\<close>

lemma length_sha256_round [simp]: "length (sha256_round st kw) = length st"
  by (cases "(st, kw)" rule: sha256_round.cases) (simp_all add: Let_def)

lemma length_foldl_round [simp]: "length (foldl sha256_round st kws) = length st"
  by (induction kws arbitrary: st) simp_all

lemma length_compress [simp]: "length (sha256_compress st b) = length st"
  by (simp add: sha256_compress_def)

lemma length_blocks [simp]: "length (sha256_blocks st bs) = length st"
  by (induction bs arbitrary: st) simp_all

lemma length_sha256: "length (sha256 m) = 32"
proof -
  have "length (concat (map word_bytes ws)) = 4 * length ws" for ws
    by (induction ws) (simp_all add: word_bytes_def)
  then show ?thesis by (simp add: sha256_def sha256_init_def first_primes_def)
qed

lemma length_hmac: "length (hmac_sha256 key body) = 32"
  by (simp add: hmac_sha256_def Let_def length_sha256)

end
