(* ===== verification/Receiver.thy ===== *)
theory Receiver
  imports Adapter EventFeed Replay Sha256
begin

text \<open>
  The webhook receiver (\<open>internal/webhook/verify.go\<close>, \<open>app_lookup.go\<close>, \<open>dispatcher.go\<close>, \<open>receiver.go\<close>
  and the counters of \<open>metrics.go\<close>).

  \<^item> \<open>receiver\<close> is the state behind the handler: the replay guard, the event feed and the counters.
  \<^item> \<open>http_request\<close> is what the handler reads of a request: the method, the bytes the body yields and
    whether reading it then fails, and \<open>Header.Get\<close>.
  \<^item> The decoders of \<open>encoding/json\<close> into the two payload structs are the parameter \<open>webhook_json\<close>;
    nothing is assumed of them. A \<open>nil\<close> slice of labels is \<open>None\<close>.
  \<^item> \<open>rclock\<close> holds the readings of the clock: at the start of the request, in the guard, in the feed,
    and for the lag.
\<close>

section \<open>Signatures\<close>

definition signaturePrefix :: string where "signaturePrefix = ''sha256=''"

definition ErrMissingSignature :: error where
  "ErrMissingSignature = Error False ''webhook: X-Hub-Signature-256 missing''"

definition ErrInvalidSignature :: error where
  "ErrInvalidSignature = Error False ''webhook: X-Hub-Signature-256 invalid''"

definition VerifySignature :: "string \<Rightarrow> string \<Rightarrow> string \<Rightarrow> error option" where
  "VerifySignature body sigHeader secret =
     (if sigHeader = [] then Some ErrMissingSignature
      else if \<not> has_prefix sigHeader signaturePrefix then Some ErrInvalidSignature
      else case hex_decode (trim_prefix sigHeader signaturePrefix) of
        None \<Rightarrow> Some ErrInvalidSignature
      | Some got \<Rightarrow>
          (let want = hmac_sha256 secret body in
           if got \<noteq> want then Some ErrInvalidSignature else None))"

section \<open>Finding the app\<close>

definition defaultAppLookupNamespace :: string where
  "defaultAppLookupNamespace = ''warmrunners-system''"

text \<open>The loop over \<open>list.Items\<close>.\<close>

fun find_app :: "int64 \<Rightarrow> GitHubApp list \<Rightarrow> GitHubApp option" where
  "find_app parsedID [] = None"
| "find_app parsedID (a # items) =
     (if app_AppID (gha_Spec a) = parsedID then Some a else find_app parsedID items)"

definition Resolve ::
  "('w, 'o) kube \<Rightarrow> string \<Rightarrow> 'w \<Rightarrow> string \<Rightarrow> error + (GitHubApp \<times> string)" where
  "Resolve k podNamespace w targetID =
     (case parse_int64 targetID of
        None \<Rightarrow> Inl (Error False (''unknown app: bad target id '' @ quoted targetID))
      | Some parsedID \<Rightarrow>
          (case list_apps k w of
             Inl e \<Rightarrow> Inl (wrap_error ''list GitHubApps'' e)
           | Inr items \<Rightarrow>
               (case find_app parsedID items of
                  None \<Rightarrow> Inl (Error False (''unknown app: no GitHubApp with appID='' @ show_int parsedID))
                | Some app \<Rightarrow>
                    (let ref = app_WebhookSecretRef (gha_Spec app);
                         ns = skr_Namespace ref;
                         ns = (if ns = [] then podNamespace else ns);
                         ns = (if ns = [] then defaultAppLookupNamespace else ns)
                     in case get_secret k w \<lparr>nn_Name = skr_Name ref, nn_Namespace = ns\<rparr> of
                          Inl e \<Rightarrow> Inl (wrap_error ''webhook secret'' e)
                        | Inr data \<Rightarrow>
                            (case data (skr_Key ref) of
                               None \<Rightarrow> Inl (Error False (''webhook secret: key '' @ quoted (skr_Key ref) @ '' not found''))
                             | Some secretBytes \<Rightarrow>
                                 if length secretBytes = 0
                                 then Inl (Error False (''webhook secret: key '' @ quoted (skr_Key ref) @ '' not found''))
                                 else Inr (app, secretBytes))))))"

section \<open>Dispatch\<close>

record pushPayload =
  push_Ref :: string
  push_After :: string
  push_FullName :: string

record workflowJobPayload =
  job_Action :: string
  job_Labels :: "string list option"
  job_RunID :: int64
  job_FullName :: string

record webhook_json =
  decode_push :: "string \<Rightarrow> error + pushPayload"
  decode_workflow_job :: "string \<Rightarrow> error + workflowJobPayload"

definition Handle ::
  "webhook_json \<Rightarrow> inMemoryFeed \<Rightarrow> time \<Rightarrow> string \<Rightarrow> string \<Rightarrow> string \<Rightarrow> error option \<times> inMemoryFeed" where
  "Handle js feed now eventType deliveryID body =
     (if eventType = ''push'' then
        (case decode_push js body of
           Inl e \<Rightarrow> (Some (wrap_error ''webhook: decode push payload'' e), feed)
         | Inr p \<Rightarrow> (None, RecordPush feed now (push_FullName p) (push_After p)))
      else if eventType = ''workflow_job'' then
        (case decode_workflow_job js body of
           Inl e \<Rightarrow> (Some (wrap_error ''webhook: decode workflow_job payload'' e), feed)
         | Inr p \<Rightarrow>
             if job_Action p \<noteq> ''queued'' then (None, feed)
             else (None, RecordJob feed now (job_FullName p) (job_Labels p)))
      else (None, feed))"

section \<open>The handler\<close>

record webhook_metrics =
  EventsTotal :: "string \<times> string \<Rightarrow> nat"
  DeliveriesDropped :: "string \<Rightarrow> nat"
  LagSeconds :: "(string \<times> duration) list"

record receiver =
  rcv_guard :: ReplayGuard
  rcv_feed :: inMemoryFeed
  rcv_metrics :: webhook_metrics

record rclock =
  rc_start :: time
  rc_guard :: time
  rc_feed :: time
  rc_end :: time

record http_request =
  req_Method :: string
  req_Body :: string
  req_BodyFails :: bool
  req_Header :: "string \<Rightarrow> string"

definition maxBodyBytes :: nat where "maxBodyBytes = 2 ^ 20"

definition countDropped :: "string \<Rightarrow> receiver \<Rightarrow> receiver" where
  "countDropped reason r =
     (let m = rcv_metrics r in
      r\<lparr>rcv_metrics := m\<lparr>DeliveriesDropped := (DeliveriesDropped m)(reason := Suc (DeliveriesDropped m reason))\<rparr>\<rparr>)"

definition countEvent :: "string \<Rightarrow> string \<Rightarrow> receiver \<Rightarrow> receiver" where
  "countEvent ev verified r =
     (let m = rcv_metrics r in
      r\<lparr>rcv_metrics := m\<lparr>EventsTotal := (EventsTotal m)((ev, verified) := Suc (EventsTotal m (ev, verified)))\<rparr>\<rparr>)"

definition observeLag :: "string \<Rightarrow> duration \<Rightarrow> receiver \<Rightarrow> receiver" where
  "observeLag ev d r = r\<lparr>rcv_metrics := (rcv_metrics r)\<lparr>LagSeconds := (ev, d) # LagSeconds (rcv_metrics r)\<rparr>\<rparr>"

definition dropReasonForStatus :: "int \<Rightarrow> string" where
  "dropReasonForStatus status =
     (if status = 404 then ''unknown_app'' else if status = 401 then ''hmac_invalid'' else ''malformed'')"

definition handle ::
  "('w, 'o) kube \<Rightarrow> string \<Rightarrow> webhook_json \<Rightarrow> 'w \<Rightarrow> rclock \<Rightarrow> receiver \<Rightarrow>
    string \<Rightarrow> string \<Rightarrow> string \<Rightarrow> string \<Rightarrow> string \<Rightarrow> (int \<times> error option) \<times> receiver" where
  "handle k podNamespace js w clk r eventType deliveryID sigHeader targetID body =
     (case Resolve k podNamespace w targetID of
        Inl e \<Rightarrow> ((404, Some (wrap_error ''webhook: unknown installation target'' e)), r)
      | Inr (_, secret) \<Rightarrow>
          (case VerifySignature body sigHeader secret of
             Some e \<Rightarrow> ((401, Some (wrap_error ''webhook: invalid signature'' e)), r)
           | None \<Rightarrow>
               (let (seen, guard) = Seen (rcv_guard r) (rc_guard clk) deliveryID;
                    r = r\<lparr>rcv_guard := guard\<rparr>
                in if seen then ((200, None), countDropped ''replay'' r)
                   else
                     (let (err, feed) = Handle js (rcv_feed r) (rc_feed clk) eventType deliveryID body;
                          r = r\<lparr>rcv_feed := feed\<rparr>
                      in case err of
                           Some e \<Rightarrow> ((500, Some (wrap_error ''webhook: dispatch'' e)), r)
                         | None \<Rightarrow>
                             (let r = countEvent eventType ''true'' r;
                                  r = (if eventType \<noteq> ''ping''
                                       then observeLag eventType (time_sub (rc_end clk) (rc_start clk)) r else r)
                              in ((200, None), r))))))"

definition ServeHTTP ::
  "('w, 'o) kube \<Rightarrow> string \<Rightarrow> webhook_json \<Rightarrow> 'w \<Rightarrow> rclock \<Rightarrow> receiver \<Rightarrow> http_request \<Rightarrow> int \<times> receiver" where
  "ServeHTTP k podNamespace js w clk r req =
     (if req_Method req \<noteq> ''POST'' then (405, r)
      else if length (req_Body req) > maxBodyBytes then (413, countDropped ''body_too_large'' r)
      else if req_BodyFails req then (400, countDropped ''malformed'' r)
      else
        (let body = req_Body req;
             eventType = req_Header req ''X-GitHub-Event'';
             deliveryID = req_Header req ''X-GitHub-Delivery'';
             sigHeader = req_Header req ''X-Hub-Signature-256'';
             targetID = req_Header req ''X-GitHub-Hook-Installation-Target-ID''
         in if eventType = [] \<or> deliveryID = [] \<or> sigHeader = [] \<or> targetID = []
            then (400, countDropped ''malformed'' r)
            else
              (let ((status, err), r) = handle k podNamespace js w clk r eventType deliveryID sigHeader targetID body
               in if err \<noteq> None then (status, countDropped (dropReasonForStatus status) r) else (status, r))))"

definition HandleFrame ::
  "('w, 'o) kube \<Rightarrow> string \<Rightarrow> webhook_json \<Rightarrow> 'w \<Rightarrow> rclock \<Rightarrow> receiver \<Rightarrow> (string \<Rightarrow> string) \<Rightarrow> string \<Rightarrow>
    error option \<times> receiver" where
  "HandleFrame k podNamespace js w clk r headers body =
     (let eventType = headers ''X-GitHub-Event'';
          deliveryID = headers ''X-GitHub-Delivery'';
          targetID = headers ''X-GitHub-Hook-Installation-Target-ID''
      in if eventType = [] \<or> deliveryID = [] \<or> targetID = []
         then (Some (Error False ''webhook: malformed tunnel frame: missing required header''), r)
         else case Resolve k podNamespace w targetID of
           Inl e \<Rightarrow> (Some (wrap_error ''webhook: unknown installation target'' e), r)
         | Inr _ \<Rightarrow>
             (let (seen, guard) = Seen (rcv_guard r) (rc_guard clk) deliveryID;
                  r = r\<lparr>rcv_guard := guard\<rparr>
              in if seen then (None, countDropped ''replay'' r)
                 else
                   (let (err, feed) = Handle js (rcv_feed r) (rc_feed clk) eventType deliveryID body;
                        r = r\<lparr>rcv_feed := feed\<rparr>
                    in case err of
                         Some e \<Rightarrow> (Some (wrap_error ''webhook: dispatch'' e), r)
                       | None \<Rightarrow> (None, countEvent eventType ''tunnel'' r))))"

section \<open>Signatures: what is accepted\<close>

lemma has_prefix_append [simp]: "has_prefix (p @ s) p"
  by (simp add: has_prefix_def)

lemma trim_prefix_append [simp]: "trim_prefix (p @ s) p = s"
  by (simp add: trim_prefix_def)

lemma VerifySignature_iff:
  "VerifySignature body h secret = None \<longleftrightarrow>
     (\<exists>hexs. h = signaturePrefix @ hexs \<and> hex_decode hexs = Some (hmac_sha256 secret body))"
proof
  assume ok: "VerifySignature body h secret = None"
  then have "has_prefix h signaturePrefix"
    "hex_decode (trim_prefix h signaturePrefix) = Some (hmac_sha256 secret body)"
    by (auto simp: VerifySignature_def Let_def split: if_splits option.splits)
  moreover from this(1) have "h = signaturePrefix @ trim_prefix h signaturePrefix"
    by (simp add: trim_prefix_def has_prefix_def) (metis append_take_drop_id)
  ultimately show "\<exists>hexs. h = signaturePrefix @ hexs \<and> hex_decode hexs = Some (hmac_sha256 secret body)" by blast
next
  assume "\<exists>hexs. h = signaturePrefix @ hexs \<and> hex_decode hexs = Some (hmac_sha256 secret body)"
  then show "VerifySignature body h secret = None"
    by (auto simp: VerifySignature_def Let_def) (auto simp: signaturePrefix_def)
qed

section \<open>The stages of a request\<close>

text \<open>A request that gets as far as the replay guard: well-formed, from a known app, and signed.\<close>

definition authentic :: "('w, 'o) kube \<Rightarrow> string \<Rightarrow> 'w \<Rightarrow> http_request \<Rightarrow> bool" where
  "authentic k podNamespace w req \<longleftrightarrow>
     req_Method req = ''POST'' \<and> length (req_Body req) \<le> maxBodyBytes \<and> \<not> req_BodyFails req
     \<and> req_Header req ''X-GitHub-Event'' \<noteq> [] \<and> req_Header req ''X-GitHub-Delivery'' \<noteq> []
     \<and> (\<exists>app secret hexs.
          Resolve k podNamespace w (req_Header req ''X-GitHub-Hook-Installation-Target-ID'') = Inr (app, secret)
          \<and> req_Header req ''X-Hub-Signature-256'' = signaturePrefix @ hexs
          \<and> hex_decode hexs = Some (hmac_sha256 secret (req_Body req)))"

lemma Resolve_empty: "Resolve k ns w [] = Inl (Error False (''unknown app: bad target id '' @ quoted []))"
  by (simp add: Resolve_def parse_int64_def)

lemma ServeHTTP_rejected:
  assumes "\<not> authentic k ns w req" "ServeHTTP k ns js w clk r req = (status, r')"
  shows "rcv_guard r' = rcv_guard r" "rcv_feed r' = rcv_feed r" "status \<in> {405, 413, 400, 404, 401}"
    and "r' = (if status = 405 then r else countDropped
      (if status = 413 then ''body_too_large'' else dropReasonForStatus status) r)"
proof -
  have "(rcv_guard r' = rcv_guard r \<and> rcv_feed r' = rcv_feed r) \<and> status \<in> {405, 413, 400, 404, 401}
    \<and> r' = (if status = 405 then r else countDropped
      (if status = 413 then ''body_too_large'' else dropReasonForStatus status) r)"
  proof (cases "req_Method req = ''POST'' \<and> length (req_Body req) \<le> maxBodyBytes \<and> \<not> req_BodyFails req
      \<and> req_Header req ''X-GitHub-Event'' \<noteq> [] \<and> req_Header req ''X-GitHub-Delivery'' \<noteq> []
      \<and> req_Header req ''X-Hub-Signature-256'' \<noteq> [] \<and> req_Header req ''X-GitHub-Hook-Installation-Target-ID'' \<noteq> []")
    case False
    then show ?thesis
      using assms(2) by (auto simp: ServeHTTP_def Let_def countDropped_def dropReasonForStatus_def split: if_splits)
  next
    case True
    show ?thesis
    proof (cases "Resolve k ns w (req_Header req ''X-GitHub-Hook-Installation-Target-ID'')")
      case (Inl e)
      then show ?thesis
        using assms(2) True by (auto simp: ServeHTTP_def Let_def handle_def countDropped_def dropReasonForStatus_def)
    next
      case (Inr as)
      obtain app secret where as: "as = (app, secret)" by force
      obtain e where "VerifySignature (req_Body req) (req_Header req ''X-Hub-Signature-256'') secret = Some e"
        using assms(1) True Inr as VerifySignature_iff [of "req_Body req" "req_Header req ''X-Hub-Signature-256''" secret]
        by (cases "VerifySignature (req_Body req) (req_Header req ''X-Hub-Signature-256'') secret")
          (auto simp: authentic_def)
      then show ?thesis
        using assms(2) True Inr as
        by (auto simp: ServeHTTP_def Let_def handle_def countDropped_def dropReasonForStatus_def)
    qed
  qed
  then show "rcv_guard r' = rcv_guard r" "rcv_feed r' = rcv_feed r" "status \<in> {405, 413, 400, 404, 401}"
    "r' = (if status = 405 then r else countDropped
      (if status = 413 then ''body_too_large'' else dropReasonForStatus status) r)" by blast+
qed

lemma ServeHTTP_authentic:
  assumes "authentic k ns w req"
  shows "ServeHTTP k ns js w clk r req =
    (let ev = req_Header req ''X-GitHub-Event'';
         (seen, guard) = Seen (rcv_guard r) (rc_guard clk) (req_Header req ''X-GitHub-Delivery'')
     in if seen then (200, countDropped ''replay'' (r\<lparr>rcv_guard := guard\<rparr>))
        else (let (err, feed) = Handle js (rcv_feed r) (rc_feed clk) ev
                    (req_Header req ''X-GitHub-Delivery'') (req_Body req);
                  r1 = r\<lparr>rcv_guard := guard, rcv_feed := feed\<rparr>
              in case err of
                   Some e \<Rightarrow> (500, countDropped ''malformed'' r1)
                 | None \<Rightarrow> (200, (if ev \<noteq> ''ping''
                      then observeLag ev (time_sub (rc_end clk) (rc_start clk)) (countEvent ev ''true'' r1)
                      else countEvent ev ''true'' r1))))"
proof -
  obtain app secret hexs
    where a: "req_Method req = ''POST''" "length (req_Body req) \<le> maxBodyBytes" "\<not> req_BodyFails req"
      "req_Header req ''X-GitHub-Event'' \<noteq> []" "req_Header req ''X-GitHub-Delivery'' \<noteq> []"
      and res: "Resolve k ns w (req_Header req ''X-GitHub-Hook-Installation-Target-ID'') = Inr (app, secret)"
      and sg: "req_Header req ''X-Hub-Signature-256'' = signaturePrefix @ hexs"
        "hex_decode hexs = Some (hmac_sha256 secret (req_Body req))"
    using assms by (auto simp: authentic_def)
  have v: "VerifySignature (req_Body req) (signaturePrefix @ hexs) secret = None"
    using sg VerifySignature_iff by blast
  have ne: "signaturePrefix @ hexs \<noteq> []" "req_Header req ''X-GitHub-Hook-Installation-Target-ID'' \<noteq> []"
    using res Resolve_empty [of k ns w] by (auto simp: signaturePrefix_def)
  show ?thesis
    using a ne v
    by (simp add: ServeHTTP_def handle_def Let_def res sg(1) dropReasonForStatus_def split: prod.split option.split)
qed

section \<open>Sequences of requests\<close>

type_synonym 'w delivery = "'w \<times> rclock \<times> http_request"

fun serve_all :: "('w, 'o) kube \<Rightarrow> string \<Rightarrow> webhook_json \<Rightarrow> 'w delivery list \<Rightarrow> receiver \<Rightarrow> receiver" where
  "serve_all k ns js [] r = r"
| "serve_all k ns js ((w, clk, req) # qs) r = serve_all k ns js qs (snd (ServeHTTP k ns js w clk r req))"

definition delivery_id :: "http_request \<Rightarrow> string" where
  "delivery_id req = req_Header req ''X-GitHub-Delivery''"

text \<open>The calls of the replay guard a sequence of requests makes.\<close>

definition guard_calls :: "('w, 'o) kube \<Rightarrow> string \<Rightarrow> 'w delivery list \<Rightarrow> (time \<times> string) list" where
  "guard_calls k ns qs =
     map (\<lambda>(w, clk, req). (rc_guard clk, delivery_id req)) (filter (\<lambda>(w, clk, req). authentic k ns w req) qs)"

text \<open>The event a delivery stands for, and the events of the deliveries the guard lets through.\<close>

definition event_of :: "webhook_json \<Rightarrow> time \<Rightarrow> string \<Rightarrow> string \<Rightarrow> feed_event option" where
  "event_of js now ev body =
     (if ev = ''push'' then
        (case decode_push js body of Inl _ \<Rightarrow> None | Inr p \<Rightarrow> Some (Push now (push_FullName p) (push_After p)))
      else if ev = ''workflow_job'' then
        (case decode_workflow_job js body of Inl _ \<Rightarrow> None
         | Inr p \<Rightarrow> if job_Action p = ''queued'' then Some (Job now (job_FullName p) (job_Labels p)) else None)
      else None)"

fun let_through :: "('w, 'o) kube \<Rightarrow> string \<Rightarrow> webhook_json \<Rightarrow> ReplayGuard \<Rightarrow> 'w delivery list \<Rightarrow> feed_event list" where
  "let_through k ns js g [] = []"
| "let_through k ns js g ((w, clk, req) # qs) =
     (if \<not> authentic k ns w req then let_through k ns js g qs
      else (let (seen, g) = Seen g (rc_guard clk) (delivery_id req) in
        (if seen then [] else
           (case event_of js (rc_feed clk) (req_Header req ''X-GitHub-Event'') (req_Body req) of
              None \<Rightarrow> [] | Some e \<Rightarrow> [e])) @ let_through k ns js g qs))"

lemma Handle_event:
  "snd (Handle js f now ev did body) =
     (case event_of js now ev body of None \<Rightarrow> f | Some e \<Rightarrow> run_events RecordPush RecordJob [e] f)"
  by (simp add: Handle_def event_of_def split: sum.split)

lemma countDropped_simps [simp]:
  "rcv_guard (countDropped x r) = rcv_guard r" "rcv_feed (countDropped x r) = rcv_feed r"
  "rcv_guard (countEvent e v r) = rcv_guard r" "rcv_feed (countEvent e v r) = rcv_feed r"
  "rcv_guard (observeLag e d r) = rcv_guard r" "rcv_feed (observeLag e d r) = rcv_feed r"
  by (simp_all add: countDropped_def countEvent_def observeLag_def Let_def)

lemma serve_guard:
  "rcv_guard (snd (ServeHTTP k ns js w clk r req)) =
     (if authentic k ns w req then snd (Seen (rcv_guard r) (rc_guard clk) (delivery_id req)) else rcv_guard r)"
proof (cases "authentic k ns w req")
  case True
  show ?thesis
    unfolding ServeHTTP_authentic [OF True] delivery_id_def using True
    by (simp add: Let_def split_beta split: option.split)
next
  case False
  then show ?thesis
    using ServeHTTP_rejected(1) [OF False, of js clk r _ "snd (ServeHTTP k ns js w clk r req)"]
    by (metis prod.collapse)
qed

lemma serve_feed:
  "rcv_feed (snd (ServeHTTP k ns js w clk r req)) =
     (if authentic k ns w req \<and> \<not> fst (Seen (rcv_guard r) (rc_guard clk) (delivery_id req))
      then snd (Handle js (rcv_feed r) (rc_feed clk) (req_Header req ''X-GitHub-Event'') (delivery_id req) (req_Body req))
      else rcv_feed r)"
proof (cases "authentic k ns w req")
  case True
  show ?thesis
    unfolding ServeHTTP_authentic [OF True] delivery_id_def using True
    by (simp add: Let_def split_beta split: option.split)
next
  case False
  then show ?thesis
    using ServeHTTP_rejected(2) [OF False, of js clk r _ "snd (ServeHTTP k ns js w clk r req)"]
    by (metis prod.collapse)
qed

lemma serve_all_guard: "rcv_guard (serve_all k ns js qs r) = snd (run_seen Seen (guard_calls k ns qs) (rcv_guard r))"
  by (induction k ns js qs r rule: serve_all.induct)
    (auto simp: guard_calls_def serve_guard Let_def split: prod.splits)

lemma run_events_append:
  "run_events push job (es @ es') f = run_events push job es' (run_events push job es f)"
  by (induction push job es f rule: run_events.induct) auto

lemma serve_all_feed:
  "rcv_feed (serve_all k ns js qs r) =
     run_events RecordPush RecordJob (let_through k ns js (rcv_guard r) qs) (rcv_feed r)"
proof (induction k ns js qs r rule: serve_all.induct)
  case (2 k ns js w clk req qs r)
  show ?case
    using 2 by (simp add: serve_guard serve_feed Handle_event Let_def split_beta run_events_append split: option.split)
qed simp

end
