(* ===== verification/Deliveries.thy ===== *)
theory Deliveries
  imports Receiver Memory_Cluster
begin

text \<open>What the webhook receiver guarantees: only signed deliveries of known apps have an effect, every
  request is accounted for once, a redelivery has no effect, and the event feed holds exactly the
  events that were let through.\<close>

section \<open>A signed delivery, for concrete instances\<close>

definition example_app :: GitHubApp where
  "example_app =
     \<lparr>gha_Name = ''app'', gha_Generation = 1,
      gha_Spec = \<lparr>app_AppID = 42,
        app_PrivateKeyRef = \<lparr>skr_Name = ''s'', skr_Key = ''pem'', skr_Namespace = []\<rparr>,
        app_WebhookSecretRef = \<lparr>skr_Name = ''s'', skr_Key = ''hook'', skr_Namespace = []\<rparr>,
        app_Ingress = \<lparr>ing_Mode = ''ingress'', ing_Hostname = [], ing_Tunnel = None\<rparr>\<rparr>,
      gha_Status = \<lparr>ast_Installations = [], ast_WebhookHealthy = False, ast_LastDelivery = None, ast_Conditions = []\<rparr>\<rparr>"

definition webhook_cluster :: cluster where
  "webhook_cluster =
     \<lparr>cl_objects = [], cl_policies = [],
      cl_secrets = [(\<lparr>nn_Name = ''s'', nn_Namespace = ''warmrunners-system''\<rparr>, [''hook'' \<mapsto> ''hush''])],
      cl_apps = [(\<lparr>nn_Name = ''app'', nn_Namespace = []\<rparr>, example_app)]\<rparr>"

definition example_json :: webhook_json where
  "example_json =
     \<lparr>decode_push = (\<lambda>_. Inl (Error False ''unused'')),
      decode_workflow_job = (\<lambda>body. if body = ''{}'' then
        Inr \<lparr>job_Action = ''queued'', job_Labels = Some [''gpu''], job_RunID = 1, job_FullName = ''o/r''\<rparr>
        else Inl (Error False ''bad json''))\<rparr>"

definition signed_request :: "string \<Rightarrow> string \<Rightarrow> http_request" where
  "signed_request did body =
     \<lparr>req_Method = ''POST'', req_Body = body, req_BodyFails = False,
      req_Header = (\<lambda>h. if h = ''X-GitHub-Event'' then ''workflow_job''
        else if h = ''X-GitHub-Delivery'' then did
        else if h = ''X-Hub-Signature-256'' then signaturePrefix @ hex_encode (hmac_sha256 ''hush'' body)
        else if h = ''X-GitHub-Hook-Installation-Target-ID'' then ''42'' else [])\<rparr>"

definition new_receiver :: "int \<Rightarrow> duration \<Rightarrow> receiver" where
  "new_receiver cap ttl =
     \<lparr>rcv_guard = NewReplayGuard cap ttl, rcv_feed = NewInMemoryEventFeed,
      rcv_metrics = \<lparr>EventsTotal = (\<lambda>_. 0), DeliveriesDropped = (\<lambda>_. 0), LagSeconds = []\<rparr>\<rparr>"

definition at :: "time \<Rightarrow> rclock" where
  "at t = \<lparr>rc_start = t, rc_guard = t, rc_feed = t, rc_end = t\<rparr>"

lemma example_resolve: "Resolve memory [] webhook_cluster ''42'' = Inr (example_app, ''hush'')"
proof -
  have "parse_int64 ''42'' = Some 42" by code_simp
  then show ?thesis
    by (simp add: Resolve_def memory_def webhook_cluster_def example_app_def mem_get_def defaultAppLookupNamespace_def)
qed

lemma signed_authentic:
  assumes "did \<noteq> []" "length body \<le> maxBodyBytes"
  shows "authentic memory [] webhook_cluster (signed_request did body)"
  using assms example_resolve by (simp add: authentic_def signed_request_def)

section \<open>Properties\<close>

text \<open>C20. \<open>VerifySignature\<close> accepts a header exactly when it is \<open>sha256=\<close> followed by hexadecimal digits
  (in either case) of the HMAC-SHA256 of the body under the secret, 32 bytes; it accepts the header
  GitHub sends; and it tells a missing header from a wrong one.\<close>

theorem verify_accepts_exactly_the_hmac:
  "(VerifySignature body h secret = None \<longleftrightarrow>
      (\<exists>hexs. h = signaturePrefix @ hexs \<and> hex_decode hexs = Some (hmac_sha256 secret body)))
   \<and> VerifySignature body (signaturePrefix @ hex_encode (hmac_sha256 secret body)) secret = None
   \<and> length (hmac_sha256 secret body) = 32
   \<and> (VerifySignature body h secret = Some ErrMissingSignature \<longleftrightarrow> h = [])"
proof -
  have "VerifySignature body h secret = Some ErrMissingSignature \<longleftrightarrow> h = []"
    by (auto simp: VerifySignature_def Let_def ErrMissingSignature_def ErrInvalidSignature_def
        split: if_splits option.splits)
  then show ?thesis using VerifySignature_iff length_hmac by auto
qed

text \<open>C16. Only signed deliveries of a known app reach the state. If a request over HTTP changed the replay
  guard or the event feed, then it was a POST of at most 1 MiB that carried an event type and a
  delivery ID, the app it names is known, and its signature is the HMAC of its body under that
  app's secret.\<close>

theorem only_signed_deliveries_have_effect:
  assumes "ServeHTTP k ns js w clk r req = (status, r')"
    and "rcv_guard r' \<noteq> rcv_guard r \<or> rcv_feed r' \<noteq> rcv_feed r"
  shows "req_Method req = ''POST'' \<and> length (req_Body req) \<le> 2 ^ 20
    \<and> req_Header req ''X-GitHub-Event'' \<noteq> [] \<and> req_Header req ''X-GitHub-Delivery'' \<noteq> []
    \<and> (\<exists>app secret. Resolve k ns w (req_Header req ''X-GitHub-Hook-Installation-Target-ID'') = Inr (app, secret)
         \<and> VerifySignature (req_Body req) (req_Header req ''X-Hub-Signature-256'') secret = None)"
proof -
  have "authentic k ns w req" using ServeHTTP_rejected(1,2) [OF _ assms(1)] assms(2) by blast
  then show ?thesis using VerifySignature_iff unfolding authentic_def maxBodyBytes_def by blast
qed

theorem only_signed_deliveries_witness:
  "\<exists>status r'. ServeHTTP memory [] example_json webhook_cluster (at 5) (new_receiver 8 60) (signed_request ''d1'' ''{}'')
       = (status, r') \<and> rcv_feed r' \<noteq> rcv_feed (new_receiver 8 60)
     \<and> VerifySignature ''{}'' (req_Header (signed_request ''d1'' ''{}'') ''X-Hub-Signature-256'') ''hush'' = None"
proof -
  let ?q = "signed_request ''d1'' ''{}''" and ?r = "new_receiver 8 60"
  obtain status r' where run: "ServeHTTP memory [] example_json webhook_cluster (at 5) ?r ?q = (status, r')" by force
  have au: "authentic memory [] webhook_cluster ?q" by (rule signed_authentic) (simp_all add: maxBodyBytes_def)
  have "rcv_feed r' = snd (Handle example_json NewInMemoryEventFeed 5 ''workflow_job'' ''d1'' ''{}'')"
    using serve_feed [of memory "[]" example_json webhook_cluster "at 5" ?r ?q] run au
    by (simp add: new_receiver_def Seen_def NewReplayGuard_def at_def signed_request_def delivery_id_def)
  moreover have "feed_repos (snd (Handle example_json NewInMemoryEventFeed 5 ''workflow_job'' ''d1'' ''{}'')) ''o/r'' \<noteq> None"
    "feed_repos NewInMemoryEventFeed ''o/r'' = None" by code_simp+
  ultimately have ne: "rcv_feed r' \<noteq> rcv_feed ?r" unfolding new_receiver_def by (metis receiver.select_convs(2))
  have b: "req_Body ?q = ''{}''" "req_Header ?q ''X-GitHub-Hook-Installation-Target-ID'' = ''42''"
    by (simp_all add: signed_request_def)
  show ?thesis
    using only_signed_deliveries_have_effect [OF run] ne run example_resolve unfolding b by auto
qed

definition one_more_dropped :: "string \<Rightarrow> receiver \<Rightarrow> receiver \<Rightarrow> bool" where
  "one_more_dropped reason r r' \<longleftrightarrow>
     EventsTotal (rcv_metrics r') = EventsTotal (rcv_metrics r)
     \<and> DeliveriesDropped (rcv_metrics r') = (DeliveriesDropped (rcv_metrics r))
         (reason := Suc (DeliveriesDropped (rcv_metrics r) reason))"

definition one_more_event :: "string \<Rightarrow> receiver \<Rightarrow> receiver \<Rightarrow> bool" where
  "one_more_event ev r r' \<longleftrightarrow>
     DeliveriesDropped (rcv_metrics r') = DeliveriesDropped (rcv_metrics r)
     \<and> EventsTotal (rcv_metrics r') = (EventsTotal (rcv_metrics r))
         ((ev, ''true'') := Suc (EventsTotal (rcv_metrics r) (ev, ''true'')))"


text \<open>C18. A redelivery has no effect. After a delivery was let through at time \<open>t\<close>, a request with the same
  delivery ID that arrives within the TTL leaves the event feed and the guard as they are, whatever
  requests came in between, as long as fewer than \<open>size\<close> of those brought new IDs.\<close>

theorem redelivery_has_no_effect:
  assumes "guard_invar (rcv_guard r)" "authentic k ns w req"
    and "fst (Seen (rcv_guard r) t (delivery_id req)) = False" "t = rc_guard clk"
    and "r1 = snd (ServeHTTP k ns js w clk r req)" "r2 = serve_all k ns js qs r1"
    and "\<forall>t'. (t', delivery_id req) \<in> set (guard_calls k ns qs) \<longrightarrow> time_sub t' t \<le> guard_ttl (rcv_guard r)"
    and "int (length (filter Not (fst (run_seen Seen (guard_calls k ns qs) (rcv_guard r1))))) < guard_size (rcv_guard r)"
    and "delivery_id req' = delivery_id req" "time_sub (rc_guard clk') t \<le> guard_ttl (rcv_guard r)"
  shows "rcv_feed (snd (ServeHTTP k ns js w' clk' r2 req')) = rcv_feed r2
    \<and> rcv_guard (snd (ServeHTTP k ns js w' clk' r2 req')) = rcv_guard r2"
proof -
  let ?cs = "guard_calls k ns qs"
  have s: "Seen (rcv_guard r) t (delivery_id req) = (False, rcv_guard r1)"
    using serve_guard [of k ns js w clk r req] assms(2-5) by (metis prod.collapse)
  have g2: "run_seen Seen ?cs (rcv_guard r1) = (fst (run_seen Seen ?cs (rcv_guard r1)), rcv_guard r2)"
    using serve_all_guard [of k ns js qs r1] assms(6) by simp
  have "Seen (rcv_guard r2) (rc_guard clk') (delivery_id req) = (True, rcv_guard r2)"
    using guard.replay_detected [OF assms(1) s g2 _ assms(8,10)] assms(7) by blast
  then show ?thesis
    using assms(9) by (simp add: serve_feed serve_guard)
qed

theorem redelivery_witness:
  "let r1 = snd (ServeHTTP memory [] example_json webhook_cluster (at 5) (new_receiver 8 60) (signed_request ''d1'' ''{}''));
       r2 = serve_all memory [] example_json [(webhook_cluster, at 6, signed_request ''d2'' ''{}'')] r1
   in rcv_feed (snd (ServeHTTP memory [] example_json webhook_cluster (at 9) r2 (signed_request ''d1'' ''{}''))) = rcv_feed r2"
proof -
  let ?q = "signed_request ''d1'' ''{}''" and ?r = "new_receiver 8 60" and ?qs = "[(webhook_cluster, at 6, signed_request ''d2'' ''{}'')]"
  let ?r1 = "snd (ServeHTTP memory [] example_json webhook_cluster (at 5) ?r ?q)"
  have au: "authentic memory [] webhook_cluster (signed_request d ''{}'')" if "d \<noteq> []" for d
    using that by (intro signed_authentic) (simp_all add: maxBodyBytes_def)
  have gi: "guard_invar (rcv_guard ?r)" by (simp add: new_receiver_def NewReplayGuard_invar(1))
  have first: "fst (Seen (rcv_guard ?r) 5 (delivery_id ?q)) = False"
    by (simp add: new_receiver_def Seen_def NewReplayGuard_def)
  have calls: "guard_calls memory [] ?qs = [(6, ''d2'')]"
    using au [of "''d2''"] by (simp add: guard_calls_def at_def signed_request_def delivery_id_def)
  have "length (filter Not (fst (run_seen Seen [(6, ''d2'')] g))) \<le> 1" for g
    by (simp add: Let_def split_beta)
  moreover have "guard_size (rcv_guard ?r) = 8" by (simp add: new_receiver_def NewReplayGuard_def)
  ultimately have few: "int (length (filter Not (fst (run_seen Seen (guard_calls memory [] ?qs) (rcv_guard ?r1)))))
      < guard_size (rcv_guard ?r)"
    unfolding calls by (smt (verit) of_nat_le_iff of_nat_1)
  have ttl: "guard_ttl (rcv_guard ?r) = 60" by (simp add: new_receiver_def NewReplayGuard_def)
  have "\<forall>t'. (t', delivery_id ?q) \<in> set (guard_calls memory [] ?qs) \<longrightarrow> time_sub t' 5 \<le> guard_ttl (rcv_guard ?r)"
    unfolding calls by (simp add: delivery_id_def signed_request_def)
  moreover have "time_sub (rc_guard (at 9)) 5 \<le> guard_ttl (rcv_guard ?r)" "5 = rc_guard (at 5)"
    unfolding ttl by (simp_all add: at_def time_sub_def min_duration_def max_duration_def)
  ultimately show ?thesis
    using redelivery_has_no_effect [OF gi au first _ refl refl _ few refl, of "at 9" webhook_cluster] by simp
qed

text \<open>C17. From a new receiver, after any sequence of requests (the cluster may change between them), the
  snapshot of a repository in the event feed is exactly what the deliveries let through amount to:
  for each label key the number of queued jobs among them, and the time of the last one that was
  recorded. A delivery is let through when it is signed and the replay guard has not seen it.\<close>

theorem feed_holds_deliveries_let_through:
  "let r = serve_all k ns js qs (new_receiver cap ttl);
       es = let_through k ns js (NewReplayGuard cap ttl) qs;
       (per, t) = Snapshot (rcv_feed r) repo
   in count_of per key = jobs_recorded es repo key \<and> t = last_recorded es repo"
  using feed.history [of "let_through k ns js (NewReplayGuard cap ttl) qs" repo key]
  by (simp add: serve_all_feed new_receiver_def Let_def split_beta)

section \<open>Where deliveries are lost or trusted\<close>

text \<open>The ID is recorded before the dispatch. When the dispatch fails, GitHub's redelivery of the same ID
  is taken for a replay: answered with 200 and dropped.\<close>

lemma failed_dispatch_is_not_retried:
  assumes "guard_invar (rcv_guard r)" "authentic k ns w req" "authentic k ns w' req'"
    and "delivery_id req' = delivery_id req" "0 < guard_size (rcv_guard r)"
    and "fst (Seen (rcv_guard r) (rc_guard clk) (delivery_id req)) = False"
    and "time_sub (rc_guard clk') (rc_guard clk) \<le> guard_ttl (rcv_guard r)"
    and "ServeHTTP k ns js w clk r req = (500, r1)"
  shows "fst (ServeHTTP k ns js w' clk' r1 req') = 200
    \<and> rcv_feed (snd (ServeHTTP k ns js w' clk' r1 req')) = rcv_feed r1"
proof -
  have s: "Seen (rcv_guard r) (rc_guard clk) (delivery_id req) = (False, rcv_guard r1)"
    using serve_guard [of k ns js w clk r req] assms(2,6,8) by (metis prod.collapse snd_conv)
  have "Seen (rcv_guard r1) (rc_guard clk') (delivery_id req) = (True, rcv_guard r1)"
    using guard.replay_detected [OF assms(1) s, of "[]" "[]" "rcv_guard r1"] assms(5,7) by simp
  then show ?thesis
    using assms(4) unfolding ServeHTTP_authentic [OF assms(3)] delivery_id_def by (simp add: Let_def)
qed

text \<open>A frame from the tunnel needs no signature.\<close>

lemma unsigned_frame_is_dispatched:
  "let headers = (\<lambda>h. if h = ''X-GitHub-Event'' then ''workflow_job''
         else if h = ''X-GitHub-Delivery'' then ''d1''
         else if h = ''X-GitHub-Hook-Installation-Target-ID'' then ''42'' else []);
       (err, r') = HandleFrame memory [] example_json webhook_cluster (at 5) (new_receiver 8 60) headers ''{}''
   in err = None \<and> Snapshot (rcv_feed r') ''o/r'' = ([(''gpu'', 1)], 5)"
  by code_simp

text \<open>Counts are never taken back. However long ago the jobs were queued, one push makes the feed fresh
  again with all of them: here a job recorded at time 5 and a push a day later.\<close>

lemma old_jobs_count_after_push:
  "Snapshot (RecordPush (RecordJob NewInMemoryEventFeed 5 ''o/r'' (Some [''gpu''])) (5 + 86400 * second) ''o/r'' ''sha'') ''o/r''
     = ([(''gpu'', 1)], 5 + 86400 * second)"
  by code_simp

text \<open>A push alone makes the feed fresh without any job.\<close>

lemma push_alone_counts_nothing:
  "Snapshot (RecordPush NewInMemoryEventFeed 7 ''o/r'' ''sha'') ''o/r'' = ([], 7)"
  by code_simp

end
