(* ===== verification/Http.thy ===== *)
theory Http
  imports Strconv
begin

text \<open>
  The GitHub API as the program sees it: requests, responses, escaping of URLs, waiting, and the
  rate-limit gauges of \<open>internal/ghapi/ratelimit.go\<close>.

  Everything outside the process is a parameter of the model (record \<open>outside\<close>): how GitHub answers
  a request, whether a wait is cut short by the context, the random source, the clock and whether a
  URL can be parsed at all. Each may depend on everything that happened before, the log of requests
  and waits, so that nothing is assumed about the other side: it may fail, change its mind and
  answer the same request differently. What a property needs to know of it is one of its hypotheses.

  Header names are kept as the code spells them (\<open>http.Header\<close> folds their case), and the gauges hold
  integers where Prometheus keeps the nearest \<open>float64\<close>.
\<close>

section \<open>Requests and responses\<close>

type_synonym headers = "(string, string) gomap"

record request =
  rq_URL :: string
  rq_Header :: headers

text \<open>\<open>rp_Body\<close> is what \<open>io.ReadAll(resp.Body)\<close> gives.\<close>

record response =
  rp_StatusCode :: int
  rp_Status :: string
  rp_Header :: headers
  rp_Body :: "error + string"

definition header_get :: "headers \<Rightarrow> string \<Rightarrow> string" where
  "header_get h name = (case map_of h name of None \<Rightarrow> [] | Some v \<Rightarrow> v)"

definition header_set :: "string \<Rightarrow> string \<Rightarrow> headers \<Rightarrow> headers" where
  "header_set name v h = AList.update name v h"

datatype net_event =
    Sent request "error + response"
  | Slept duration "error option"

fun is_sent :: "net_event \<Rightarrow> bool" where
  "is_sent (Sent _ _) = True"
| "is_sent (Slept _ _) = False"

record outside =
  out_Do :: "net_event list \<Rightarrow> request \<Rightarrow> error + response"
  out_ctx :: "net_event list \<Rightarrow> duration \<Rightarrow> error option"
  out_rand :: "net_event list \<Rightarrow> int \<Rightarrow> int"
  out_now :: "net_event list \<Rightarrow> time"
  out_NewRequest :: "string \<Rightarrow> error option"

text \<open>\<open>rand.Int63n(n)\<close> for a positive \<open>n\<close>.\<close>

definition rand_ok :: "outside \<Rightarrow> bool" where
  "rand_ok out \<longleftrightarrow> (\<forall>log n. 0 < n \<longrightarrow> 0 \<le> out_rand out log n \<and> out_rand out log n < n)"

record api =
  api_log :: "net_event list"
  rateLimitRemaining :: "string \<rightharpoonup> int"
  rateLimitResetSeconds :: "string \<rightharpoonup> int"

text \<open>The body of a readable 200 answer.\<close>

definition readable_ok :: "error + response \<Rightarrow> string option" where
  "readable_ok res = (case res of Inl _ \<Rightarrow> None
     | Inr resp \<Rightarrow> if rp_StatusCode resp = 200 then (case rp_Body resp of Inl _ \<Rightarrow> None | Inr body \<Rightarrow> Some body) else None)"

definition client_Do :: "outside \<Rightarrow> request \<Rightarrow> api \<Rightarrow> (error + response) \<times> api" where
  "client_Do out req s =
     (let r = out_Do out (api_log s) req in (r, s\<lparr>api_log := api_log s @ [Sent req r]\<rparr>))"

text \<open>The select of \<open>sleepCtx\<close>: the timer fires (\<open>None\<close>), or the context ends first with its error.\<close>

definition sleep_select :: "outside \<Rightarrow> duration \<Rightarrow> api \<Rightarrow> error option \<times> api" where
  "sleep_select out d s =
     (let e = out_ctx out (api_log s) d in (e, s\<lparr>api_log := api_log s @ [Slept d e]\<rparr>))"

section \<open>Rate-limit gauges\<close>

definition SourceDemand :: string where "SourceDemand = ''demand''"
definition SourceWorkflow :: string where "SourceWorkflow = ''workflow''"

text \<open>The value a header sets a gauge to, when it is present and a number.\<close>

definition header_number :: "headers \<Rightarrow> string \<Rightarrow> int option" where
  "header_number h name =
     (let v = trim_space (header_get h name) in if v \<noteq> [] then parse_int64 v else None)"

definition RecordRateLimit :: "string \<Rightarrow> headers \<Rightarrow> api \<Rightarrow> api" where
  "RecordRateLimit source h s =
     (let s = (case header_number h ''X-RateLimit-Remaining'' of
                 Some n \<Rightarrow> s\<lparr>rateLimitRemaining := (rateLimitRemaining s)(source \<mapsto> n)\<rparr>
               | None \<Rightarrow> s)
      in case header_number h ''X-RateLimit-Reset'' of
           Some n \<Rightarrow> s\<lparr>rateLimitResetSeconds := (rateLimitResetSeconds s)(source \<mapsto> n)\<rparr>
         | None \<Rightarrow> s)"

section \<open>Escaping\<close>

text \<open>The bytes \<open>url.PathEscape\<close> and \<open>url.QueryEscape\<close> leave alone.\<close>

definition url_unreserved :: "char \<Rightarrow> bool" where
  "url_unreserved c \<longleftrightarrow>
     digit_between (CHR ''a'') (CHR ''z'') c \<or> digit_between (CHR ''A'') (CHR ''Z'') c
     \<or> is_digit c \<or> c \<in> {CHR ''-'', CHR ''_'', CHR ''.'', CHR ''~''}"

definition path_literal :: "char \<Rightarrow> bool" where
  "path_literal c \<longleftrightarrow>
     url_unreserved c \<or> c \<in> {CHR ''$'', CHR ''&'', CHR ''+'', CHR ''='', CHR '':'', CHR ''@''}"

definition upper_hex :: "nat \<Rightarrow> char" where
  "upper_hex d = (if d < 10 then char_of (48 + d) else char_of (55 + d))"

definition percent :: "char \<Rightarrow> string" where
  "percent c = [CHR ''%'', upper_hex (of_char c div 16), upper_hex (of_char c mod 16)]"

definition PathEscape :: "string \<Rightarrow> string" where
  "PathEscape s = concat (map (\<lambda>c. if path_literal c then [c] else percent c) s)"

definition QueryEscape :: "string \<Rightarrow> string" where
  "QueryEscape s =
     concat (map (\<lambda>c. if url_unreserved c then [c] else if c = CHR '' '' then ''+'' else percent c) s)"

section \<open>Dates\<close>

definition leap_year :: "int \<Rightarrow> bool" where
  "leap_year y \<longleftrightarrow> y mod 4 = 0 \<and> (y mod 100 \<noteq> 0 \<or> y mod 400 = 0)"

text \<open>Year and day of the year (both from the start of year 1) of a day number.\<close>

definition year_day :: "int \<Rightarrow> int \<times> int" where
  "year_day d =
     (let n400 = d div 146097; d = d mod 146097;
          n100 = min 3 (d div 36524); d = d - 36524 * n100;
          n4 = d div 1461; d = d mod 1461;
          n1 = min 3 (d div 365)
      in (400 * n400 + 100 * n100 + 4 * n4 + n1 + 1, d - 365 * n1))"

fun month_day :: "int list \<Rightarrow> int \<Rightarrow> int \<Rightarrow> int \<times> int" where
  "month_day [] m d = (m, d + 1)"
| "month_day (n # ns) m d = (if d < n then (m, d + 1) else month_day ns (m + 1) (d - n))"

definition civil :: "int \<Rightarrow> int \<times> int \<times> int" where
  "civil d =
     (let (y, yd) = year_day d;
          feb = (if leap_year y then 29 else 28)
      in (y, month_day [31, feb, 31, 30, 31, 30, 31, 31, 30, 31, 30, 31] 1 yd))"

definition padded :: "nat \<Rightarrow> int \<Rightarrow> string" where
  "padded n v = (let s = show_nat (nat v) in replicate (n - length s) (CHR ''0'') @ s)"

text \<open>\<open>t.UTC().Format(time.RFC3339)\<close> for instants from the start of year 1 on.\<close>

definition format_rfc3339 :: "time \<Rightarrow> string" where
  "format_rfc3339 t =
     (let secs = t div second; day = secs div 86400; sod = secs mod 86400;
          (y, m, d) = civil day
      in padded 4 y @ ''-'' @ padded 2 m @ ''-'' @ padded 2 d @ ''T''
         @ padded 2 (sod div 3600) @ '':'' @ padded 2 (sod div 60 mod 60) @ '':'' @ padded 2 (sod mod 60)
         @ ''Z'')"

text \<open>A plain answer, and the API before anything happened.\<close>

definition answer :: "int \<Rightarrow> string \<Rightarrow> headers \<Rightarrow> error + response" where
  "answer code body h = Inr \<lparr>rp_StatusCode = code, rp_Status = show_int code, rp_Header = h, rp_Body = Inr body\<rparr>"

definition new_api :: api where
  "new_api = \<lparr>api_log = [], rateLimitRemaining = Map.empty, rateLimitResetSeconds = Map.empty\<rparr>"

section \<open>Lemmas\<close>

named_theorems api_frame \<open>how the operations on the API state change the log\<close>

lemma client_Do_log [api_frame]:
  "client_Do out req s = (r, s') \<Longrightarrow>
    r = out_Do out (api_log s) req \<and> api_log s' = api_log s @ [Sent req r]"
  by (auto simp: client_Do_def Let_def)

lemma sleep_select_log [api_frame]:
  "sleep_select out d s = (e, s') \<Longrightarrow> api_log s' = api_log s @ [Slept d e]"
  by (auto simp: sleep_select_def Let_def)

lemma RecordRateLimit_log [simp, api_frame]: "api_log (RecordRateLimit src h s) = api_log s"
  by (simp add: RecordRateLimit_def Let_def split: option.splits)

text \<open>What an escaped segment consists of, so that segments of a URL cannot run into each other.\<close>

lemma digit_between_range: "digit_between lo hi c \<longleftrightarrow> (of_char lo :: nat) \<le> of_char c \<and> (of_char c :: nat) \<le> of_char hi"
  by (simp add: digit_between_def less_eq_char_def)

lemma upper_hex_unreserved: "d < 16 \<Longrightarrow> url_unreserved (upper_hex d)"
  by (auto simp: url_unreserved_def upper_hex_def is_digit_def digit_between_range)

lemma nibbles: "of_char (c :: char) div 16 < (16 :: nat)" "of_char (c :: char) mod 16 < (16 :: nat)"
proof -
  have "of_char c < (256 :: nat)" by simp
  then show "of_char c div 16 < (16 :: nat)" by (simp add: div_less_iff_less_mult)
qed simp

lemma PathEscape_bytes: "\<forall>c \<in> set (PathEscape s). path_literal c \<or> c = CHR ''%''"
  using upper_hex_unreserved nibbles by (auto simp: PathEscape_def percent_def path_literal_def)

lemma PathEscape_no_slash: "CHR ''/'' \<notin> set (PathEscape s)" "CHR ''?'' \<notin> set (PathEscape s)"
  using PathEscape_bytes [of s]
  by (auto simp: path_literal_def url_unreserved_def is_digit_def digit_between_range)

end
