(* ===== verification/Retry.thy ===== *)
theory Retry
  imports Http
begin

text \<open>
  Retry loops. The workflow fetcher and the demand poller each have the same loop around one attempt: an
  attempt ends the call or asks for another one, up to a limit. \<open>retryLoop\<close> is that loop, and the locale
  \<open>retry_client\<close> says what an attempt may put into the API log; from it follows what the whole loop may.
  Theories Fetcher and Poller interpret the locale on their attempts.
\<close>

section \<open>The loop\<close>

datatype 'r outcome = Done "error + 'r" | Again error

text \<open>After a wait: the context's error ends the call, otherwise there is another attempt.\<close>

definition waited :: "error option \<times> api \<Rightarrow> error \<Rightarrow> 'r outcome \<times> api" where
  "waited w lastErr = (case w of (Some err, s) \<Rightarrow> (Done (Inl err), s) | (None, s) \<Rightarrow> (Again lastErr, s))"

lemma waited_cases:
  assumes "waited w lastErr = (r, t)"
  obtains e where "w = (Some e, t)" "r = Done (Inl e)" | "w = (None, t)" "r = Again lastErr"
  using assms by (auto simp: waited_def split: prod.splits option.splits)

text \<open>\<open>none\<close> is the error that is reported when no attempt has left one.\<close>

function retryLoop ::
  "(nat \<Rightarrow> 's \<Rightarrow> 'r outcome \<times> 's) \<Rightarrow> nat \<Rightarrow> error \<Rightarrow> error option \<Rightarrow> nat \<Rightarrow> 's \<Rightarrow> (error + 'r) \<times> 's" where
  "retryLoop attempt limit none lastErr n s =
     (if n \<le> limit then
        (case attempt n s of
           (Done r, s) \<Rightarrow> (r, s)
         | (Again err, s) \<Rightarrow> retryLoop attempt limit none (Some err) (n + 1) s)
      else (Inl (case lastErr of Some e \<Rightarrow> e | None \<Rightarrow> none), s))"
  by pat_completeness auto
termination
  by (relation "measure (\<lambda>(attempt, limit, none, lastErr, n, s). Suc limit - n)") auto

declare retryLoop.simps [simp del]

lemma retryLoop_done: "n \<le> limit \<Longrightarrow> attempt n s = (Done r, t) \<Longrightarrow> retryLoop attempt limit none lastErr n s = (r, t)"
  by (simp add: retryLoop.simps)

lemma retryLoop_again:
  "n \<le> limit \<Longrightarrow> attempt n s = (Again err, t) \<Longrightarrow>
    retryLoop attempt limit none lastErr n s = retryLoop attempt limit none (Some err) (Suc n) t"
  by (simp add: retryLoop.simps [of attempt limit none lastErr n s])

lemma retryLoop_stop: "limit < n \<Longrightarrow> \<exists>e. retryLoop attempt limit none lastErr n s = (Inl e, s)"
  by (simp add: retryLoop.simps)

text \<open>Anything an attempt establishes when it ends, and keeps when it asks for another, the loop
  establishes.\<close>

lemma retryLoop_induct [consumes 2, case_names again finish stop]:
  assumes "retryLoop attempt limit none lastErr n s = (r, t)" "I s"
    and again: "\<And>n s err t. I s \<Longrightarrow> n \<le> limit \<Longrightarrow> attempt n s = (Again err, t) \<Longrightarrow> I t"
    and finish: "\<And>n s r t. I s \<Longrightarrow> n \<le> limit \<Longrightarrow> attempt n s = (Done r, t) \<Longrightarrow> P r t"
    and stop: "\<And>s e. I s \<Longrightarrow> P (Inl e) s"
  shows "P r t"
  using assms(1,2)
proof (induction "Suc limit - n" arbitrary: n s lastErr)
  case 0
  then show ?case using stop retryLoop_stop [of limit n attempt none lastErr s] by auto
next
  case (Suc k)
  then have n: "n \<le> limit" by linarith
  obtain o' s' where at: "attempt n s = (o', s')" by force
  show ?case
  proof (cases o')
    case (Done r')
    then show ?thesis using Suc.prems n at finish by (simp add: retryLoop_done)
  next
    case (Again err)
    have "k = Suc limit - Suc n" using Suc.hyps(2) by simp
    then show ?thesis
      using Suc.hyps(1) [of "Suc n" "Some err" s'] Suc.prems n at Again again by (simp add: retryLoop_again)
  qed
qed

section \<open>Backoff\<close>

text \<open>The capped exponential delay with jitter that both clients compute does not overflow and stays
  within the cap, for a base delay of at most the cap and a cap of at most a minute.\<close>

lemma backoff_range:
  fixes b cap j d1 d2 d3 :: int
  assumes "0 < b" "b \<le> cap" "cap \<le> 60 * second" "n \<le> 3" "0 \<le> j" "j < b"
    and d1: "d1 = to_int64 (b * 2 ^ n)" and d2: "d2 = (if d1 > cap \<or> d1 \<le> 0 then cap else d1)"
    and d3: "d3 = to_int64 (d2 + j)"
  shows "0 < (if d3 > cap then cap else d3)" "(if d3 > cap then cap else d3) \<le> cap"
proof -
  have cap: "cap \<le> 60000000000" using assms(3) by (simp add: second_def)
  have "(2 :: int) ^ n \<le> 2 ^ 3" using assms(4) by (intro power_increasing) simp_all
  then have "b * 2 ^ n \<le> 60000000000 * 8" using assms(1,2) cap by (intro mult_mono) simp_all
  moreover have "0 < b * 2 ^ n" using assms(1) by simp
  ultimately have "d1 = b * 2 ^ n" unfolding d1 by (intro to_int64_id) simp_all
  then have "0 < d2" "d2 \<le> cap" using assms(1,2) by (auto simp: d2)
  then have "d3 = d2 + j" unfolding d3 using assms(2,5,6) cap by (intro to_int64_id) simp_all
  then show "0 < (if d3 > cap then cap else d3)" "(if d3 > cap then cap else d3) \<le> cap"
    using \<open>0 < d2\<close> assms(1,2,5) by auto
qed

section \<open>Traces\<close>

text \<open>A trace of requests and waits in which every request but the last is followed by one wait that is
  \<open>ok\<close> for its answer, unless the answer was \<open>hard\<close>; a wait that the context cut short ends the trace.\<close>

fun polite :: "(error + response \<Rightarrow> duration \<Rightarrow> bool) \<Rightarrow> (error + response \<Rightarrow> bool) \<Rightarrow> net_event list \<Rightarrow> bool" where
  "polite ok hard [] = True"
| "polite ok hard [Sent q r] = True"
| "polite ok hard (Sent q r # Sent q' r' # es) \<longleftrightarrow> hard r \<and> polite ok hard (Sent q' r' # es)"
| "polite ok hard (Sent q r # Slept d e # es) \<longleftrightarrow> ok r d \<and> (e \<noteq> None \<longrightarrow> es = []) \<and> polite ok hard es"
| "polite ok hard (Slept d e # es) = False"

lemma polite_again: "hard r \<Longrightarrow> polite ok hard es \<Longrightarrow> polite ok hard (Sent q r # es)"
  by (cases "(ok, hard, es)" rule: polite.cases) auto

text \<open>What one attempt may add to the log \<open>old\<close>: nothing, a request, or a request and a wait.\<close>

definition attempt_ok ::
  "(error + response \<Rightarrow> duration \<Rightarrow> bool) \<Rightarrow> (error + response \<Rightarrow> bool) \<Rightarrow> nat \<Rightarrow> nat \<Rightarrow> request \<Rightarrow>
    net_event list \<Rightarrow> 'r outcome \<Rightarrow> net_event list \<Rightarrow> bool" where
  "attempt_ok ok hard limit n req old r new \<longleftrightarrow> (case r of
     Done _ \<Rightarrow> new = old \<or> (\<exists>res. new = old @ [Sent req res])
       \<or> (\<exists>res d e. new = old @ [Sent req res, Slept d (Some e)] \<and> ok res d)
   | Again _ \<Rightarrow> (\<exists>res. new = old @ [Sent req res] \<and> (n = limit \<or> hard res))
       \<or> (\<exists>res d. new = old @ [Sent req res, Slept d None] \<and> ok res d))"

lemma attempt_ok_done: "new = old \<or> new = old @ [Sent req res] \<Longrightarrow> attempt_ok ok hard limit n req old (Done r) new"
  by (auto simp: attempt_ok_def)

lemma attempt_ok_again:
  "new = old @ [Sent req res] \<Longrightarrow> n = limit \<or> hard res \<Longrightarrow> attempt_ok ok hard limit n req old (Again err) new"
  by (auto simp: attempt_ok_def)

lemma attempt_ok_waited:
  assumes "(case waited w err of (r, s) \<Rightarrow> (r, c, s)) = (r, g, t)" "api_log v = old @ [Sent req res]"
    and wait: "\<And>e t. w = (e, t) \<Longrightarrow> \<exists>d. api_log t = api_log v @ [Slept d e] \<and> ok res d"
  shows "attempt_ok ok hard limit n req old r (api_log t)"
proof -
  have "waited w err = (r, t)" using assms(1) by (auto split: prod.splits)
  then show ?thesis
  proof (rule waited_cases)
    fix e assume "w = (Some e, t)" "r = Done (Inl e)"
    then show ?thesis using wait assms(2) by (fastforce simp: attempt_ok_def)
  next
    assume "w = (None, t)" "r = Again err"
    then show ?thesis using wait assms(2) by (fastforce simp: attempt_ok_def)
  qed
qed

text \<open>The answer to a rate limit: a wait if it says how long, else the next attempt at once.\<close>

lemma attempt_ok_limited:
  assumes "(if \<not> retryable \<or> n = limit then (Again err, c, v) else case waited w err of (r, s) \<Rightarrow> (r, c, s)) = (r, g, t)"
    and log: "api_log v = old @ [Sent req res]" and "\<not> retryable \<Longrightarrow> hard res"
    and "\<And>e t. retryable \<Longrightarrow> w = (e, t) \<Longrightarrow> \<exists>d. api_log t = api_log v @ [Slept d e] \<and> ok res d"
  shows "attempt_ok ok hard limit n req old r (api_log t)"
proof (cases "\<not> retryable \<or> n = limit")
  case True
  then have "r = Again err" "t = v" "n = limit \<or> hard res" using assms(1,3) by auto
  then show ?thesis using attempt_ok_again [OF log] by simp
next
  case False
  then have "(case waited w err of (r, s) \<Rightarrow> (r, c, s)) = (r, g, t)" using assms(1) by simp
  then show ?thesis by (rule attempt_ok_waited [OF _ log]) (use assms(4) False in blast)
qed

locale retry_client =
  fixes attempt :: "nat \<Rightarrow> 's \<Rightarrow> 'r outcome \<times> 's"
    and log :: "'s \<Rightarrow> net_event list"
    and limit :: nat
    and ok :: "error + response \<Rightarrow> duration \<Rightarrow> bool"
    and hard :: "error + response \<Rightarrow> bool"
    and ready :: "'s \<Rightarrow> bool"
    and req :: "'s \<Rightarrow> request"
  assumes attempt_log: "ready s \<Longrightarrow> n \<le> limit \<Longrightarrow> attempt n s = (r, t) \<Longrightarrow>
      attempt_ok ok hard limit n (req s) (log s) r (log t)"
    and attempt_keeps: "ready s \<Longrightarrow> attempt n s = (Again err, t) \<Longrightarrow> ready t \<and> req t = req s"
begin

lemma loop_trace:
  assumes "retryLoop attempt limit none lastErr n s = (r, t)" "ready s"
  shows "\<exists>new. log t = log s @ new \<and> polite ok hard new \<and> length (filter is_sent new) \<le> Suc limit - n
    \<and> (\<forall>q res. Sent q res \<in> set new \<longrightarrow> q = req s)"
  using assms
proof (induction "Suc limit - n" arbitrary: n s lastErr)
  case 0
  then show ?case using retryLoop_stop [of limit n attempt none lastErr s] by auto
next
  case (Suc k)
  then have n: "n \<le> limit" by linarith
  obtain o' s' where at: "attempt n s = (o', s')" by force
  show ?case
  proof (cases o')
    case (Done r')
    then have "t = s'" using Suc.prems(1) n at by (simp add: retryLoop_done)
    then show ?thesis using attempt_log [OF Suc.prems(2) n at] Done n by (auto simp: attempt_ok_def)
  next
    case (Again err)
    note ag = attempt_log [OF Suc.prems(2) n at [unfolded Again]] and keep = attempt_keeps [OF Suc.prems(2) at [unfolded Again]]
    have rest: "retryLoop attempt limit none (Some err) (Suc n) s' = (r, t)"
      using Suc.prems(1) n at Again by (simp add: retryLoop_again)
    obtain new where new: "log t = log s' @ new" "polite ok hard new" "length (filter is_sent new) \<le> Suc limit - Suc n"
        "\<forall>q res. Sent q res \<in> set new \<longrightarrow> q = req s"
    proof -
      have "k = Suc limit - Suc n" using Suc.hyps(2) by simp
      from Suc.hyps(1) [OF this rest] keep that show ?thesis by metis
    qed
    from ag consider (at_once) res where "log s' = log s @ [Sent (req s) res]" "n = limit \<or> hard res"
      | (waited) res d where "log s' = log s @ [Sent (req s) res, Slept d None]" "ok res d"
      by (auto simp: attempt_ok_def)
    then show ?thesis
    proof cases
      case at_once
      have "polite ok hard (Sent (req s) res # new)"
      proof (cases "n = limit")
        case True
        then have "t = s'" using retryLoop_stop [of limit "Suc n" attempt none "Some err" s'] rest by auto
        then show ?thesis using new(1) by simp
      qed (use at_once(2) new(2) polite_again in blast)
      then show ?thesis using new at_once(1) n by (intro exI [of _ "Sent (req s) res # new"]) auto
    next
      case waited
      then show ?thesis using new n by (intro exI [of _ "Sent (req s) res # Slept d None # new"]) auto
    qed
  qed
qed

end

end
