(* ===== verification/Fetcher.thy ===== *)
theory Fetcher
  imports Retry
begin

text \<open>
  The workflow fetcher (\<open>internal/predictor/cache.go\<close>): workflow files from the contents API with
  retries, behind an LRU cache with ETags.

  The cache is the map from keys to entries and the list \<open>lru\<close> of the entries' keys, front most
  recently used; an entry of the map and its list element share the key, which stands for the pointer
  \<open>lruElem\<close>. \<open>fetchAttempt\<close> is the body of the retry loop. A \<open>break\<close> in one of its
  \<open>switch\<close> cases leaves only the \<open>switch\<close>, so the loop goes on with the next attempt.
\<close>

section \<open>The code\<close>

definition ErrNotFound :: string where "ErrNotFound = ''workflow not found''"

definition fetcherDefaultCapacity :: int where "fetcherDefaultCapacity = 256"
definition fetcherDefaultBaseDelay :: duration where "fetcherDefaultBaseDelay = 1 * second"
definition fetcherMaxBackoff :: duration where "fetcherMaxBackoff = 60 * second"
definition maxFetchRetries :: nat where "maxFetchRetries = 3"
definition defaultGitHubAPI :: string where "defaultGitHubAPI = ''https://api.github.com''"

record cacheEntry =
  ce_etag :: string
  ce_body :: string

record workflowFetcher =
  wf_userAgent :: string
  wf_baseURL :: string
  wf_baseDelay :: duration
  wf_capacity :: int
  wf_cache :: "string \<rightharpoonup> cacheEntry"
  wf_lru :: "string list"

datatype Option = WithCapacity int | WithBaseDelay duration | withBaseURL string

fun apply_option :: "Option \<Rightarrow> workflowFetcher \<Rightarrow> workflowFetcher" where
  "apply_option (WithCapacity n) f = (if n > 0 then f\<lparr>wf_capacity := n\<rparr> else f)"
| "apply_option (WithBaseDelay d) f = (if d > 0 then f\<lparr>wf_baseDelay := d\<rparr> else f)"
| "apply_option (withBaseURL u) f = f\<lparr>wf_baseURL := u\<rparr>"

definition NewWorkflowFetcher :: "string \<Rightarrow> Option list \<Rightarrow> workflowFetcher" where
  "NewWorkflowFetcher userAgentVersion opts =
     fold apply_option opts
       \<lparr>wf_userAgent = ''warmrunners/'' @ userAgentVersion, wf_baseURL = defaultGitHubAPI,
        wf_baseDelay = fetcherDefaultBaseDelay, wf_capacity = fetcherDefaultCapacity,
        wf_cache = Map.empty, wf_lru = []\<rparr>"

definition cacheKey :: "string \<Rightarrow> string \<Rightarrow> string \<Rightarrow> string \<Rightarrow> string" where
  "cacheKey owner repo path ref =
     owner @ [CHR 0x00] @ repo @ [CHR 0x00] @ path @ [CHR 0x00] @ ref"

definition cachedETag :: "workflowFetcher \<Rightarrow> string \<Rightarrow> string" where
  "cachedETag f key = (case wf_cache f key of Some e \<Rightarrow> ce_etag e | None \<Rightarrow> [])"

definition moveToFront :: "string \<Rightarrow> workflowFetcher \<Rightarrow> workflowFetcher" where
  "moveToFront key f = f\<lparr>wf_lru := key # remove1 key (wf_lru f)\<rparr>"

definition touchAndGet :: "workflowFetcher \<Rightarrow> string \<Rightarrow> string option \<times> workflowFetcher" where
  "touchAndGet f key =
     (case wf_cache f key of
        None \<Rightarrow> (None, f)
      | Some e \<Rightarrow> (Some (ce_body e), moveToFront key f))"

text \<open>The eviction loop of \<open>store\<close>.\<close>

function evict :: "workflowFetcher \<Rightarrow> workflowFetcher" where
  "evict f =
     (if int (length (wf_lru f)) > wf_capacity f \<and> wf_lru f \<noteq> []
      then evict (f\<lparr>wf_lru := butlast (wf_lru f), wf_cache := (wf_cache f)(last (wf_lru f) := None)\<rparr>)
      else f)"
  by pat_completeness auto
termination
  by (relation "measure (\<lambda>f. length (wf_lru f))") auto

declare evict.simps [simp del]

definition store :: "workflowFetcher \<Rightarrow> string \<Rightarrow> string \<Rightarrow> string \<Rightarrow> workflowFetcher" where
  "store f key etag body =
     (case wf_cache f key of
        Some e \<Rightarrow> moveToFront key (f\<lparr>wf_cache := (wf_cache f)(key \<mapsto> e\<lparr>ce_etag := etag, ce_body := body\<rparr>)\<rparr>)
      | None \<Rightarrow>
          evict (f\<lparr>wf_lru := key # wf_lru f,
                   wf_cache := (wf_cache f)(key \<mapsto> \<lparr>ce_etag = etag, ce_body = body\<rparr>)\<rparr>))"

definition sleepCtx :: "outside \<Rightarrow> duration \<Rightarrow> api \<Rightarrow> error option \<times> api" where
  "sleepCtx out d s = (if d \<le> 0 then (None, s) else sleep_select out d s)"

text \<open>The wait of \<open>backoff\<close>: a shifted 64-bit duration, capped, with jitter, capped again.\<close>

definition backoffDelay :: "outside \<Rightarrow> workflowFetcher \<Rightarrow> nat \<Rightarrow> api \<Rightarrow> duration" where
  "backoffDelay out f attempt s =
     (let d = to_int64 (wf_baseDelay f * 2 ^ attempt);
          d = (if d > fetcherMaxBackoff \<or> d \<le> 0 then fetcherMaxBackoff else d);
          jitterMax = wf_baseDelay f;
          d = (if jitterMax > 0 then to_int64 (d + out_rand out (api_log s) jitterMax) else d)
      in if d > fetcherMaxBackoff then fetcherMaxBackoff else d)"

definition backoff :: "outside \<Rightarrow> workflowFetcher \<Rightarrow> nat \<Rightarrow> api \<Rightarrow> error option \<times> api" where
  "backoff out f attempt s = sleepCtx out (backoffDelay out f attempt s) s"

definition retryAfterDelay :: "response \<Rightarrow> duration \<times> bool" where
  "retryAfterDelay resp =
     (let ra = header_get (rp_Header resp) ''Retry-After'';
          secs = (if ra \<noteq> [] then parse_int64 (trim_space ra) else None)
      in case secs of
           Some n \<Rightarrow>
             if n \<ge> 0 then (to_int64 (n * second), True)
             else if rp_StatusCode resp = 429 then (0, True) else (0, False)
         | None \<Rightarrow> if rp_StatusCode resp = 429 then (0, True) else (0, False))"

definition contentsURL :: "workflowFetcher \<Rightarrow> string \<Rightarrow> string \<Rightarrow> string \<Rightarrow> string \<Rightarrow> string" where
  "contentsURL f owner repo path ref =
     trim_right (\<lambda>c. c = CHR ''/'') (wf_baseURL f) @ ''/repos/'' @ PathEscape owner @ ''/''
       @ PathEscape repo @ ''/contents/'' @ PathEscape path @ ''?ref='' @ QueryEscape ref"

definition fetchRequest :: "workflowFetcher \<Rightarrow> string \<Rightarrow> string \<Rightarrow> string \<Rightarrow> request" where
  "fetchRequest f key u token =
     (let h = header_set ''User-Agent'' (wf_userAgent f) (header_set ''Accept'' ''application/vnd.github.raw'' []);
          h = (if token \<noteq> [] then header_set ''Authorization'' (''Bearer '' @ token) h else h);
          etag = cachedETag f key;
          h = (if etag \<noteq> [] then header_set ''If-None-Match'' etag h else h)
      in \<lparr>rq_URL = u, rq_Header = h\<rparr>)"

definition statusError :: "response \<Rightarrow> error" where
  "statusError resp = Error False (''workflow fetcher: '' @ rp_Status resp)"

record fetch_args =
  fa_key :: string
  fa_url :: string
  fa_token :: string
  fa_file :: string

text \<open>What an attempt does with the answer: it returns from \<open>Fetch\<close>, or goes on with the next attempt and the last
  error. \<open>fa_file\<close> is the text \<open>owner/repo path@ref\<close> of the 404 error.\<close>

definition finishAttempt ::
  "outside \<Rightarrow> fetch_args \<Rightarrow> nat \<Rightarrow> error + response \<Rightarrow> workflowFetcher \<times> api \<Rightarrow>
    string outcome \<times> workflowFetcher \<times> api" where
  "finishAttempt out a attempt res = (\<lambda>(f, s).
      case res of
        Inl err \<Rightarrow>
          if attempt = maxFetchRetries then (Done (Inl err), f, s)
          else (let (r, s) = waited (backoff out f attempt s) err in (r, f, s))
      | Inr resp \<Rightarrow>
          (let s = RecordRateLimit SourceWorkflow (rp_Header resp) s in
           if rp_StatusCode resp = 200 then
             (case rp_Body resp of
                Inl rerr \<Rightarrow> (Done (Inl rerr), f, s)
              | Inr body \<Rightarrow>
                  (Done (Inr body), store f (fa_key a) (header_get (rp_Header resp) ''ETag'') body, s))
           else if rp_StatusCode resp = 304 then
             (case touchAndGet f (fa_key a) of
                (None, f) \<Rightarrow>
                  (Done (Inl (Error False (''workflow fetcher: 304 for '' @ fa_key a @ '' but nothing cached''))), f, s)
              | (Some body, f) \<Rightarrow> (Done (Inr body), f, s))
           else if rp_StatusCode resp = 404 then
             (Done (Inl (Error True (ErrNotFound @ '': '' @ fa_file a))), f, s)
           else if rp_StatusCode resp = 429 \<or> rp_StatusCode resp = 403 then
             (let (wait, retryable) = retryAfterDelay resp in
              if \<not> retryable \<or> attempt = maxFetchRetries then (Again (statusError resp), f, s)
              else (let (r, s) = waited (if wait > 0 then sleepCtx out wait s else backoff out f attempt s)
                                   (statusError resp)
                    in (r, f, s)))
           else if rp_StatusCode resp \<ge> 500 then
             (if attempt = maxFetchRetries then (Again (statusError resp), f, s)
              else (let (r, s) = waited (backoff out f attempt s) (statusError resp) in (r, f, s)))
           else (Done (Inl (statusError resp)), f, s)))"

text \<open>One attempt, the body of the loop.\<close>

definition fetchAttempt ::
  "outside \<Rightarrow> fetch_args \<Rightarrow> nat \<Rightarrow> workflowFetcher \<times> api \<Rightarrow> string outcome \<times> workflowFetcher \<times> api" where
  "fetchAttempt out a attempt = (\<lambda>(f, s).
     case out_NewRequest out (fa_url a) of
       Some err \<Rightarrow> (Done (Inl err), f, s)
     | None \<Rightarrow> (case client_Do out (fetchRequest f (fa_key a) (fa_url a) (fa_token a)) s of
                (res, s) \<Rightarrow> finishAttempt out a attempt res (f, s)))"

definition Fetch ::
  "outside \<Rightarrow> workflowFetcher \<Rightarrow> api \<Rightarrow> string \<Rightarrow> string \<Rightarrow> string \<Rightarrow> string \<Rightarrow> string \<Rightarrow>
    (error + string) \<times> workflowFetcher \<times> api" where
  "Fetch out f s owner repo path ref token =
     (let u = contentsURL f owner repo path ref;
          a = \<lparr>fa_key = cacheKey owner repo path ref, fa_url = u, fa_token = trim_space token,
               fa_file = owner @ ''/'' @ repo @ '' '' @ path @ ''@'' @ ref\<rparr>
      in retryLoop (fetchAttempt out a) maxFetchRetries
           (Error False (''workflow fetcher: request to '' @ u @ '' failed'')) None 0 (f, s))"

section \<open>The cache\<close>

text \<open>The list holds each cached key once and nothing else, and never more than the capacity; what is
  cached under a key is the content of the file it names.\<close>

definition cache_invar :: "workflowFetcher \<Rightarrow> bool" where
  "cache_invar f \<longleftrightarrow> distinct (wf_lru f) \<and> set (wf_lru f) = dom (wf_cache f)
     \<and> 0 < wf_capacity f \<and> int (length (wf_lru f)) \<le> wf_capacity f"

definition cache_holds :: "(string \<Rightarrow> string) \<Rightarrow> workflowFetcher \<Rightarrow> bool" where
  "cache_holds content f \<longleftrightarrow> (\<forall>key e. wf_cache f key = Some e \<longrightarrow> ce_body e = content key)"

definition same_config :: "workflowFetcher \<Rightarrow> workflowFetcher \<Rightarrow> bool" where
  "same_config f g \<longleftrightarrow> wf_userAgent f = wf_userAgent g \<and> wf_baseURL f = wf_baseURL g
     \<and> wf_baseDelay f = wf_baseDelay g \<and> wf_capacity f = wf_capacity g"

lemma cacheKey_inject:
  assumes "CHR 0x00 \<notin> set o1 \<union> set r1 \<union> set p1 \<union> set o2 \<union> set r2 \<union> set p2"
    and "cacheKey o1 r1 p1 c1 = cacheKey o2 r2 p2 c2"
  shows "o1 = o2 \<and> r1 = r2 \<and> p1 = p2 \<and> c1 = c2"
proof -
  have sep: "x = y \<and> a = b" if "x @ CHR 0x00 # a = y @ CHR 0x00 # b" "CHR 0x00 \<notin> set x" "CHR 0x00 \<notin> set y"
    for x y a b :: string
    using that by (induction x arbitrary: y) (auto simp: Cons_eq_append_conv split: if_splits)
  have "o1 @ CHR 0x00 # r1 @ CHR 0x00 # p1 @ CHR 0x00 # c1 = o2 @ CHR 0x00 # r2 @ CHR 0x00 # p2 @ CHR 0x00 # c2"
    using assms(2) by (simp add: cacheKey_def)
  then show ?thesis using assms(1) by (auto dest!: sep)
qed

lemma evict_once:
  assumes "int (length (wf_lru f)) \<le> wf_capacity f + 1" "0 < wf_capacity f"
  shows "evict f = (if int (length (wf_lru f)) \<le> wf_capacity f then f
    else f\<lparr>wf_lru := butlast (wf_lru f), wf_cache := (wf_cache f)(last (wf_lru f) := None)\<rparr>)"
  using assms by (subst evict.simps, subst evict.simps) auto

text \<open>The cache as one list of keys and entries, most recently used first, and what the operations do
  to it.\<close>

type_synonym recency = "(string \<times> cacheEntry) list"

definition cache_abs :: "workflowFetcher \<Rightarrow> recency" where
  "cache_abs f = map (\<lambda>k. (k, the (wf_cache f k))) (wf_lru f)"

definition store_spec :: "int \<Rightarrow> string \<Rightarrow> cacheEntry \<Rightarrow> recency \<Rightarrow> recency" where
  "store_spec cap key e es = take (nat cap) ((key, e) # filter (\<lambda>(k, _). k \<noteq> key) es)"

definition touch_spec :: "string \<Rightarrow> recency \<Rightarrow> cacheEntry option \<times> recency" where
  "touch_spec key es =
     (case map_of es key of
        None \<Rightarrow> (None, es)
      | Some e \<Rightarrow> (Some e, (key, e) # filter (\<lambda>(k, _). k \<noteq> key) es))"

lemma cache_invarD:
  assumes "cache_invar f"
  shows "distinct (wf_lru f)" "set (wf_lru f) = dom (wf_cache f)" "0 < wf_capacity f"
    "int (length (wf_lru f)) \<le> wf_capacity f"
  using assms by (simp_all add: cache_invar_def)

lemma map_of_abs:
  assumes "cache_invar f"
  shows "map_of (cache_abs f) key = wf_cache f key"
proof -
  have "map_of (map (\<lambda>k. (k, the (wf_cache f k))) ks) key
      = (if key \<in> set ks then Some (the (wf_cache f key)) else None)" for ks
    by (induction ks) auto
  then show ?thesis
    using cache_invarD(2) [OF assms] by (force simp: cache_abs_def dom_def split: if_splits)
qed

lemma without_absent:
  "key \<notin> set ks \<Longrightarrow> filter (\<lambda>(k, _). k \<noteq> key) (map (\<lambda>k. (k, the (c k))) ks) = map (\<lambda>k. (k, the (c k))) ks"
  by (induction ks) auto

lemma abs_without:
  "distinct ks \<Longrightarrow> map (\<lambda>k. (k, the (c k))) (remove1 key ks)
    = filter (\<lambda>(k, _). k \<noteq> key) (map (\<lambda>k. (k, the (c k))) ks)"
  by (induction ks) (auto simp: without_absent)

lemma filter_abs_upd:
  "filter (\<lambda>(k, _). k \<noteq> key) (map (\<lambda>k. (k, the ((c(key := v)) k))) ks)
    = filter (\<lambda>(k, _). k \<noteq> key) (map (\<lambda>k. (k, the (c k))) ks)"
  by (induction ks) auto

lemma abs_upd_absent:
  "key \<notin> set ks \<Longrightarrow> map (\<lambda>k. (k, the ((c(key := v)) k))) ks = map (\<lambda>k. (k, the (c k))) ks"
  by (induction ks) auto

lemma moveToFront_ok:
  assumes "cache_invar f" "key \<in> dom (wf_cache f)"
  shows "cache_invar (moveToFront key f)" "same_config f (moveToFront key f)"
    "cache_abs (moveToFront key f) = (key, the (wf_cache f key)) # filter (\<lambda>(k, _). k \<noteq> key) (cache_abs f)"
    "wf_cache (moveToFront key f) = wf_cache f"
proof -
  note inv = cache_invarD [OF assms(1)]
  have "length (wf_lru f) > 0" using assms(2) inv(2) by auto
  then show "cache_invar (moveToFront key f)" "same_config f (moveToFront key f)"
    using inv assms(2)
    by (auto simp: cache_invar_def moveToFront_def same_config_def length_remove1 of_nat_diff set_remove1_eq)
  show "cache_abs (moveToFront key f) = (key, the (wf_cache f key)) # filter (\<lambda>(k, _). k \<noteq> key) (cache_abs f)"
    by (simp add: cache_abs_def moveToFront_def abs_without [OF inv(1)])
qed (simp add: moveToFront_def)

lemma touchAndGet_refines:
  assumes "cache_invar f" "touchAndGet f key = (r, g)"
  shows "cache_invar g" "same_config f g" "wf_cache g = wf_cache f"
    "touch_spec key (cache_abs f) = (wf_cache f key, cache_abs g)" "r = map_option ce_body (wf_cache f key)"
  using assms moveToFront_ok [OF assms(1) domI, of key]
  by (auto simp: touchAndGet_def touch_spec_def map_of_abs same_config_def split: option.splits)

lemma butlast_keys:
  assumes "distinct (k # ks)"
  shows "set (butlast (k # ks)) = insert k (set ks) - {last (k # ks)}"
proof -
  have "butlast (k # ks) @ [last (k # ks)] = k # ks" by simp
  then have "insert k (set ks) = insert (last (k # ks)) (set (butlast (k # ks)))"
    "last (k # ks) \<notin> set (butlast (k # ks))"
    using assms by (metis list.set(2) rotate1.simps(2) set_rotate1, metis distinct_append not_distinct_conv_prefix)
  then show ?thesis by blast
qed

definition stored :: "workflowFetcher \<Rightarrow> string \<Rightarrow> cacheEntry \<Rightarrow> workflowFetcher \<Rightarrow> bool" where
  "stored f key e f' \<longleftrightarrow>
     cache_invar f' \<and> same_config f f' \<and> cache_abs f' = store_spec (wf_capacity f) key e (cache_abs f)"

lemma store_present:
  assumes "cache_invar f" "wf_cache f key = Some e0"
  shows "stored f key \<lparr>ce_etag = etag, ce_body = body\<rparr> (store f key etag body)"
proof -
  let ?e = "\<lparr>ce_etag = etag, ce_body = body\<rparr>"
  let ?f = "f\<lparr>wf_cache := (wf_cache f)(key \<mapsto> ?e)\<rparr>"
  have inv1: "cache_invar ?f" using cache_invarD [OF assms(1)] assms(2) by (auto simp: cache_invar_def)
  have st: "store f key etag body = moveToFront key ?f" by (cases e0) (simp add: store_def assms(2))
  note mv = moveToFront_ok [OF inv1, of key]
  have eq: "cache_abs (moveToFront key ?f) = (key, ?e) # filter (\<lambda>(k, _). k \<noteq> key) (cache_abs f)"
    using mv(3) filter_abs_upd [of key "wf_cache f" "Some ?e" "wf_lru f"] by (simp add: cache_abs_def)
  have "length (cache_abs (moveToFront key ?f)) \<le> nat (wf_capacity f)"
    using mv(1) cache_invarD(4) [of "moveToFront key ?f"] by (simp add: cache_abs_def moveToFront_def)
  then show ?thesis using mv(1,2) eq by (simp add: stored_def st store_spec_def same_config_def)
qed

lemma store_absent:
  assumes "cache_invar f" "wf_cache f key = None"
  shows "stored f key \<lparr>ce_etag = etag, ce_body = body\<rparr> (store f key etag body)"
proof -
  note inv = cache_invarD [OF assms(1)]
  let ?e = "\<lparr>ce_etag = etag, ce_body = body\<rparr>"
  let ?f = "f\<lparr>wf_lru := key # wf_lru f, wf_cache := (wf_cache f)(key \<mapsto> ?e)\<rparr>"
  have new: "key \<notin> set (wf_lru f)" using assms(2) inv(2) by (simp add: domIff)
  have st: "store f key etag body = evict ?f" by (simp add: store_def assms(2))
  have abs: "cache_abs ?f = (key, ?e) # filter (\<lambda>(k, _). k \<noteq> key) (cache_abs f)"
    using new abs_upd_absent [of key "wf_lru f" "wf_cache f" "Some ?e"] without_absent [of key "wf_lru f" "wf_cache f"]
    by (simp add: cache_abs_def)
  have ev: "evict ?f = (if int (length (wf_lru ?f)) \<le> wf_capacity ?f then ?f
    else ?f\<lparr>wf_lru := butlast (wf_lru ?f), wf_cache := (wf_cache ?f)(last (wf_lru ?f) := None)\<rparr>)"
    using inv(3,4) by (intro evict_once) simp_all
  show ?thesis
  proof (cases "int (length (wf_lru f)) + 1 \<le> wf_capacity f")
    case True
    then have "length (cache_abs ?f) \<le> nat (wf_capacity f)" by (simp add: cache_abs_def)
    then show ?thesis
      using True ev inv new abs by (auto simp: stored_def st store_spec_def same_config_def cache_invar_def)
  next
    case False
    let ?l = "last (key # wf_lru f)"
    let ?g = "?f\<lparr>wf_lru := butlast (wf_lru ?f), wf_cache := (wf_cache ?f)(?l := None)\<rparr>"
    have g: "evict ?f = ?g" using False ev by simp
    have cap: "nat (wf_capacity f) = length (wf_lru f)" using False inv(4) by simp
    have d: "distinct (key # wf_lru f)" using inv(1) new by simp
    have "cache_invar ?g"
      using inv(2-4) d by (auto simp: cache_invar_def butlast_keys [OF d] distinct_butlast simp del: butlast.simps last.simps)
    moreover have "cache_abs ?g = butlast (cache_abs ?f)"
      using butlast_keys [OF d] abs_upd_absent [of ?l "butlast (key # wf_lru f)" "wf_cache ?f" None]
      by (simp add: cache_abs_def map_butlast del: butlast.simps last.simps fun_upd_apply)
    moreover have "butlast (cache_abs ?f) = take (nat (wf_capacity f)) (cache_abs ?f)"
      using False inv(4) by (simp add: butlast_conv_take cache_abs_def cap)
    ultimately show ?thesis using abs by (simp add: stored_def st g store_spec_def same_config_def)
  qed
qed

lemma store_refines:
  assumes "cache_invar f"
  shows "cache_invar (store f key etag body)" "same_config f (store f key etag body)"
    "cache_abs (store f key etag body)
      = store_spec (wf_capacity f) key \<lparr>ce_etag = etag, ce_body = body\<rparr> (cache_abs f)"
  using store_present [OF assms] store_absent [OF assms] by (cases "wf_cache f key"; simp add: stored_def)+

lemma apply_options_fresh:
  "cache_invar f \<Longrightarrow> cache_abs f = [] \<Longrightarrow>
    cache_invar (fold apply_option opts f) \<and> cache_abs (fold apply_option opts f) = []"
proof (induction opts arbitrary: f)
  case (Cons o' opts)
  have "cache_invar (apply_option o' f)" "cache_abs (apply_option o' f) = []"
    using Cons.prems by (cases o'; auto simp: cache_invar_def cache_abs_def)+
  then show ?case using Cons.IH by simp
qed simp

lemma NewWorkflowFetcher_invar: "cache_invar (NewWorkflowFetcher v opts)" "cache_abs (NewWorkflowFetcher v opts) = []"
proof -
  have "cache_invar (NewWorkflowFetcher v opts) \<and> cache_abs (NewWorkflowFetcher v opts) = []"
    unfolding NewWorkflowFetcher_def
    by (rule apply_options_fresh) (simp_all add: cache_invar_def cache_abs_def fetcherDefaultCapacity_def)
  then show "cache_invar (NewWorkflowFetcher v opts)" "cache_abs (NewWorkflowFetcher v opts) = []" by simp_all
qed

section \<open>Attempts\<close>

text \<open>A delay the configuration can produce, and the answers the loop does not wait after.\<close>

definition sane_delays :: "outside \<Rightarrow> workflowFetcher \<Rightarrow> bool" where
  "sane_delays out f \<longleftrightarrow> rand_ok out \<and> 0 < wf_baseDelay f \<and> wf_baseDelay f \<le> fetcherMaxBackoff"

definition delay_ok :: "error + response \<Rightarrow> duration \<Rightarrow> bool" where
  "delay_ok res d \<longleftrightarrow> 0 < d \<and> (d \<le> fetcherMaxBackoff
     \<or> (case res of Inl _ \<Rightarrow> False | Inr resp \<Rightarrow> retryAfterDelay resp = (d, True)))"

definition hard_refusal :: "error + response \<Rightarrow> bool" where
  "hard_refusal res \<longleftrightarrow> (case res of Inl _ \<Rightarrow> False
     | Inr resp \<Rightarrow> rp_StatusCode resp = 403 \<and> \<not> snd (retryAfterDelay resp))"

lemma retryAfter_429: "rp_StatusCode resp = 429 \<Longrightarrow> snd (retryAfterDelay resp)"
  by (simp add: retryAfterDelay_def Let_def split: option.splits)

lemma backoffDelay_range:
  assumes "sane_delays out f" "n \<le> maxFetchRetries"
  shows "0 < backoffDelay out f n s" "backoffDelay out f n s \<le> fetcherMaxBackoff"
proof -
  have b: "0 < wf_baseDelay f" "wf_baseDelay f \<le> fetcherMaxBackoff" "fetcherMaxBackoff \<le> 60 * second" "n \<le> 3"
    using assms by (simp_all add: sane_delays_def fetcherMaxBackoff_def maxFetchRetries_def)
  have j: "0 \<le> out_rand out (api_log s) (wf_baseDelay f)" "out_rand out (api_log s) (wf_baseDelay f) < wf_baseDelay f"
    using assms(1) by (simp_all add: sane_delays_def rand_ok_def)
  show "0 < backoffDelay out f n s" "backoffDelay out f n s \<le> fetcherMaxBackoff"
    unfolding backoffDelay_def Let_def if_P [OF b(1)] by (rule backoff_range [OF b j refl refl refl])+
qed

lemma backoff_log:
  assumes "backoff out f n s = (e, t)" "sane_delays out f" "n \<le> maxFetchRetries"
  shows "\<exists>d. api_log t = api_log s @ [Slept d e] \<and> delay_ok res d"
proof -
  note r = backoffDelay_range [OF assms(2,3), of s]
  then have "sleep_select out (backoffDelay out f n s) s = (e, t)"
    using assms(1) by (simp add: backoff_def sleepCtx_def)
  then show ?thesis using r by (auto simp: delay_ok_def dest!: sleep_select_log)
qed

lemma retryAfter_log:
  assumes "(if wait > 0 then sleepCtx out wait s else backoff out f n s) = (e, t)" "sane_delays out f" "n \<le> maxFetchRetries"
    and "retryAfterDelay resp = (wait, True)"
  shows "\<exists>d. api_log t = api_log s @ [Slept d e] \<and> delay_ok (Inr resp) d"
  using assms backoff_log [of out f n s e t "Inr resp"] sleep_select_log [of out wait s e t]
  by (auto simp: sleepCtx_def delay_ok_def split: if_splits)

text \<open>What one attempt puts into the log, and what it does to the cache.\<close>

lemma fetchAttempt_log:
  assumes run: "fetchAttempt out a n (f, s) = (r, g, t)" and sane: "sane_delays out f" and n: "n \<le> maxFetchRetries"
  shows "attempt_ok delay_ok hard_refusal maxFetchRetries n (fetchRequest f (fa_key a) (fa_url a) (fa_token a))
    (api_log s) r (api_log t)"
proof (cases "out_NewRequest out (fa_url a)")
  case (Some err)
  then show ?thesis using run by (auto simp: fetchAttempt_def finishAttempt_def intro: attempt_ok_done)
next
  case None
  define req where "req = fetchRequest f (fa_key a) (fa_url a) (fa_token a)"
  obtain res u where Do: "client_Do out req s = (res, u)" by (rule prod.exhaust)
  then have u: "api_log u = api_log s @ [Sent req res]" using client_Do_log by blast
  note body = run [unfolded fetchAttempt_def finishAttempt_def prod.case None option.case, folded req_def, unfolded Do, simplified]
  have paused: "attempt_ok delay_ok hard_refusal maxFetchRetries n req (api_log s) r (api_log t)"
    if "(case waited (backoff out f n w) err of (r, s) \<Rightarrow> (r, f, s)) = (r, g, t)" "api_log w = api_log s @ [Sent req res]" for w err
    by (rule attempt_ok_waited [OF that]) (rule backoff_log [OF _ sane n])
  show ?thesis
  proof (cases res)
    case (Inl err)
    then show ?thesis
      unfolding req_def [symmetric] using body u paused [of u err]
      by (cases "n = maxFetchRetries") (auto intro: attempt_ok_done)
  next
    case (Inr resp)
    define v where "v = RecordRateLimit SourceWorkflow (rp_Header resp) u"
    have v: "api_log v = api_log s @ [Sent req res]" by (simp add: v_def u)
    note body = body [unfolded Inr, simplified, folded v_def]
    show ?thesis
    proof (cases "rp_StatusCode resp = 429 \<or> rp_StatusCode resp = 403")
      case limited: True
      obtain wait retryable where ra: "retryAfterDelay resp = (wait, retryable)" by (rule prod.exhaust)
      from limited body ra have "(if \<not> retryable \<or> n = maxFetchRetries then (Again (statusError resp), f, v)
          else case waited (if wait > 0 then sleepCtx out wait v else backoff out f n v) (statusError resp)
            of (r, s) \<Rightarrow> (r, f, s)) = (r, g, t)" by auto
      moreover have "\<not> retryable \<Longrightarrow> hard_refusal res"
        using limited ra Inr retryAfter_429 [of resp] by (auto simp: hard_refusal_def)
      ultimately show ?thesis unfolding req_def [symmetric]
        by (rule attempt_ok_limited [OF _ v]) (use retryAfter_log [OF _ sane n, of wait v] ra Inr in auto)
    next
      case False
      then show ?thesis
        unfolding req_def [symmetric] using body v paused [OF _ v]
        by (auto split: if_splits sum.splits option.splits prod.splits intro: attempt_ok_done attempt_ok_again)
    qed
  qed
qed

lemma finishAttempt_result:
  assumes "finishAttempt out a n res (f, s) = (r, g, t)"
  obtains (none) "g = f" "\<And>body. r \<noteq> Done (Inr body)"
  | (fresh) resp body where "res = Inr resp" "rp_StatusCode resp = 200" "rp_Body resp = Inr body" "r = Done (Inr body)"
      "g = store f (fa_key a) (header_get (rp_Header resp) ''ETag'') body"
  | (cached) e where "wf_cache f (fa_key a) = Some e" "r = Done (Inr (ce_body e))"
      "touchAndGet f (fa_key a) = (Some (ce_body e), g)"
  using assms by (auto simp: finishAttempt_def waited_def touchAndGet_def Let_def
      split: option.splits sum.splits if_splits prod.splits)

lemma fetchAttempt_again:
  assumes "fetchAttempt out a n (f, s) = (Again err, g, t)"
  shows "g = f"
  using assms by (auto simp: fetchAttempt_def split: option.splits prod.splits elim: finishAttempt_result)

section \<open>The loop\<close>

interpretation fetch_loop: retry_client "fetchAttempt out a" "\<lambda>(f, s). api_log s" maxFetchRetries delay_ok hard_refusal
    "\<lambda>(f, s). sane_delays out f" "\<lambda>(f, s). fetchRequest f (fa_key a) (fa_url a) (fa_token a)" for out a
  by unfold_locales (auto dest: fetchAttempt_log fetchAttempt_again)

text \<open>What the contents API promises of files at a commit: a readable 200 answer is the file.\<close>

definition serves :: "outside \<Rightarrow> (string \<Rightarrow> string) \<Rightarrow> workflowFetcher \<Rightarrow> bool" where
  "serves out content f \<longleftrightarrow> (\<forall>log req resp body owner repo path ref.
     rq_URL req = contentsURL f owner repo path ref \<longrightarrow> out_Do out log req = Inr resp \<longrightarrow>
     rp_StatusCode resp = 200 \<longrightarrow> rp_Body resp = Inr body \<longrightarrow> body = content (cacheKey owner repo path ref))"

lemma evict_cache: "wf_cache (evict f) k = Some e \<Longrightarrow> wf_cache f k = Some e"
proof (induction f rule: evict.induct)
  case (1 f)
  then show ?case by (subst (asm) (2) evict.simps) (auto split: if_splits)
qed

lemma store_cache:
  "wf_cache (store f key etag body) k = Some e \<Longrightarrow>
    (if k = key then ce_body e = body else wf_cache f k = Some e)
    \<or> (k = key \<and> wf_cache f k = Some e \<and> ce_body e = body)"
  by (auto simp: store_def moveToFront_def dest!: evict_cache split: option.splits if_splits)

lemma cache_holds_store:
  "cache_holds content f \<Longrightarrow> content key = body \<Longrightarrow> cache_holds content (store f key etag body)"
  unfolding cache_holds_def by (metis store_cache)

text \<open>The cache of a fetcher configured as \<open>f0\<close> holds files only; the server gives the file a call asks for.\<close>

definition cache_ok :: "(string \<Rightarrow> string) \<Rightarrow> workflowFetcher \<Rightarrow> workflowFetcher \<Rightarrow> bool" where
  "cache_ok content f0 f \<longleftrightarrow> cache_invar f \<and> cache_holds content f \<and> same_config f0 f"

definition served :: "outside \<Rightarrow> (string \<Rightarrow> string) \<Rightarrow> fetch_args \<Rightarrow> bool" where
  "served out content a \<longleftrightarrow> (\<forall>log req resp body. rq_URL req = fa_url a \<longrightarrow> out_Do out log req = Inr resp \<longrightarrow>
     rp_StatusCode resp = 200 \<longrightarrow> rp_Body resp = Inr body \<longrightarrow> body = content (fa_key a))"

lemma finishAttempt_ok:
  assumes "finishAttempt out a n res (f, s) = (r, g, t)" "cache_ok content f0 f" "served out content a"
    and "\<exists>log req. rq_URL req = fa_url a \<and> res = out_Do out log req"
  shows "cache_ok content f0 g \<and> (\<forall>body. r = Done (Inr body) \<longrightarrow> body = content (fa_key a))"
proof -
  have f: "cache_invar f" "cache_holds content f" "same_config f0 f" using assms(2) by (simp_all add: cache_ok_def)
  from assms(1) show ?thesis
  proof (cases rule: finishAttempt_result)
    case none
    then show ?thesis using assms(2) by simp
  next
    case (fresh resp body)
    obtain log req where "rq_URL req = fa_url a" "out_Do out log req = Inr resp" using assms(4) fresh(1) by auto
    then have "body = content (fa_key a)" using assms(3) fresh(2,3) unfolding served_def by blast
    then show ?thesis
      using fresh store_refines(1,2) [OF f(1), of "fa_key a"] cache_holds_store [OF f(2)] f(3)
      by (simp add: cache_ok_def same_config_def)
  next
    case (cached e)
    note hit = touchAndGet_refines(1-3) [OF f(1) cached(3)]
    have "cache_holds content g" using f(2) hit(3) by (simp only: cache_holds_def)
    moreover have "ce_body e = content (fa_key a)" using f(2) cached(1) by (simp only: cache_holds_def)
    ultimately show ?thesis using hit(1,2) cached(2) f(3) by (simp add: cache_ok_def same_config_def)
  qed
qed

lemma fetchAttempt_ok:
  assumes "fetchAttempt out a n (f, s) = (r, g, t)" "cache_ok content f0 f" "served out content a"
  shows "cache_ok content f0 g \<and> (\<forall>body. r = Done (Inr body) \<longrightarrow> body = content (fa_key a))"
proof (cases "out_NewRequest out (fa_url a)")
  case None
  obtain res u where Do: "client_Do out (fetchRequest f (fa_key a) (fa_url a) (fa_token a)) s = (res, u)" by force
  then have "res = out_Do out (api_log s) (fetchRequest f (fa_key a) (fa_url a) (fa_token a))"
    by (simp add: client_Do_def Let_def)
  moreover have "rq_URL (fetchRequest f (fa_key a) (fa_url a) (fa_token a)) = fa_url a"
    by (simp add: fetchRequest_def Let_def)
  ultimately have "\<exists>log req. rq_URL req = fa_url a \<and> res = out_Do out log req" by blast
  moreover have "finishAttempt out a n res (f, u) = (r, g, t)" using assms(1) by (simp add: fetchAttempt_def None Do)
  ultimately show ?thesis using finishAttempt_ok assms(2,3) by blast
qed (use assms in \<open>auto simp: fetchAttempt_def\<close>)

lemma fetchLoop_content:
  assumes "retryLoop (fetchAttempt out a) maxFetchRetries none lastErr n (f, s) = (r, g, t)" "cache_ok content f0 f"
    and "served out content a"
  shows "cache_ok content f0 g \<and> (\<forall>body. r = Inr body \<longrightarrow> body = content (fa_key a))"
proof -
  let ?I = "\<lambda>(h, u :: api). cache_ok content f0 h"
  let ?P = "\<lambda>r (g, u :: api). cache_ok content f0 g \<and> (\<forall>body. r = Inr body \<longrightarrow> body = content (fa_key a))"
  have start: "?I (f, s)" using assms(2) by simp
  have "?P r (g, t)"
    by (rule retryLoop_induct [where I = ?I and P = ?P, OF assms(1) start])
      (auto dest: fetchAttempt_ok [OF _ _ assms(3)] split: prod.splits)
  then show ?thesis by simp
qed

lemma served_args:
  assumes "serves out content f0" "same_config f0 f"
    and "fa_key a = cacheKey owner repo path ref" "fa_url a = contentsURL f owner repo path ref"
  shows "served out content a"
  using assms unfolding served_def serves_def by (simp add: same_config_def contentsURL_def)

section \<open>The interface the predictor and the sampler use\<close>

text \<open>A source of workflow files: what it returns for a file at a commit is the file.\<close>

locale workflow_source =
  fixes fetch :: "'f \<Rightarrow> api \<Rightarrow> string \<Rightarrow> string \<Rightarrow> string \<Rightarrow> string \<Rightarrow> string \<Rightarrow> (error + string) \<times> 'f \<times> api"
    and usable :: "'f \<Rightarrow> bool"
    and contents :: "string \<Rightarrow> string \<Rightarrow> string \<Rightarrow> string \<Rightarrow> string"
  assumes fetch_usable: "usable f \<Longrightarrow> fetch f s owner repo path ref token = (r, g, t) \<Longrightarrow> usable g"
    and fetch_contents: "usable f \<Longrightarrow> fetch f s owner repo path ref token = (Inr body, g, t) \<Longrightarrow>
      body = contents owner repo path ref"

definition fetcher_usable :: "outside \<Rightarrow> (string \<Rightarrow> string) \<Rightarrow> workflowFetcher \<Rightarrow> bool" where
  "fetcher_usable out content f \<longleftrightarrow>
     cache_invar f \<and> cache_holds content f \<and> sane_delays out f \<and> serves out content f"

lemma Fetch_usable:
  assumes "fetcher_usable out content f" "Fetch out f s owner repo path ref token = (r, g, t)"
  shows "fetcher_usable out content g \<and> same_config f g
    \<and> (\<forall>body. r = Inr body \<longrightarrow> body = content (cacheKey owner repo path ref))"
proof -
  have u: "cache_ok content f f" "sane_delays out f" "serves out content f"
    using assms(1) by (simp_all add: fetcher_usable_def cache_ok_def same_config_def)
  have "cache_ok content f g \<and> (\<forall>body. r = Inr body \<longrightarrow> body = content (cacheKey owner repo path ref))"
    using fetchLoop_content [OF assms(2) [unfolded Fetch_def Let_def] u(1)] served_args [OF u(3)]
    by (simp add: same_config_def)
  moreover from this have "sane_delays out g" "serves out content g"
    using u(2,3) by (simp_all add: cache_ok_def same_config_def sane_delays_def serves_def contentsURL_def)
  ultimately show ?thesis by (simp add: fetcher_usable_def cache_ok_def)
qed

interpretation fetcher: workflow_source "Fetch out" "fetcher_usable out content"
    "\<lambda>owner repo path ref. content (cacheKey owner repo path ref)" for out content
  by unfold_locales (blast dest: Fetch_usable)+

section \<open>Runs of cache operations\<close>

datatype cache_op = Store string string string | Touch string

fun run_cache :: "cache_op list \<Rightarrow> workflowFetcher \<Rightarrow> string option list \<times> workflowFetcher" where
  "run_cache [] f = ([], f)"
| "run_cache (Store key etag body # ops) f = run_cache ops (store f key etag body)"
| "run_cache (Touch key # ops) f =
     (let (r, f) = touchAndGet f key; (rs, f) = run_cache ops f in (r # rs, f))"

fun lru_run :: "int \<Rightarrow> cache_op list \<Rightarrow> recency \<Rightarrow> string option list \<times> recency" where
  "lru_run cap [] es = ([], es)"
| "lru_run cap (Store key etag body # ops) es =
     lru_run cap ops (store_spec cap key \<lparr>ce_etag = etag, ce_body = body\<rparr> es)"
| "lru_run cap (Touch key # ops) es =
     (let (r, es) = touch_spec key es; (rs, es) = lru_run cap ops es in (map_option ce_body r # rs, es))"

lemma run_cache_refines:
  assumes "cache_invar f" "run_cache ops f = (rs, g)"
  shows "cache_invar g \<and> wf_capacity g = wf_capacity f \<and> lru_run (wf_capacity f) ops (cache_abs f) = (rs, cache_abs g)"
  using assms
proof (induction ops f arbitrary: rs rule: run_cache.induct)
  case (2 key etag body ops f)
  then show ?case
    using store_refines [OF 2(2)] by (simp add: same_config_def)
next
  case (3 key ops f)
  obtain r f1 rs1 where t: "touchAndGet f key = (r, f1)" and run: "run_cache ops f1 = (rs1, g)" and rs: "rs = r # rs1"
    using 3(3) by (auto simp: Let_def split: prod.splits)
  note tr = touchAndGet_refines [OF 3(2) t]
  show ?case using 3(1) [OF t [symmetric] refl tr(1) run] tr by (simp add: rs same_config_def)
qed simp

section \<open>Properties\<close>

text \<open>A fetch returns the file. Whatever the cache holds so far, and however often the server fails
  or refuses, if a readable 200 answer for a file at a commit is that file, then what \<open>Fetch\<close> returns
  is the file, cached or not, and the cache afterwards holds nothing but files under their own keys,
  each key once and never more than the capacity.\<close>

lemma fetch_returns_file:
  assumes "fetcher_usable out content f" "Fetch out f s owner repo path ref token = (r, g, t)"
  shows "(\<forall>body. r = Inr body \<longrightarrow> body = content (cacheKey owner repo path ref))
    \<and> fetcher_usable out content g \<and> int (length (wf_lru g)) \<le> wf_capacity f"
  using Fetch_usable [OF assms] cache_invarD(4) [of g] by (auto simp: fetcher_usable_def same_config_def)


text \<open>C31. The cache is an LRU list. From a new fetcher, whatever its options, any sequence of stores and
  hits keeps list and map in agreement, and the contents and answers are those of one list of
  entries ordered by recency and cut to the capacity.\<close>

theorem cache_is_lru:
  "case run_cache ops (NewWorkflowFetcher v opts) of (rs, g) \<Rightarrow>
     cache_invar g \<and> lru_run (wf_capacity (NewWorkflowFetcher v opts)) ops [] = (rs, cache_abs g)"
proof (cases "run_cache ops (NewWorkflowFetcher v opts)")
  case (Pair rs g)
  then show ?thesis
    using run_cache_refines [OF NewWorkflowFetcher_invar(1) Pair] NewWorkflowFetcher_invar(2) [of v opts] by simp
qed

section \<open>A server\<close>

text \<open>A server that holds one file, and answers by a script of failures first.\<close>

definition file_content :: "string \<Rightarrow> string" where
  "file_content key = ''jobs: {}''"

definition scripted :: "(error + response) list \<Rightarrow> outside" where
  "scripted script =
     \<lparr>out_Do = (\<lambda>log req. let n = length (filter is_sent log) in
         if n < length script then script ! n
         else if header_get (rq_Header req) ''If-None-Match'' = ''v1'' then answer 304 [] []
         else answer 200 ''jobs: {}'' [(''ETag'', ''v1'')]),
      out_ctx = (\<lambda>log d. None), out_rand = (\<lambda>log n. 0), out_now = (\<lambda>log. 0), out_NewRequest = (\<lambda>u. None)\<rparr>"

definition example_fetcher :: workflowFetcher where
  "example_fetcher = NewWorkflowFetcher ''dev'' [WithCapacity 2]"

definition failures_then_file :: "(error + response) list" where
  "failures_then_file = [Inl (Error False ''connection reset''), answer 429 [] [(''Retry-After'', ''7'')], answer 503 [] []]"

lemma scripted_serves:
  assumes "\<forall>res \<in> set script. \<forall>resp. res = Inr resp \<longrightarrow> rp_StatusCode resp \<noteq> 200"
  shows "fetcher_usable (scripted script) file_content example_fetcher"
proof -
  have "cache_holds file_content example_fetcher"
    by (simp add: cache_holds_def example_fetcher_def NewWorkflowFetcher_def)
  moreover have "sane_delays (scripted script) example_fetcher"
    by (simp add: sane_delays_def rand_ok_def scripted_def example_fetcher_def NewWorkflowFetcher_def
        fetcherDefaultBaseDelay_def fetcherMaxBackoff_def second_def)
  moreover have "serves (scripted script) file_content example_fetcher"
    using assms by (auto simp: serves_def scripted_def file_content_def answer_def Let_def split: if_splits dest: nth_mem)
  ultimately show ?thesis
    by (simp add: fetcher_usable_def example_fetcher_def NewWorkflowFetcher_invar(1))
qed

lemma fetch_returns_file_witness:
  "\<exists>body. fst (Fetch (scripted failures_then_file) example_fetcher new_api ''acme'' ''app'' ''ci.yml'' ''c0ffee'' ''tok'')
      = Inr body \<and> body = file_content (cacheKey ''acme'' ''app'' ''ci.yml'' ''c0ffee'')"
proof -
  have "\<forall>res \<in> set failures_then_file. \<forall>resp. res = Inr resp \<longrightarrow> rp_StatusCode resp \<noteq> 200"
    by (simp add: failures_then_file_def answer_def)
  note usable = scripted_serves [OF this]
  obtain r g t where run: "Fetch (scripted failures_then_file) example_fetcher new_api ''acme'' ''app'' ''ci.yml'' ''c0ffee'' ''tok'' = (r, g, t)"
    by (metis prod_cases3)
  have "fst (Fetch (scripted failures_then_file) example_fetcher new_api ''acme'' ''app'' ''ci.yml'' ''c0ffee'' ''tok'')
      = Inr ''jobs: {}''" by code_simp
  then have "r = Inr ''jobs: {}''" by (simp only: run fst_conv)
  then show ?thesis
    using fetch_returns_file [OF usable run, THEN conjunct1] unfolding run fst_conv by iprover
qed


text \<open>The exception in the second property is what the code does: a 403 that is not a rate limit is
  meant to end the loop, but the \<open>break\<close> ends only the \<open>switch\<close>, and the request is repeated three
  times without a pause.\<close>

lemma hard_403_repeated_at_once:
  "map is_sent (api_log (snd (snd (Fetch (scripted (replicate 4 (answer 403 [] []))) example_fetcher new_api
     ''acme'' ''app'' ''ci.yml'' ''c0ffee'' ''tok'')))) = [True, True, True, True]"
  by code_simp

end
