(* ===== verification/Workflow.thy ===== *)
theory Workflow
  imports Strconv
begin

text \<open>
  Workflow files (\<open>internal/predictor/workflow/parse.go\<close>): from the syntax tree of the third-party
  parser actionlint to the jobs, label sets and matrix combinations the predictor counts.

  actionlint is not part of the repository. \<open>actionlint.Parse\<close> is a parameter; the tree it returns is
  modelled by the fields this program reads (names \<open>al_\<close>): pointers that may be \<open>nil\<close> are options, and
  what the program asks through methods of actionlint (\<open>ContainsExpression\<close>, \<open>String\<close>) is a field.
\<close>

section \<open>actionlint's tree\<close>

record al_string =
  str_Value :: string
  str_ContainsExpression :: bool

datatype raw_yaml = RawYAMLString string | RawYAMLOther (raw_String: string)

record al_row =
  row_Expression :: "al_string option"
  row_Values :: "raw_yaml option list"

record al_combination =
  comb_Expression :: "al_string option"
  comb_Assigns :: "(string, raw_yaml option option) gomap"

record al_combinations =
  combs_Combinations :: "al_combination option list"
  combs_ContainsExpression :: bool

record al_matrix =
  mat_Expression :: "al_string option"
  mat_Rows :: "(string, al_row option) gomap"
  mat_Include :: "al_combinations option"
  mat_Exclude :: "al_combinations option"

record al_runner =
  run_Labels :: "al_string option list"
  run_LabelsExpr :: "al_string option"
  run_Group :: "al_string option"

record al_job =
  al_Needs :: "al_string option list"
  al_WorkflowCall :: "al_string option option"
  al_RunsOn :: "al_runner option"
  al_Strategy :: "al_matrix option option"

type_synonym al_workflow = "(string, al_job) gomap"

section \<open>The code\<close>

record RunsOnSpec =
  ro_Labels :: "string list"
  ro_Group :: string
  ro_Dynamic :: bool

type_synonym combo = "(string, string) gomap"

record MatrixSpec =
  mx_Combos :: "combo list"
  mx_Dynamic :: bool

record Job =
  job_ID :: string
  job_Needs :: "string list"
  job_RunsOn :: RunsOnSpec
  job_Matrix :: MatrixSpec
  job_UsesLocal :: string
  job_UsesRemote :: bool
  job_Dynamic :: bool

type_synonym Workflow = "(string, Job) gomap"

text \<open>The line scan of \<open>rejectMultiDoc\<close>: the documents counted so far and whether the current one has
  content.\<close>

definition is_marker :: "string \<Rightarrow> bool" where
  "is_marker l \<longleftrightarrow> trim_right (\<lambda>c. c \<in> {CHR '' '', CHR 0x09, CHR 0x0D}) l = ''---''"

definition has_content :: "string \<Rightarrow> bool" where
  "has_content l =
     (let t = trim_space (trim_right (\<lambda>c. c \<in> {CHR '' '', CHR 0x09, CHR 0x0D}) l) in
      \<not> (length t = 0 \<or> t ! 0 = CHR ''#''))"

fun count_docs :: "nat \<Rightarrow> bool \<Rightarrow> string list \<Rightarrow> nat" where
  "count_docs docs currentHasContent [] = (if currentHasContent then Suc docs else docs)"
| "count_docs docs currentHasContent (l # ls) =
     (if is_marker l then count_docs (if currentHasContent then Suc docs else docs) False ls
      else if \<not> has_content l then count_docs docs currentHasContent ls
      else count_docs docs True ls)"

definition rejectMultiDoc :: "string \<Rightarrow> error option" where
  "rejectMultiDoc raw =
     (if count_docs 0 False (str_split (CHR 0x0A) raw) > 1
      then Some (Error False ''multi-document YAML not supported'') else None)"

datatype usesKind = usesNone | usesLocal | usesRemote

definition classifyUses :: "string \<Rightarrow> usesKind" where
  "classifyUses s =
     (if s = [] then usesNone
      else if has_prefix s ''./'' then usesLocal
      else if List.member s (CHR ''@'') \<and> List.member s (CHR ''/'') then usesRemote
      else usesNone)"

fun mapLabels :: "al_string option list \<Rightarrow> RunsOnSpec \<Rightarrow> RunsOnSpec" where
  "mapLabels [] out = out"
| "mapLabels (None # ls) out = mapLabels ls out"
| "mapLabels (Some l # ls) out =
     (if str_ContainsExpression l then mapLabels ls (out\<lparr>ro_Dynamic := True\<rparr>)
      else mapLabels ls (out\<lparr>ro_Labels := ro_Labels out @ [str_Value l]\<rparr>))"

definition mapRunsOn :: "al_runner option \<Rightarrow> RunsOnSpec" where
  "mapRunsOn ro =
     (let out = \<lparr>ro_Labels = [], ro_Group = [], ro_Dynamic = False\<rparr> in
      case ro of
        None \<Rightarrow> out
      | Some r \<Rightarrow>
          (let out = (case run_Group r of None \<Rightarrow> out | Some g \<Rightarrow> out\<lparr>ro_Group := str_Value g\<rparr>);
               out = mapLabels (run_Labels r) out
           in if run_LabelsExpr r \<noteq> None then out\<lparr>ro_Dynamic := True\<rparr> else out))"

definition asRaw :: "raw_yaml option \<Rightarrow> string" where
  "asRaw v = (case v of None \<Rightarrow> [] | Some (RawYAMLString s) \<Rightarrow> s | Some (RawYAMLOther s) \<Rightarrow> s)"

record matrixAxis =
  ax_name :: string
  ax_values :: "string list"

text \<open>The loop over \<open>m.Rows\<close>; \<open>None\<close> is the early return with \<open>Dynamic\<close> set.\<close>

fun matrixRows :: "(string, al_row option) gomap \<Rightarrow> matrixAxis list \<Rightarrow> matrixAxis list option" where
  "matrixRows [] rows = Some rows"
| "matrixRows ((name, None) # rest) rows = matrixRows rest rows"
| "matrixRows ((name, Some r) # rest) rows =
     (if row_Expression r \<noteq> None then None
      else matrixRows rest (rows @ [\<lparr>ax_name = name, ax_values = map asRaw (row_Values r)\<rparr>]))"

fun crossProduct :: "matrixAxis list \<Rightarrow> combo list \<Rightarrow> combo list" where
  "crossProduct [] combos = combos"
| "crossProduct (r # rows) combos =
     crossProduct rows
       (concat (map (\<lambda>base. map (\<lambda>v. AList.update (ax_name r) v base) (ax_values r)) combos))"

fun matchesCombination :: "combo \<Rightarrow> (string, raw_yaml option option) gomap \<Rightarrow> bool" where
  "matchesCombination c [] = True"
| "matchesCombination c ((k, None) # as) = matchesCombination c as"
| "matchesCombination c ((k, Some a) # as) =
     (case map_of c k of
        None \<Rightarrow> False
      | Some got \<Rightarrow> if got \<noteq> asRaw a then False else matchesCombination c as)"

fun matchesAnyCombination :: "combo \<Rightarrow> al_combination option list \<Rightarrow> bool" where
  "matchesAnyCombination c [] = False"
| "matchesAnyCombination c (comb # combs) =
     (case comb of
        None \<Rightarrow> matchesAnyCombination c combs
      | Some cb \<Rightarrow>
          if comb_Expression cb \<noteq> None then matchesAnyCombination c combs
          else if matchesCombination c (comb_Assigns cb) then True
          else matchesAnyCombination c combs)"

definition applyExclude :: "combo list \<Rightarrow> al_combinations \<Rightarrow> combo list" where
  "applyExclude combos ex = filter (\<lambda>c. \<not> matchesAnyCombination c (combs_Combinations ex)) combos"

fun combinationMatchesOnAxes :: "combo \<Rightarrow> (string, raw_yaml option option) gomap \<Rightarrow> string list \<Rightarrow> bool" where
  "combinationMatchesOnAxes c [] rowKeys = True"
| "combinationMatchesOnAxes c ((k, a) # as) rowKeys =
     (if \<not> List.member rowKeys k then combinationMatchesOnAxes c as rowKeys
      else case a of
        None \<Rightarrow> combinationMatchesOnAxes c as rowKeys
      | Some v \<Rightarrow>
          (case map_of c k of
             None \<Rightarrow> False
           | Some got \<Rightarrow> if got \<noteq> asRaw v then False else combinationMatchesOnAxes c as rowKeys))"

text \<open>The loop that writes a combination's assignments into a map.\<close>

fun assignAll :: "(string, raw_yaml option option) gomap \<Rightarrow> combo \<Rightarrow> combo" where
  "assignAll [] cp = cp"
| "assignAll ((k, None) # as) cp = assignAll as cp"
| "assignAll ((k, Some a) # as) cp = assignAll as (AList.update k (asRaw a) cp)"

definition includeOne :: "string list \<Rightarrow> al_combination \<Rightarrow> combo list \<Rightarrow> combo list" where
  "includeOne rowKeys comb combos =
     (let merged = list_ex (\<lambda>c. combinationMatchesOnAxes c (comb_Assigns comb) rowKeys) combos;
          combos = map (\<lambda>c. if combinationMatchesOnAxes c (comb_Assigns comb) rowKeys
                            then assignAll (comb_Assigns comb) c else c) combos
      in if \<not> merged then combos @ [assignAll (comb_Assigns comb) []] else combos)"

fun includeAll :: "string list \<Rightarrow> al_combination option list \<Rightarrow> combo list \<Rightarrow> combo list" where
  "includeAll rowKeys [] combos = combos"
| "includeAll rowKeys (comb # combs) combos =
     (case comb of
        None \<Rightarrow> includeAll rowKeys combs combos
      | Some cb \<Rightarrow>
          if comb_Expression cb \<noteq> None then includeAll rowKeys combs combos
          else includeAll rowKeys combs (includeOne rowKeys cb combos))"

definition applyInclude :: "combo list \<Rightarrow> matrixAxis list \<Rightarrow> al_combinations \<Rightarrow> combo list" where
  "applyInclude combos rows inc = includeAll (map ax_name rows) (combs_Combinations inc) combos"

definition mapMatrix :: "al_matrix \<Rightarrow> MatrixSpec" where
  "mapMatrix m =
     (let dynamic = \<lparr>mx_Combos = [], mx_Dynamic = True\<rparr> in
      if mat_Expression m \<noteq> None then dynamic
      else case matrixRows (mat_Rows m) [] of
        None \<Rightarrow> dynamic
      | Some rows \<Rightarrow>
          (let rows = sort_slice (\<lambda>a b. ax_name a < ax_name b) rows;
               combos = crossProduct rows [[]];
               excluded = (case mat_Exclude m of
                  None \<Rightarrow> Some combos
                | Some ex \<Rightarrow> if combs_ContainsExpression ex then None else Some (applyExclude combos ex))
           in case excluded of
                None \<Rightarrow> dynamic
              | Some combos \<Rightarrow>
                  (case mat_Include m of
                     None \<Rightarrow> \<lparr>mx_Combos = combos, mx_Dynamic = False\<rparr>
                   | Some inc \<Rightarrow>
                       if combs_ContainsExpression inc then dynamic
                       else \<lparr>mx_Combos = applyInclude combos rows inc, mx_Dynamic = False\<rparr>)))"

text \<open>The slice \<open>t[3 : len(t)-2]\<close> is in range: a string with that prefix and that suffix has at least
  five bytes (\<open>expression_length\<close>).\<close>

definition singleMatrixRef :: "string \<Rightarrow> string option" where
  "singleMatrixRef s =
     (let t = trim_space s in
      if \<not> has_prefix t ''${{'' \<or> \<not> has_suffix t ''}}'' then None
      else
        (let inner = trim_space (take (length t - 2 - 3) (drop 3 t)) in
         if \<not> has_prefix inner ''matrix.'' then None
         else
           (let key = trim_prefix inner ''matrix.'' in
            if key = [] \<or> list_ex (\<lambda>c. c \<in> {CHR '' '', CHR 0x09, CHR ''('', CHR '')'', CHR ''.'', CHR ''$'', CHR ''{'', CHR ''}''}) key
            then None else Some key)))"

definition resolveMatrixRunsOn :: "string \<Rightarrow> combo list \<Rightarrow> string list option" where
  "resolveMatrixRunsOn expr combos =
     (case singleMatrixRef expr of
        None \<Rightarrow> None
      | Some key \<Rightarrow>
          (case combos of
             [] \<Rightarrow> None
           | c # _ \<Rightarrow> (case map_of c key of None \<Rightarrow> None | Some v \<Rightarrow> Some [v])))"

definition mapJob :: "string \<Rightarrow> al_job \<Rightarrow> Job" where
  "mapJob jid j =
     (let out = \<lparr>job_ID = jid, job_Needs = map str_Value (List.map_filter (\<lambda>x. x) (al_Needs j)),
                 job_RunsOn = \<lparr>ro_Labels = [], ro_Group = [], ro_Dynamic = False\<rparr>,
                 job_Matrix = \<lparr>mx_Combos = [], mx_Dynamic = False\<rparr>,
                 job_UsesLocal = [], job_UsesRemote = False, job_Dynamic = False\<rparr>
      in case al_WorkflowCall j of
           Some (Some uses) \<Rightarrow>
             (case classifyUses (str_Value uses) of
                usesLocal \<Rightarrow> out\<lparr>job_UsesLocal := str_Value uses\<rparr>
              | usesRemote \<Rightarrow> out\<lparr>job_UsesRemote := True\<rparr>
              | usesNone \<Rightarrow> out)
         | _ \<Rightarrow>
             (let out = out\<lparr>job_RunsOn := mapRunsOn (al_RunsOn j)\<rparr>;
                  out = (case al_Strategy j of
                           Some (Some m) \<Rightarrow> out\<lparr>job_Matrix := mapMatrix m\<rparr>
                         | _ \<Rightarrow> out);
                  out = (case al_RunsOn j of
                           None \<Rightarrow> out
                         | Some r \<Rightarrow>
                             (case run_LabelsExpr r of
                                None \<Rightarrow> out
                              | Some e \<Rightarrow>
                                  if \<not> mx_Dynamic (job_Matrix out) \<and> length (mx_Combos (job_Matrix out)) > 0
                                  then (case resolveMatrixRunsOn (str_Value e) (mx_Combos (job_Matrix out)) of
                                          Some resolved \<Rightarrow> out\<lparr>job_RunsOn := (job_RunsOn out)
                                             \<lparr>ro_Labels := resolved, ro_Dynamic := False\<rparr>\<rparr>
                                        | None \<Rightarrow> out)
                                  else out));
                  out = (if ro_Dynamic (job_RunsOn out) \<or> mx_Dynamic (job_Matrix out)
                         then out\<lparr>job_Dynamic := True\<rparr> else out);
                  out = (if mx_Dynamic (job_Matrix out)
                         then out\<lparr>job_RunsOn := (job_RunsOn out)\<lparr>ro_Dynamic := True\<rparr>, job_Dynamic := True\<rparr>
                         else out)
              in out))"

definition Parse :: "(string \<Rightarrow> al_workflow option \<times> string list) \<Rightarrow> string \<Rightarrow> error + Workflow" where
  "Parse actionlint raw =
     (case rejectMultiDoc raw of
        Some e \<Rightarrow> Inl e
      | None \<Rightarrow>
          (case actionlint raw of
             (None, errs) \<Rightarrow>
               (case errs of
                  msg # _ \<Rightarrow> Inl (Error False (''actionlint parse: '' @ msg))
                | [] \<Rightarrow> Inl (Error False ''actionlint parse: no workflow produced''))
           | (Some tree, _) \<Rightarrow> Inr (map (\<lambda>(jid, j). (jid, mapJob jid j)) tree)))"

section \<open>The cross product\<close>

text \<open>A combination as a map; the combinations a list of axes allows.\<close>

definition choices :: "matrixAxis list \<Rightarrow> (string \<rightharpoonup> string) set" where
  "choices rows = {m. dom m = ax_name ` set rows \<and> (\<forall>r \<in> set rows. \<exists>v \<in> set (ax_values r). m (ax_name r) = Some v)}"

lemma choices_Nil [simp]: "choices [] = {Map.empty}"
  by (auto simp: choices_def)

lemma crossProduct_concat: "crossProduct rows combos = concat (map (\<lambda>c. crossProduct rows [c]) combos)"
proof (induction rows arbitrary: combos)
  case (Cons r rows)
  let ?step = "\<lambda>base. map (\<lambda>v. AList.update (ax_name r) v base) (ax_values r)"
  have "crossProduct (r # rows) combos = concat (map (\<lambda>c. crossProduct rows [c]) (concat (map ?step combos)))"
    using Cons [of "concat (map ?step combos)"] by simp
  also have "\<dots> = concat (map (\<lambda>c. concat (map (\<lambda>c. crossProduct rows [c]) (?step c))) combos)"
    by (induction combos) simp_all
  also have "\<dots> = concat (map (\<lambda>c. crossProduct (r # rows) [c]) combos)"
    using Cons by (metis (no_types, lifting) append.right_neutral concat.simps crossProduct.simps(2) list.simps(8,9))
  finally show ?case .
qed (induction combos, simp_all)

lemma length_crossProduct:
  "length (crossProduct rows combos) = length combos * prod_list (map (\<lambda>r. length (ax_values r)) rows)"
proof (induction rows arbitrary: combos)
  case (Cons r rows)
  have "length (concat (map (\<lambda>base. map (\<lambda>v. AList.update (ax_name r) v base) (ax_values r)) combos))
      = length combos * length (ax_values r)"
    by (induction combos) simp_all
  then show ?case using Cons by simp
qed simp

lemma crossProduct_maps:
  assumes "distinct (map ax_name rows)" "ax_name ` set rows \<inter> dom (map_of base) = {}"
  shows "map_of ` set (crossProduct rows [base]) = (\<lambda>m. map_of base ++ m) ` choices rows"
  using assms
proof (induction rows arbitrary: base)
  case (Cons r rows)
  have fresh: "ax_name ` set rows \<inter> dom (map_of (AList.update (ax_name r) v base)) = {}" for v
    using Cons.prems by (auto simp: update_conv')
  have "map_of ` set (crossProduct (r # rows) [base])
      = (\<Union>v \<in> set (ax_values r). map_of ` set (crossProduct rows [AList.update (ax_name r) v base]))"
    by (simp, subst crossProduct_concat) auto
  also have "\<dots> = (\<Union>v \<in> set (ax_values r). (\<lambda>m. map_of (AList.update (ax_name r) v base) ++ m) ` choices rows)"
    using Cons.IH [OF _ fresh] Cons.prems(1) by simp
  also have "\<dots> = (\<lambda>m. map_of base ++ m) ` choices (r # rows)"
  proof (intro equalityI subsetI)
    fix f assume "f \<in> (\<Union>v \<in> set (ax_values r). (\<lambda>m. map_of (AList.update (ax_name r) v base) ++ m) ` choices rows)"
    then obtain v m where v: "v \<in> set (ax_values r)" and m: "m \<in> choices rows"
      and f: "f = (map_of base)(ax_name r \<mapsto> v) ++ m" by (auto simp: update_conv')
    have notin: "ax_name r \<notin> dom m" using m Cons.prems(1) by (auto simp: choices_def)
    then have "f = map_of base ++ m(ax_name r \<mapsto> v)"
      using f by (auto simp: map_add_def fun_eq_iff split: option.split)
    moreover have "m(ax_name r \<mapsto> v) \<in> choices (r # rows)"
      using m v Cons.prems(1) by (fastforce simp: choices_def)
    ultimately show "f \<in> (\<lambda>m. map_of base ++ m) ` choices (r # rows)" by blast
  next
    fix f assume "f \<in> (\<lambda>m. map_of base ++ m) ` choices (r # rows)"
    then obtain m where m: "m \<in> choices (r # rows)" and f: "f = map_of base ++ m" by blast
    obtain v where v: "v \<in> set (ax_values r)" "m (ax_name r) = Some v" using m by (auto simp: choices_def)
    let ?m = "m |` (ax_name ` set rows)"
    have "?m \<in> choices rows" using m by (auto simp: choices_def restrict_map_def dom_def)
    moreover have "dom m = insert (ax_name r) (ax_name ` set rows)" using m by (simp add: choices_def)
    then have "f = (map_of base)(ax_name r \<mapsto> v) ++ ?m"
      using f v by (auto simp: fun_eq_iff map_add_def restrict_map_def dom_def split: option.split)
    ultimately show "f \<in> (\<Union>v \<in> set (ax_values r). (\<lambda>m. map_of (AList.update (ax_name r) v base) ++ m) ` choices rows)"
      using v(1) by (auto simp: update_conv')
  qed
  finally show ?case .
qed simp

section \<open>Rows\<close>

definition axes :: "(string, al_row option) gomap \<Rightarrow> matrixAxis list" where
  "axes rows = List.map_filter (\<lambda>(name, r). map_option (\<lambda>r. \<lparr>ax_name = name, ax_values = map asRaw (row_Values r)\<rparr>) r) rows"

definition literal_rows :: "(string, al_row option) gomap \<Rightarrow> bool" where
  "literal_rows rows \<longleftrightarrow> (\<forall>(name, r) \<in> set rows. case r of None \<Rightarrow> True | Some r \<Rightarrow> row_Expression r = None)"

lemma axes_simps [simp]:
  "axes [] = []" "axes ((n, None) # rows) = axes rows"
  "axes ((n, Some r) # rows) = \<lparr>ax_name = n, ax_values = map asRaw (row_Values r)\<rparr> # axes rows"
  by (simp_all add: axes_def map_filter_simps)

lemma matrixRows_eq: "matrixRows rows acc = (if literal_rows rows then Some (acc @ axes rows) else None)"
  by (induction rows acc rule: matrixRows.induct) (auto simp: literal_rows_def)

lemma axes_names: "set (map ax_name (axes rows)) \<subseteq> set (keys rows)"
proof (induction rows)
  case (Cons nr rows)
  then show ?case by (cases nr; cases "snd nr") auto
qed simp

lemma axes_distinct: "distinct (keys rows) \<Longrightarrow> distinct (map ax_name (axes rows))"
proof (induction rows)
  case (Cons nr rows)
  then show ?case using axes_names [of rows] by (cases nr; cases "snd nr") auto
qed simp

section \<open>Exclude\<close>

definition assigns_in :: "(string, raw_yaml option option) gomap \<Rightarrow> (string \<rightharpoonup> string) \<Rightarrow> bool" where
  "assigns_in as m \<longleftrightarrow> (\<forall>(k, a) \<in> set as. case a of None \<Rightarrow> True | Some v \<Rightarrow> m k = Some (asRaw v))"

lemma matchesCombination_iff: "matchesCombination c as \<longleftrightarrow> assigns_in as (map_of c)"
  by (induction c as rule: matchesCombination.induct) (auto simp: assigns_in_def split: option.split)

definition literal_combs :: "al_combination option list \<Rightarrow> al_combination list" where
  "literal_combs cs = filter (\<lambda>cb. comb_Expression cb = None) (List.map_filter (\<lambda>x. x) cs)"

lemma literal_combs_simps [simp]:
  "literal_combs [] = []" "literal_combs (None # cs) = literal_combs cs"
  "literal_combs (Some c # cs) = (if comb_Expression c = None then c # literal_combs cs else literal_combs cs)"
  by (simp_all add: literal_combs_def map_filter_simps)

lemma matchesAny_iff:
  "matchesAnyCombination c cs \<longleftrightarrow> (\<exists>cb \<in> set (literal_combs cs). assigns_in (comb_Assigns cb) (map_of c))"
  by (induction cs) (auto simp: matchesCombination_iff split: option.split)

section \<open>Include\<close>

lemma onAxes_iff:
  "combinationMatchesOnAxes c as ks \<longleftrightarrow> assigns_in (filter (\<lambda>(k, a). k \<in> set ks) as) (map_of c)"
  by (induction c as ks rule: combinationMatchesOnAxes.induct) (auto simp: assigns_in_def split: option.split)

lemma assignAll_axis:
  "combinationMatchesOnAxes c as ks \<Longrightarrow> k \<in> set ks \<Longrightarrow> map_of cp k = map_of c k \<Longrightarrow>
    map_of (assignAll as cp) k = map_of c k"
proof (induction as cp rule: assignAll.induct)
  case (3 j a as cp)
  then show ?case
    by (cases "j = k") (auto simp: update_conv' split: if_splits option.splits)
qed (auto split: if_splits option.splits)

lemma length_includeOne:
  "length combos \<le> length (includeOne ks cb combos) \<and> length (includeOne ks cb combos) \<le> Suc (length combos)"
  by (simp add: includeOne_def Let_def)

lemma includeOne_axis:
  "i < length combos \<Longrightarrow> k \<in> set ks \<Longrightarrow> map_of (includeOne ks cb combos ! i) k = map_of (combos ! i) k"
  by (simp add: includeOne_def Let_def nth_append assignAll_axis)

lemma includeAll_keeps:
  "length combos \<le> length (includeAll ks cs combos)
   \<and> length (includeAll ks cs combos) \<le> length combos + length cs
   \<and> (\<forall>i < length combos. \<forall>k \<in> set ks. map_of (includeAll ks cs combos ! i) k = map_of (combos ! i) k)"
proof (induction cs arbitrary: combos)
  case (Cons comb cs)
  show ?case
  proof (cases "comb = None \<or> comb_Expression (the comb) \<noteq> None")
    case True
    then show ?thesis using Cons [of combos] by (auto split: option.split)
  next
    case False
    then obtain cb where cb: "comb = Some cb" "comb_Expression cb = None" by auto
    note one = length_includeOne [of combos ks cb]
    have "map_of (includeAll ks cs (includeOne ks cb combos) ! i) k = map_of (combos ! i) k"
      if "i < length combos" "k \<in> set ks" for i k
      using Cons [of "includeOne ks cb combos"] includeOne_axis [OF that] one that by auto
    then show ?thesis using Cons [of "includeOne ks cb combos"] one cb by auto
  qed
qed simp

text \<open>With no axes every include entry matches every combination.\<close>

lemma onAxes_Nil [simp]: "combinationMatchesOnAxes c as []"
  by (induction as) (auto simp: onAxes_iff assigns_in_def)

lemma includeAll_no_axes: "combos \<noteq> [] \<Longrightarrow> length (includeAll [] cs combos) = length combos"
proof (induction cs arbitrary: combos)
  case (Cons comb cs)
  have "includeOne [] cb combos = map (assignAll (comb_Assigns cb)) combos" for cb
    using Cons.prems by (cases combos) (auto simp: includeOne_def Let_def)
  then show ?case using Cons by (auto split: option.split)
qed simp

section \<open>Labels\<close>

lemma mapLabels_eq:
  "ro_Labels (mapLabels ls out) = ro_Labels out @ map str_Value (filter (\<lambda>l. \<not> str_ContainsExpression l) (List.map_filter (\<lambda>x. x) ls))"
  "ro_Dynamic (mapLabels ls out) \<longleftrightarrow> ro_Dynamic out \<or> list_ex str_ContainsExpression (List.map_filter (\<lambda>x. x) ls)"
  by (induction ls out rule: mapLabels.induct) (auto simp: map_filter_simps)

definition literal_labels :: "al_runner option \<Rightarrow> string list" where
  "literal_labels ro = (case ro of None \<Rightarrow> [] | Some r \<Rightarrow>
     map str_Value (filter (\<lambda>l. \<not> str_ContainsExpression l) (List.map_filter (\<lambda>x. x) (run_Labels r))))"

lemma mapRunsOn_labels: "ro_Labels (mapRunsOn ro) = literal_labels ro"
  by (simp add: mapRunsOn_def literal_labels_def mapLabels_eq Let_def split: option.split)

lemma mapRunsOn_dynamic:
  "\<not> ro_Dynamic (mapRunsOn (Some r)) \<Longrightarrow> run_LabelsExpr r = None
     \<and> (\<forall>l. Some l \<in> set (run_Labels r) \<longrightarrow> \<not> str_ContainsExpression l)"
  by (auto simp: mapRunsOn_def mapLabels_eq Let_def list_ex_iff map_filter_def split: option.splits if_splits)

lemma mapRunsOn_expr [simp]: "run_LabelsExpr r = Some e \<Longrightarrow> ro_Dynamic (mapRunsOn (Some r))"
  by (simp add: mapRunsOn_def Let_def split: option.split)

section \<open>Documents\<close>

text \<open>The lines of each document: the parts between marker lines.\<close>

fun documents :: "string list \<Rightarrow> string list list" where
  "documents [] = [[]]"
| "documents (l # ls) =
     (if is_marker l then [] # documents ls
      else (case documents ls of [] \<Rightarrow> [[l]] | d # ds \<Rightarrow> (l # d) # ds))"

lemma documents_not_Nil [simp]: "documents ls \<noteq> []"
  by (cases ls) (auto split: list.split)

lemma count_docs_documents:
  "count_docs n b ls = n + length (filter (list_ex has_content) (tl (documents ls)))
     + (if b \<or> list_ex has_content (hd (documents ls)) then 1 else 0)"
proof (induction n b ls rule: count_docs.induct)
  case (2 n b l ls)
  obtain d ds where "documents ls = d # ds" by (meson documents_not_Nil neq_Nil_conv)
  then show ?case using 2 by auto
qed simp

section \<open>References to the matrix\<close>

lemma expression_length:
  assumes "has_prefix t ''${{''" "has_suffix t ''}}''"
  shows "5 \<le> length t"
proof -
  obtain a where a: "t = ''${{'' @ a" using assms(1) by (auto simp: has_prefix_iff prefix_def)
  obtain b where b: "t = b @ ''}}''" using assms(2) by (auto simp: has_suffix_iff suffix_def)
  show ?thesis
  proof (rule ccontr)
    assume "\<not> 5 \<le> length t"
    then have "length b \<le> 2" using b by simp
    then consider "b = []" | x where "b = [x]" | x y where "b = [x, y]"
      by (metis (no_types, lifting) One_nat_def Suc_1 le_SucE le_zero_eq length_0_conv length_Suc_conv)
    then show False using a b by cases auto
  qed
qed

section \<open>Properties\<close>

lemma choices_cong: "set rows = set rows' \<Longrightarrow> choices rows = choices rows'"
  by (simp add: choices_def)

lemma sorted_axes:
  assumes "distinct (keys rows)" "mset rows' = mset rows"
  shows "sort_slice (\<lambda>a b. ax_name a < ax_name b) (axes rows') = sort_slice (\<lambda>a b. ax_name a < ax_name b) (axes rows)"
proof -
  let ?lt = "\<lambda>a b. ax_name a < ax_name b"
  have mf: "mset (List.map_filter f xs) = mset (List.map_filter f ys)" if "mset xs = mset ys" for f :: "'x \<Rightarrow> 'y option" and xs ys
    using that unfolding map_filter_def by (metis mset_filter mset_map)
  have "mset (axes rows') = mset (axes rows)" unfolding axes_def using assms(2) by (rule mf)
  moreover have "sorted (map ax_name (sort_slice ?lt (axes rows')))" by (rule sorted_sort_slice) simp
  moreover have "inj_on ax_name (set (axes rows))" using axes_distinct [OF assms(1)] by (simp add: distinct_map)
  ultimately show ?thesis by (intro sort_slice_unique [where key = ax_name]) simp_all
qed

text \<open>C27. A literal matrix expands to exactly its combinations. For a matrix with no expressions and no
  include, the combinations are, as maps, all ways of choosing one value from each axis, less those
  that agree with every assignment of some exclude entry; without exclude there are as many of them
  as the product of the axes' lengths. The order in which Go visits the rows does not matter.\<close>

theorem matrix_expansion:
  assumes "mat_Expression m = None" "literal_rows (mat_Rows m)" "distinct (keys (mat_Rows m))" "mat_Include m = None"
    and "\<forall>ex. mat_Exclude m = Some ex \<longrightarrow> \<not> combs_ContainsExpression ex"
    and "mset rows' = mset (mat_Rows m)"
  shows "\<not> mx_Dynamic (mapMatrix m)
    \<and> map_of ` set (mx_Combos (mapMatrix m)) =
        {c \<in> choices (axes (mat_Rows m)). \<not> (\<exists>ex cb. mat_Exclude m = Some ex
           \<and> cb \<in> set (literal_combs (combs_Combinations ex)) \<and> assigns_in (comb_Assigns cb) c)}
    \<and> (mat_Exclude m = None \<longrightarrow>
        length (mx_Combos (mapMatrix m)) = prod_list (map (\<lambda>r. length (ax_values r)) (axes (mat_Rows m))))
    \<and> mapMatrix (m\<lparr>mat_Rows := rows'\<rparr>) = mapMatrix m"
proof -
  let ?rows = "sort_slice (\<lambda>a b. ax_name a < ax_name b) (axes (mat_Rows m))"
  let ?combos = "crossProduct ?rows [[]]"
  have d: "distinct (map ax_name ?rows)"
    using axes_distinct [OF assms(3)] by (metis mset_map mset_sort_slice mset_eq_imp_distinct_iff)
  have maps: "map_of ` set ?combos = choices (axes (mat_Rows m))"
    using crossProduct_maps [OF d, of "[]"] choices_cong [of ?rows "axes (mat_Rows m)"] by simp
  have eq: "mapMatrix m = \<lparr>mx_Combos = (case mat_Exclude m of None \<Rightarrow> ?combos | Some ex \<Rightarrow> applyExclude ?combos ex),
      mx_Dynamic = False\<rparr>"
    using assms by (auto simp: mapMatrix_def Let_def matrixRows_eq split: option.split)
  have "literal_rows rows'" using assms(2,6) unfolding literal_rows_def by (metis mset_eq_setD)
  then have "mapMatrix (m\<lparr>mat_Rows := rows'\<rparr>) = mapMatrix m"
    using assms sorted_axes [OF assms(3,6)] by (simp add: mapMatrix_def Let_def matrixRows_eq split: option.split)
  moreover have "length ?combos = prod_list (map (\<lambda>r. length (ax_values r)) (axes (mat_Rows m)))"
    by (simp add: length_crossProduct flip: prod_mset_prod_list)
  moreover have "map_of ` set (applyExclude ?combos ex) = {c \<in> choices (axes (mat_Rows m)).
      \<not> (\<exists>cb \<in> set (literal_combs (combs_Combinations ex)). assigns_in (comb_Assigns cb) c)}" for ex
    unfolding maps [symmetric] applyExclude_def by (auto simp: matchesAny_iff)
  ultimately show ?thesis
  proof (cases "mat_Exclude m")
    case None
    then have "mapMatrix m = \<lparr>mx_Combos = ?combos, mx_Dynamic = False\<rparr>" using eq by simp
    then show ?thesis using None maps \<open>length ?combos = _\<close> \<open>mapMatrix (m\<lparr>mat_Rows := rows'\<rparr>) = mapMatrix m\<close> by simp
  next
    case (Some ex)
    then have "mapMatrix m = \<lparr>mx_Combos = applyExclude ?combos ex, mx_Dynamic = False\<rparr>" using eq by simp
    then show ?thesis using Some \<open>\<And>ex. map_of ` set (applyExclude ?combos ex) = _ ex\<close>
        \<open>mapMatrix (m\<lparr>mat_Rows := rows'\<rparr>) = mapMatrix m\<close> by auto
  qed
qed

definition example_matrix :: al_matrix where
  "example_matrix =
     \<lparr>mat_Expression = None,
      mat_Rows = [(''os'', Some \<lparr>row_Expression = None, row_Values = [Some (RawYAMLString ''linux''), Some (RawYAMLString ''mac'')]\<rparr>),
                  (''go'', Some \<lparr>row_Expression = None, row_Values = [Some (RawYAMLOther ''1''), Some (RawYAMLOther ''2'')]\<rparr>)],
      mat_Include = None,
      mat_Exclude = Some \<lparr>combs_Combinations = [Some \<lparr>comb_Expression = None,
          comb_Assigns = [(''os'', Some (Some (RawYAMLString ''mac''))), (''go'', Some (Some (RawYAMLOther ''1'')))]\<rparr>],
        combs_ContainsExpression = False\<rparr>\<rparr>"

theorem matrix_expansion_witness:
  "length (mx_Combos (mapMatrix example_matrix)) = 3
   \<and> [''os'' \<mapsto> ''mac'', ''go'' \<mapsto> ''1''] \<notin> map_of ` set (mx_Combos (mapMatrix example_matrix))"
proof -
  have a: "mat_Expression example_matrix = None" "mat_Include example_matrix = None"
    "distinct (keys (mat_Rows example_matrix))" "literal_rows (mat_Rows example_matrix)" by code_simp+
  have b: "\<forall>ex. mat_Exclude example_matrix = Some ex \<longrightarrow> \<not> combs_ContainsExpression ex"
    by (simp add: example_matrix_def)
  have "length (mx_Combos (mapMatrix example_matrix)) = 3" by code_simp
  moreover have "\<exists>ex cb. mat_Exclude example_matrix = Some ex \<and> cb \<in> set (literal_combs (combs_Combinations ex))
      \<and> assigns_in (comb_Assigns cb) [''os'' \<mapsto> ''mac'', ''go'' \<mapsto> ''1'']"
    by (simp add: example_matrix_def assigns_in_def asRaw_def)
  ultimately show ?thesis
    using matrix_expansion [OF a(1,4,3,2) b refl] by blast
qed

text \<open>C29. Include entries never take anything away: the combinations of the matrix keep their places and
  their values on the axes, each entry adds at most one combination, and none disappears.\<close>

theorem include_keeps_matrix:
  assumes "mat_Include m = Some inc" "\<not> mx_Dynamic (mapMatrix m)"
  shows "let base = mx_Combos (mapMatrix (m\<lparr>mat_Include := None\<rparr>)); full = mx_Combos (mapMatrix m)
    in length base \<le> length full \<and> length full \<le> length base + length (combs_Combinations inc)
       \<and> (\<forall>i < length base. \<forall>r \<in> set (axes (mat_Rows m)). map_of (full ! i) (ax_name r) = map_of (base ! i) (ax_name r))"
proof -
  let ?rows = "sort_slice (\<lambda>a b. ax_name a < ax_name b) (axes (mat_Rows m))"
  let ?base = "mx_Combos (mapMatrix (m\<lparr>mat_Include := None\<rparr>))"
  have "mx_Combos (mapMatrix m) = includeAll (map ax_name ?rows) (combs_Combinations inc) ?base"
    using assms by (auto simp: mapMatrix_def Let_def matrixRows_eq applyInclude_def split: option.splits if_splits)
  then show ?thesis
    using includeAll_keeps [of ?base "map ax_name ?rows" "combs_Combinations inc"] by (simp add: Let_def)
qed

theorem include_keeps_matrix_witness:
  "let m = example_matrix\<lparr>mat_Include := Some \<lparr>combs_Combinations = [Some \<lparr>comb_Expression = None,
         comb_Assigns = [(''os'', Some (Some (RawYAMLString ''win'')))]\<rparr>], combs_ContainsExpression = False\<rparr>\<rparr>
   in length (mx_Combos (mapMatrix m)) = 4
      \<and> map_of (mx_Combos (mapMatrix m) ! 0) ''os'' = map_of (mx_Combos (mapMatrix example_matrix) ! 0) ''os''"
proof -
  let ?inc = "\<lparr>combs_Combinations = [Some \<lparr>comb_Expression = None,
    comb_Assigns = [(''os'', Some (Some (RawYAMLString ''win'')))]\<rparr>], combs_ContainsExpression = False\<rparr>"
  let ?m = "example_matrix\<lparr>mat_Include := Some ?inc\<rparr>"
  have i: "mat_Include ?m = Some ?inc" by simp
  have d: "\<not> mx_Dynamic (mapMatrix ?m)" by code_simp
  have "?m\<lparr>mat_Include := None\<rparr> = example_matrix" by (simp add: example_matrix_def)
  moreover have "length (mx_Combos (mapMatrix ?m)) = 4" "length (mx_Combos (mapMatrix example_matrix)) = 3"
    "''os'' \<in> ax_name ` set (axes (mat_Rows ?m))" by code_simp+
  ultimately show ?thesis
    using include_keeps_matrix [OF i d] unfolding Let_def by auto
qed

text \<open>C30. A file is rejected as multi-document exactly when at least two of the parts between its \<open>---\<close>
  lines have a line that is neither blank nor a comment.\<close>

theorem multi_document_rejected:
  "rejectMultiDoc raw \<noteq> None \<longleftrightarrow>
     2 \<le> length (filter (list_ex has_content) (documents (str_split (CHR 0x0A) raw)))"
proof -
  obtain d ds where "documents (str_split (CHR 0x0A) raw) = d # ds" by (meson documents_not_Nil neq_Nil_conv)
  moreover define n where "n = length (filter (list_ex has_content) ds)"
  ultimately have "count_docs 0 False (str_split (CHR 0x0A) raw) = n + (if list_ex has_content d then 1 else 0)"
    "length (filter (list_ex has_content) (documents (str_split (CHR 0x0A) raw))) = (if list_ex has_content d then Suc n else n)"
    by (simp_all add: count_docs_documents)
  then show ?thesis unfolding rejectMultiDoc_def by (cases "list_ex has_content d") auto
qed


definition example_job :: al_job where
  "example_job =
     \<lparr>al_Needs = [Some \<lparr>str_Value = ''build'', str_ContainsExpression = False\<rparr>], al_WorkflowCall = None,
      al_RunsOn = Some \<lparr>run_Labels = [], run_LabelsExpr = Some \<lparr>str_Value = ''${{ matrix.os }}'',
        str_ContainsExpression = True\<rparr>, run_Group = None\<rparr>,
      al_Strategy = Some (Some example_matrix)\<rparr>"


section \<open>Where the count is off\<close>

text \<open>A matrix that consists of include entries only is one combination, however many entries it has;
  GitHub runs one job for each.\<close>

lemma include_only_matrix_is_one:
  assumes "mat_Expression m = None" "mat_Rows m = []" "mat_Exclude m = None" "mat_Include m = Some inc"
    "\<not> combs_ContainsExpression inc"
  shows "length (mx_Combos (mapMatrix m)) = 1"
  using assms includeAll_no_axes [of "[[]]" "combs_Combinations inc"]
  by (simp add: mapMatrix_def Let_def applyInclude_def)

end
