(* ===== verification/Predictor.thy ===== *)
theory Predictor
  imports Fetcher Workflow Labels
begin

text \<open>
  The needs-graph predictor (\<open>internal/predictor/workflow_needs_graph.go\<close>): active runs, their
  materialised jobs, and the walk through each run's workflow and the local reusable workflows it
  calls.

  The fetcher of workflow files is an interface in the code and the argument \<open>ge_fetch\<close> here; theory
  Fetcher interprets it. The YAML parser \<open>actionlint\<close> and the decoding of the two JSON listings are
  arguments as well. The state is the listing cache, the fetcher, the API log and the list of hook
  calls. \<open>visited\<close> is passed down the recursion: the code inserts a key before it descends and
  deletes it when it returns. Counts are unbounded where the code has 64-bit integers.
\<close>

section \<open>The code\<close>

definition DefaultRunsCap :: int where "DefaultRunsCap = 50"
definition maxReusableDepth :: nat where "maxReusableDepth = 10"

definition activeStatuses :: "string list" where
  "activeStatuses = [''in_progress'', ''queued'', ''pending'', ''requested'', ''waiting'']"

datatype hook = OnDynamicSkipped string | OnYAMLFetch string

record WorkflowNeedsGraph =
  g_runsCap :: int
  g_baseURL :: string

record listCacheEntry =
  lc_etag :: string
  lc_body :: string

record 'f graph =
  gr_listCache :: "string \<rightharpoonup> listCacheEntry"
  gr_fetcher :: 'f
  gr_api :: api
  gr_hooks :: "hook list"

definition NewWorkflowNeedsGraph :: "int \<Rightarrow> WorkflowNeedsGraph" where
  "NewWorkflowNeedsGraph runsCap =
     \<lparr>g_runsCap = (if runsCap \<le> 0 then DefaultRunsCap else runsCap), g_baseURL = defaultGitHubAPI\<rparr>"

record runRef =
  run_ID :: int64
  run_Path :: string
  run_HeadSHA :: string

record jobRef =
  jr_Name :: string
  jr_Status :: string

record 'f graph_env =
  ge_out :: outside
  ge_fetch :: "'f \<Rightarrow> api \<Rightarrow> string \<Rightarrow> string \<Rightarrow> string \<Rightarrow> string \<Rightarrow> string \<Rightarrow> (error + string) \<times> 'f \<times> api"
  ge_actionlint :: "string \<Rightarrow> al_workflow option \<times> string list"
  ge_runs :: "string \<Rightarrow> error + runRef list"
  ge_jobs :: "string \<Rightarrow> error + jobRef list"

definition listETag :: "'f graph \<Rightarrow> string \<Rightarrow> string" where
  "listETag g key = (case gr_listCache g key of Some e \<Rightarrow> lc_etag e | None \<Rightarrow> [])"

definition cachedBody :: "'f graph \<Rightarrow> string \<Rightarrow> string option" where
  "cachedBody g key = (case gr_listCache g key of Some e \<Rightarrow> Some (lc_body e) | None \<Rightarrow> None)"

definition storeList :: "string \<Rightarrow> string \<Rightarrow> string \<Rightarrow> 'f graph \<Rightarrow> 'f graph" where
  "storeList key etag body g =
     g\<lparr>gr_listCache := (gr_listCache g)(key \<mapsto> \<lparr>lc_etag = etag, lc_body = body\<rparr>)\<rparr>"

definition listRequest :: "'f graph \<Rightarrow> string \<Rightarrow> string \<Rightarrow> request" where
  "listRequest g u token =
     (let h = header_set ''Accept'' ''application/vnd.github+json'' [];
          tok = trim_space token;
          h = (if tok \<noteq> [] then header_set ''Authorization'' (''Bearer '' @ tok) h else h);
          etag = listETag g u;
          h = (if etag \<noteq> [] then header_set ''If-None-Match'' etag h else h)
      in \<lparr>rq_URL = u, rq_Header = h\<rparr>)"

definition cachedGet :: "outside \<Rightarrow> string \<Rightarrow> string \<Rightarrow> 'f graph \<Rightarrow> (error + string) \<times> 'f graph" where
  "cachedGet out u token g =
     (case out_NewRequest out u of
        Some err \<Rightarrow> (Inl err, g)
      | None \<Rightarrow>
          (let (res, s) = client_Do out (listRequest g u token) (gr_api g); g = g\<lparr>gr_api := s\<rparr> in
           case res of
             Inl err \<Rightarrow> (Inl err, g)
           | Inr resp \<Rightarrow>
               if rp_StatusCode resp = 200 then
                 (case rp_Body resp of
                    Inl rerr \<Rightarrow> (Inl rerr, g)
                  | Inr body \<Rightarrow> (Inr body, storeList u (header_get (rp_Header resp) ''ETag'') body g))
               else if rp_StatusCode resp = 304 then
                 (case cachedBody g u of
                    Some cached \<Rightarrow> (Inr cached, g)
                  | None \<Rightarrow> (Inl (Error False (''304 with no cached payload for '' @ u)), g))
               else (Inl (Error False (''GET '' @ u @ '': '' @ rp_Status resp)), g)))"

definition emit :: "hook \<Rightarrow> 'f graph \<Rightarrow> 'f graph" where
  "emit h g = g\<lparr>gr_hooks := gr_hooks g @ [h]\<rparr>"

definition repoURL :: "WorkflowNeedsGraph \<Rightarrow> string \<Rightarrow> string \<Rightarrow> string" where
  "repoURL cfg owner repo =
     trim_right (\<lambda>c. c = CHR ''/'') (g_baseURL cfg) @ ''/repos/'' @ PathEscape owner @ ''/'' @ PathEscape repo"

definition runsURL :: "WorkflowNeedsGraph \<Rightarrow> string \<Rightarrow> string \<Rightarrow> string \<Rightarrow> string" where
  "runsURL cfg owner repo status = repoURL cfg owner repo @ ''/actions/runs?status='' @ QueryEscape status"

definition jobsURL :: "WorkflowNeedsGraph \<Rightarrow> string \<Rightarrow> string \<Rightarrow> int64 \<Rightarrow> string" where
  "jobsURL cfg owner repo runID =
     repoURL cfg owner repo @ ''/actions/runs/'' @ show_int runID @ ''/jobs?filter=latest''"

text \<open>The inner loop of \<open>listActiveRuns\<close>: \<open>Inl\<close> is the return at the cap.\<close>

fun collectRuns :: "int \<Rightarrow> runRef list \<Rightarrow> int64 list \<Rightarrow> runRef list \<Rightarrow> runRef list + (int64 list \<times> runRef list)" where
  "collectRuns cap [] seen acc = Inr (seen, acc)"
| "collectRuns cap (r # rs) seen acc =
     (if List.member seen (run_ID r) then collectRuns cap rs seen acc
      else let seen = run_ID r # seen; acc = acc @ [r] in
           if int (length acc) \<ge> cap then Inl acc else collectRuns cap rs seen acc)"

fun listRunsLoop ::
  "'f graph_env \<Rightarrow> WorkflowNeedsGraph \<Rightarrow> string \<Rightarrow> string \<Rightarrow> string \<Rightarrow> string list \<Rightarrow> int64 list \<Rightarrow> runRef list \<Rightarrow>
    'f graph \<Rightarrow> (error + runRef list) \<times> 'f graph" where
  "listRunsLoop E cfg owner repo token [] seen acc g = (Inr acc, g)"
| "listRunsLoop E cfg owner repo token (status # statuses) seen acc g =
     (case cachedGet (ge_out E) (runsURL cfg owner repo status) token g of
        (Inl err, g) \<Rightarrow> (Inl (Error (err_not_found err) (''list runs (status='' @ status @ ''): '' @ err_text err)), g)
      | (Inr body, g) \<Rightarrow>
          (case ge_runs E body of
             Inl err \<Rightarrow> (Inl (Error (err_not_found err) (''decode runs (status='' @ status @ ''): '' @ err_text err)), g)
           | Inr parsed \<Rightarrow>
               (case collectRuns (g_runsCap cfg) parsed seen acc of
                  Inl acc \<Rightarrow> (Inr acc, g)
                | Inr (seen, acc) \<Rightarrow> listRunsLoop E cfg owner repo token statuses seen acc g)))"

definition listActiveRuns ::
  "'f graph_env \<Rightarrow> WorkflowNeedsGraph \<Rightarrow> string \<Rightarrow> string \<Rightarrow> string \<Rightarrow> 'f graph \<Rightarrow> (error + runRef list) \<times> 'f graph" where
  "listActiveRuns E cfg owner repo token g = listRunsLoop E cfg owner repo token activeStatuses [] [] g"

definition listJobs ::
  "'f graph_env \<Rightarrow> WorkflowNeedsGraph \<Rightarrow> string \<Rightarrow> string \<Rightarrow> int64 \<Rightarrow> string \<Rightarrow> 'f graph \<Rightarrow>
    (error + string list) \<times> 'f graph" where
  "listJobs E cfg owner repo runID token g =
     (case cachedGet (ge_out E) (jobsURL cfg owner repo runID) token g of
        (Inl err, g) \<Rightarrow> (Inl err, g)
      | (Inr body, g) \<Rightarrow>
          (case ge_jobs E body of
             Inl err \<Rightarrow> (Inl err, g)
           | Inr parsed \<Rightarrow> (Inr (map jr_Name parsed), g)))"

fun allMaterialized :: "string list \<Rightarrow> string list \<Rightarrow> bool" where
  "allMaterialized [] materialized = True"
| "allMaterialized (n # needs) materialized =
     (if \<not> List.member materialized n then False else allMaterialized needs materialized)"

definition resolveLabels :: "RunsOnSpec \<Rightarrow> string list" where
  "resolveLabels r = (if ro_Group r = [] then ro_Labels r else (''group:'' @ ro_Group r) # ro_Labels r)"

record walk_args =
  wa_owner :: string
  wa_repo :: string
  wa_headSHA :: string
  wa_token :: string
  wa_materialized :: "string list"

definition visitKey :: "walk_args \<Rightarrow> string \<Rightarrow> string" where
  "visitKey a path = wa_owner a @ ''/'' @ wa_repo a @ ''/'' @ path @ ''@'' @ wa_headSHA a"

definition loadFile :: "'f graph_env \<Rightarrow> walk_args \<Rightarrow> string \<Rightarrow> 'f graph \<Rightarrow> (error + string) \<times> 'f graph" where
  "loadFile E a path g =
     (let (r, f, s) = ge_fetch E (gr_fetcher g) (gr_api g) (wa_owner a) (wa_repo a) path (wa_headSHA a) (wa_token a)
      in (r, g\<lparr>gr_fetcher := f, gr_api := s\<rparr>))"

text \<open>The walk and the descent into a local reusable workflow call each other; the depth bounds the
  descent, the list of jobs the walk.\<close>

function (sequential)
  walkWorkflow ::
    "'f graph_env \<Rightarrow> walk_args \<Rightarrow> Workflow \<Rightarrow> string list \<Rightarrow> nat \<Rightarrow> (string, int) gomap \<Rightarrow> 'f graph \<Rightarrow>
      (string, int) gomap \<times> 'f graph" and
  recurseLocal ::
    "'f graph_env \<Rightarrow> walk_args \<Rightarrow> string \<Rightarrow> string list \<Rightarrow> nat \<Rightarrow> (string, int) gomap \<Rightarrow> 'f graph \<Rightarrow>
      (string, int) gomap \<times> 'f graph" where
  "walkWorkflow E a [] visited depth dst g = (dst, g)"
| "walkWorkflow E a ((jid, job) # jobs) visited depth dst g =
     (if List.member (wa_materialized a) (job_ID job) then walkWorkflow E a jobs visited depth dst g
      else if \<not> allMaterialized (job_Needs job) (wa_materialized a) then walkWorkflow E a jobs visited depth dst g
      else if job_UsesRemote job then
        walkWorkflow E a jobs visited depth dst (emit (OnDynamicSkipped ''remote_uses'') g)
      else if job_UsesLocal job \<noteq> [] then
        (case recurseLocal E a (job_UsesLocal job) visited depth dst g of
           (dst, g) \<Rightarrow> walkWorkflow E a jobs visited depth dst g)
      else if ro_Dynamic (job_RunsOn job) then
        walkWorkflow E a jobs visited depth dst (emit (OnDynamicSkipped ''runs_on_expr'') g)
      else if mx_Dynamic (job_Matrix job) then
        walkWorkflow E a jobs visited depth dst (emit (OnDynamicSkipped ''matrix_expr'') g)
      else
        (let labels = resolveLabels (job_RunsOn job);
             cnt = (if length (mx_Combos (job_Matrix job)) > 0 then int (length (mx_Combos (job_Matrix job))) else 1)
         in walkWorkflow E a jobs visited depth (map_incr (LabelSetKey labels) cnt dst) g))"
| "recurseLocal E a usesPath visited depth dst g =
     (if depth + 1 > maxReusableDepth then (dst, emit (OnDynamicSkipped ''depth_exceeded'') g)
      else
        (let path = trim_prefix usesPath ''./''; key = visitKey a path in
         if List.member visited key then (dst, emit (OnDynamicSkipped ''cycle'') g)
         else
           (case loadFile E a path g of
              (Inl err, g) \<Rightarrow> (dst, emit (OnYAMLFetch ''error'') g)
            | (Inr body, g) \<Rightarrow>
                (let g = emit (OnYAMLFetch ''fetched'') g in
                 case Parse (ge_actionlint E) body of
                   Inl err \<Rightarrow> (dst, g)
                 | Inr w \<Rightarrow> walkWorkflow E a w (key # visited) (depth + 1) dst g))))"
  by pat_completeness auto
termination
  by (relation "inv_image (less_than <*lex*> less_than)
      (\<lambda>x. case x of Inl (E, a, w, v, d, dst, g) \<Rightarrow> (12 - d, Suc (length w))
                   | Inr (E, a, p, v, d, dst, g) \<Rightarrow> (12 - d, 0))")
    (auto simp: maxReusableDepth_def)

definition contributeRun ::
  "'f graph_env \<Rightarrow> WorkflowNeedsGraph \<Rightarrow> string \<Rightarrow> string \<Rightarrow> runRef \<Rightarrow> string \<Rightarrow> (string, int) gomap \<Rightarrow> 'f graph \<Rightarrow>
    (string, int) gomap \<times> 'f graph" where
  "contributeRun E cfg owner repo run token dst g =
     (case listJobs E cfg owner repo (run_ID run) token g of
        (Inl err, g) \<Rightarrow> (dst, g)
      | (Inr materialized, g) \<Rightarrow>
          (let a = \<lparr>wa_owner = owner, wa_repo = repo, wa_headSHA = run_HeadSHA run, wa_token = token,
                    wa_materialized = materialized\<rparr>
           in case loadFile E a (run_Path run) g of
                (Inl err, g) \<Rightarrow> (dst, emit (OnYAMLFetch ''error'') g)
              | (Inr body, g) \<Rightarrow>
                  (let g = emit (OnYAMLFetch ''fetched'') g in
                   case Parse (ge_actionlint E) body of
                     Inl err \<Rightarrow> (dst, g)
                   | Inr w \<Rightarrow> walkWorkflow E a w [] 0 dst g)))"

fun contributeRuns ::
  "'f graph_env \<Rightarrow> WorkflowNeedsGraph \<Rightarrow> string \<Rightarrow> string \<Rightarrow> runRef list \<Rightarrow> string \<Rightarrow> (string, int) gomap \<Rightarrow> 'f graph \<Rightarrow>
    (string, int) gomap \<times> 'f graph" where
  "contributeRuns E cfg owner repo [] token dst g = (dst, g)"
| "contributeRuns E cfg owner repo (run # runs) token dst g =
     (let (dst, g) = contributeRun E cfg owner repo run token dst g
      in contributeRuns E cfg owner repo runs token dst g)"

definition Predict ::
  "'f graph_env \<Rightarrow> WorkflowNeedsGraph \<Rightarrow> string \<Rightarrow> string \<Rightarrow> string \<Rightarrow> 'f graph \<Rightarrow>
    (error + (string, int) gomap) \<times> 'f graph" where
  "Predict E cfg owner repo token g =
     (case listActiveRuns E cfg owner repo token g of
        (Inl err, g) \<Rightarrow> (Inl err, g)
      | (Inr runs, g) \<Rightarrow>
          if length runs = 0 then (Inr [], g)
          else (case contributeRuns E cfg owner repo runs token [] g of (dst, g) \<Rightarrow> (Inr dst, g)))"

end
