(* ===== verification/Prediction.thy ===== *)
theory Prediction
  imports Predictor
begin

text \<open>
  What the predictor counts. A run's demand is defined on its workflow and the local reusable
  workflows it calls, without any order, cache or network: a chain of jobs from the run's own
  workflow to a job that says literally what it runs on, each of them imminent, each but the last
  calling the workflow the next is in, no workflow called twice along it and at most ten calls deep
  (\<open>leads\<close>). The walk adds up exactly the jobs chains lead to, as long as every file could be fetched,
  and never more.
\<close>

section \<open>Demand\<close>

definition imminent :: "string list \<Rightarrow> Job \<Rightarrow> bool" where
  "imminent materialized job \<longleftrightarrow>
     job_ID job \<notin> set materialized \<and> set (job_Needs job) \<subseteq> set materialized"

definition literal_job :: "Job \<Rightarrow> bool" where
  "literal_job job \<longleftrightarrow> \<not> job_UsesRemote job \<and> job_UsesLocal job = [] \<and> \<not> ro_Dynamic (job_RunsOn job)
     \<and> \<not> mx_Dynamic (job_Matrix job)"

definition job_key :: "Job \<Rightarrow> string" where
  "job_key job = LabelSetKey (resolveLabels (job_RunsOn job))"

definition job_weight :: "Job \<Rightarrow> int" where
  "job_weight job = max 1 (int (length (mx_Combos (job_Matrix job))))"

definition called_path :: "Job \<Rightarrow> string" where
  "called_path job = trim_prefix (job_UsesLocal job) ''./''"

text \<open>\<open>leads load mat w called depth js job\<close>: from workflow \<open>w\<close>, reached by \<open>depth\<close> calls through the
  workflows at the paths \<open>called\<close>, the chain of job IDs \<open>js\<close> leads to \<open>job\<close>.\<close>

inductive leads ::
  "(string \<Rightarrow> Workflow option) \<Rightarrow> string list \<Rightarrow> Workflow \<Rightarrow> string set \<Rightarrow> nat \<Rightarrow> string list \<Rightarrow> Job \<Rightarrow> bool"
  for load :: "string \<Rightarrow> Workflow option" and mat :: "string list" where
  here: "(jid, job) \<in> set w \<Longrightarrow> imminent mat job \<Longrightarrow> literal_job job \<Longrightarrow>
    leads load mat w called depth [jid] job"
| call: "(jid, job) \<in> set w \<Longrightarrow> imminent mat job \<Longrightarrow> \<not> job_UsesRemote job \<Longrightarrow> job_UsesLocal job \<noteq> [] \<Longrightarrow>
    depth < maxReusableDepth \<Longrightarrow> called_path job \<notin> called \<Longrightarrow> load (called_path job) = Some w' \<Longrightarrow>
    leads load mat w' (insert (called_path job) called) (Suc depth) js job' \<Longrightarrow>
    leads load mat w called depth (jid # js) job'"

definition job_chains ::
  "(string \<Rightarrow> Workflow option) \<Rightarrow> string list \<Rightarrow> Workflow \<Rightarrow> string set \<Rightarrow> nat \<Rightarrow> (string list \<times> Job) set" where
  "job_chains load mat w called depth = {(js, job). leads load mat w called depth js job}"

definition weigh :: "string \<Rightarrow> (string list \<times> Job) set \<Rightarrow> int" where
  "weigh k S = (\<Sum>(js, job) \<in> S. if job_key job = k then job_weight job else 0)"

section \<open>Chains of a workflow, job by job\<close>

text \<open>The chains that start with one job of a workflow.\<close>

definition starts ::
  "(string \<Rightarrow> Workflow option) \<Rightarrow> string list \<Rightarrow> string set \<Rightarrow> nat \<Rightarrow> string \<times> Job \<Rightarrow> (string list \<times> Job) set" where
  "starts load mat called depth p =
     (case p of (jid, job) \<Rightarrow>
        if \<not> imminent mat job \<or> job_UsesRemote job then {}
        else if job_UsesLocal job \<noteq> [] then
          (if depth < maxReusableDepth \<and> called_path job \<notin> called then
             (case load (called_path job) of
                None \<Rightarrow> {}
              | Some w' \<Rightarrow> (\<lambda>(js, j). (jid # js, j)) ` job_chains load mat w' (insert (called_path job) called) (Suc depth))
           else {})
        else if literal_job job then {([jid], job)} else {})"

lemma chains_starts: "job_chains load mat w called depth = (\<Union>p \<in> set w. starts load mat called depth p)"
proof (intro set_eqI iffI; clarify)
  fix js job assume "(js, job) \<in> job_chains load mat w called depth"
  then have "leads load mat w called depth js job" by (simp add: job_chains_def)
  then show "(js, job) \<in> (\<Union>p \<in> set w. starts load mat called depth p)"
  proof cases
    case (here jid)
    then show ?thesis by (intro UN_I [of "(jid, job)"]) (auto simp: starts_def literal_job_def)
  next
    case (call jid job0 w' js')
    then show ?thesis by (intro UN_I [of "(jid, job0)"]) (auto simp: starts_def job_chains_def)
  qed
next
  fix js job jid job0 assume "(jid, job0) \<in> set w" "(js, job) \<in> starts load mat called depth (jid, job0)"
  then show "(js, job) \<in> job_chains load mat w called depth"
    by (auto simp: starts_def job_chains_def split: if_splits option.splits intro: leads.intros)
qed

lemma starts_head: "(js, job) \<in> starts load mat called depth (jid, job0) \<Longrightarrow> \<exists>js'. js = jid # js'"
  by (auto simp: starts_def split: if_splits option.splits)

lemma finite_chains: "finite (job_chains load mat w called depth)"
proof (induction "Suc maxReusableDepth - depth" arbitrary: depth w called rule: less_induct)
  case less
  have "finite (starts load mat called depth p)" for p
    using less by (auto simp: starts_def split: prod.splits option.splits)
  then show ?case by (simp add: chains_starts)
qed

lemma finite_starts: "finite (starts load mat called depth p)"
  using finite_chains by (auto simp: starts_def split: prod.splits option.splits)

lemma weigh_Cons:
  assumes "distinct (keys ((jid, job) # w))"
  shows "weigh k (job_chains load mat ((jid, job) # w) called depth)
    = weigh k (starts load mat called depth (jid, job)) + weigh k (job_chains load mat w called depth)"
proof -
  have "starts load mat called depth (jid, job) \<inter> job_chains load mat w called depth = {}"
    using assms by (force simp: chains_starts keys_def dest: starts_head)
  then show ?thesis
    using finite_chains [of load mat w called depth] finite_starts [of load mat called depth "(jid, job)"]
    by (simp add: weigh_def chains_starts [of _ _ "_ # _"] chains_starts [symmetric] sum.union_disjoint)
qed

lemma weigh_prefixed: "weigh k ((\<lambda>(js, j). (jid # js, j)) ` S) = weigh k S"
proof -
  have "inj_on (\<lambda>(js, j). (jid # js, j)) S" by (auto simp: inj_on_def)
  then show ?thesis unfolding weigh_def by (subst sum.reindex) (auto intro!: sum.cong)
qed

lemma weigh_empty [simp]: "weigh k {} = 0"
  by (simp add: weigh_def)

lemma weigh_nonneg: "0 \<le> weigh k S"
  unfolding weigh_def by (rule sum_nonneg) (auto simp: job_weight_def)

section \<open>The walk\<close>

text \<open>The parser returns a Go map, whose keys are distinct.\<close>

definition parser_ok :: "'f graph_env \<Rightarrow> bool" where
  "parser_ok E \<longleftrightarrow> (\<forall>raw w. fst (ge_actionlint E raw) = Some w \<longrightarrow> distinct (keys w))"

definition loaded ::
  "'f graph_env \<Rightarrow> (string \<Rightarrow> string \<Rightarrow> string \<Rightarrow> string \<Rightarrow> string) \<Rightarrow> walk_args \<Rightarrow> string \<Rightarrow> Workflow option" where
  "loaded E contents a path =
     (case Parse (ge_actionlint E) (contents (wa_owner a) (wa_repo a) path (wa_headSHA a)) of
        Inl _ \<Rightarrow> None | Inr w \<Rightarrow> Some w)"

text \<open>The counts went up by at most \<open>W\<close>, and by exactly that if \<open>sure\<close> and no fetch failed.\<close>

definition sums ::
  "bool \<Rightarrow> (string \<Rightarrow> int) \<Rightarrow> (string, int) gomap \<Rightarrow> hook list \<Rightarrow> (string, int) gomap \<Rightarrow> hook list \<Rightarrow> bool" where
  "sums sure W dst hooks dst' hooks' \<longleftrightarrow> (\<exists>new. hooks' = hooks @ new \<and> (\<forall>k.
     count_of dst k \<le> count_of dst' k \<and> count_of dst' k \<le> count_of dst k + W k
     \<and> (sure \<and> OnYAMLFetch ''error'' \<notin> set new \<longrightarrow> count_of dst' k = count_of dst k + W k)))"

lemma sums_trans:
  assumes "sums sure A dst hooks dst1 hooks1" "sums sure B dst1 hooks1 dst2 hooks2" "\<And>k. C k = A k + B k"
  shows "sums sure C dst hooks dst2 hooks2"
proof -
  obtain n1 n2 where "hooks1 = hooks @ n1" "hooks2 = hooks1 @ n2"
    and 1: "\<And>k. count_of dst k \<le> count_of dst1 k \<and> count_of dst1 k \<le> count_of dst k + A k
      \<and> (sure \<and> OnYAMLFetch ''error'' \<notin> set n1 \<longrightarrow> count_of dst1 k = count_of dst k + A k)"
    and 2: "\<And>k. count_of dst1 k \<le> count_of dst2 k \<and> count_of dst2 k \<le> count_of dst1 k + B k
      \<and> (sure \<and> OnYAMLFetch ''error'' \<notin> set n2 \<longrightarrow> count_of dst2 k = count_of dst1 k + B k)"
    using assms(1,2) unfolding sums_def by blast
  then have "hooks2 = hooks @ (n1 @ n2)" by simp
  moreover have "count_of dst k \<le> count_of dst2 k \<and> count_of dst2 k \<le> count_of dst k + C k
      \<and> (sure \<and> OnYAMLFetch ''error'' \<notin> set (n1 @ n2) \<longrightarrow> count_of dst2 k = count_of dst k + C k)" for k
    using 1 [of k] 2 [of k] assms(3) [of k] by auto
  ultimately show ?thesis unfolding sums_def by blast
qed

definition counts ::
  "(string list \<times> Job) set \<Rightarrow> (string, int) gomap \<Rightarrow> hook list \<Rightarrow> (string, int) gomap \<Rightarrow> hook list \<Rightarrow> bool" where
  "counts S = sums True (\<lambda>k. weigh k S)"

lemma counts_none: "counts {} dst hooks dst hooks"
  by (simp add: counts_def sums_def)

lemma counts_skip: "counts S dst (hooks @ [h]) dst' hooks' \<Longrightarrow> counts S dst hooks dst' hooks'"
  by (auto simp: counts_def sums_def)

lemma counts_hook: "counts {} dst hooks dst (hooks @ [h])"
  by (simp add: counts_def sums_def)

lemma counts_failed: "counts S dst hooks dst (hooks @ [OnYAMLFetch ''error''])"
  by (simp add: counts_def sums_def weigh_nonneg)

lemma counts_trans:
  "counts A dst hooks dst1 hooks1 \<Longrightarrow> counts B dst1 hooks1 dst2 hooks2 \<Longrightarrow>
    (\<And>k. weigh k C = weigh k A + weigh k B) \<Longrightarrow> counts C dst hooks dst2 hooks2"
  unfolding counts_def by (rule sums_trans)

lemma Parse_keys: "parser_ok E \<Longrightarrow> Parse (ge_actionlint E) raw = Inr w \<Longrightarrow> distinct (keys w)"
  by (auto simp: Parse_def parser_ok_def keys_def comp_def case_prod_beta Let_def split: option.splits prod.splits if_splits list.splits)

lemma allMaterialized_iff: "allMaterialized needs mat \<longleftrightarrow> set needs \<subseteq> set mat"
  by (induction needs) auto

lemma visitKey_inject [simp]: "visitKey a p = visitKey a q \<longleftrightarrow> p = q"
  by (simp add: visitKey_def)

lemma emit_simps [simp]:
  "gr_hooks (emit h g) = gr_hooks g @ [h]" "gr_fetcher (emit h g) = gr_fetcher g"
  "gr_listCache (emit h g) = gr_listCache g" "gr_api (emit h g) = gr_api g"
  by (simp_all add: emit_def)

lemma loadFile_frame:
  "loadFile E a path g = (r, g') \<Longrightarrow> gr_hooks g' = gr_hooks g \<and> gr_listCache g' = gr_listCache g"
  by (auto simp: loadFile_def Let_def split: prod.splits)

context workflow_source
begin

lemma loadFile_contents:
  assumes "ge_fetch E = fetch" "usable (gr_fetcher g)" "loadFile E a path g = (r, g')"
  shows "usable (gr_fetcher g')"
    "r = Inr body \<Longrightarrow> body = contents (wa_owner a) (wa_repo a) path (wa_headSHA a)"
  using assms fetch_usable fetch_contents by (auto simp: loadFile_def Let_def split: prod.splits)

definition walk_sound :: "'f graph_env \<Rightarrow> walk_args \<Rightarrow> nat \<Rightarrow> bool" where
  "walk_sound E a d \<longleftrightarrow> (\<forall>w v called dst g dst' g'. usable (gr_fetcher g) \<longrightarrow> distinct (keys w) \<longrightarrow>
     set v = visitKey a ` called \<longrightarrow> walkWorkflow E a w v d dst g = (dst', g') \<longrightarrow>
     usable (gr_fetcher g') \<and> gr_listCache g' = gr_listCache g
     \<and> counts (job_chains (loaded E contents a) (wa_materialized a) w called d) dst (gr_hooks g) dst' (gr_hooks g'))"

lemma walk_soundD:
  assumes "walk_sound E a d" "usable (gr_fetcher g)" "distinct (keys w)" "set v = visitKey a ` called"
    "walkWorkflow E a w v d dst g = (dst', g')"
  shows "usable (gr_fetcher g')" "gr_listCache g' = gr_listCache g"
    "counts (job_chains (loaded E contents a) (wa_materialized a) w called d) dst (gr_hooks g) dst' (gr_hooks g')"
  using assms unfolding walk_sound_def by blast+

text \<open>The three ways loading and parsing a file can go.\<close>

lemma load_cases [consumes 4, case_names failed unparsed parsed]:
  assumes "ge_fetch E = fetch" "parser_ok E" "usable (gr_fetcher g)" "loadFile E a path g = (r, g')"
  obtains err where "r = Inl err" "usable (gr_fetcher g')" "gr_hooks g' = gr_hooks g" "gr_listCache g' = gr_listCache g"
  | body err where "r = Inr body" "Parse (ge_actionlint E) body = Inl err" "loaded E contents a path = None"
      "usable (gr_fetcher g')" "gr_hooks g' = gr_hooks g" "gr_listCache g' = gr_listCache g"
  | body w where "r = Inr body" "Parse (ge_actionlint E) body = Inr w" "loaded E contents a path = Some w"
      "distinct (keys w)" "usable (gr_fetcher g')" "gr_hooks g' = gr_hooks g" "gr_listCache g' = gr_listCache g"
proof -
  note facts = loadFile_frame [OF assms(4)] loadFile_contents [OF assms(1,3,4)]
  show thesis
  proof (cases r)
    case (Inr body)
    then have "loaded E contents a path = (case Parse (ge_actionlint E) body of Inl _ \<Rightarrow> None | Inr w \<Rightarrow> Some w)"
      using facts(3) by (simp add: loaded_def)
    then show thesis using that(2,3) Inr facts(1,2) Parse_keys [OF assms(2)] by (cases "Parse (ge_actionlint E) body") auto
  qed (use that(1) facts(1,2) in blast)
qed

text \<open>What a walk of a file just loaded adds.\<close>

lemma walk_loaded:
  assumes "walk_sound E a d" "usable (gr_fetcher g1)" "gr_hooks g1 = gr_hooks g" "gr_listCache g1 = gr_listCache g"
    "distinct (keys w)" "set v = visitKey a ` called" "walkWorkflow E a w v d dst (emit (OnYAMLFetch ''fetched'') g1) = (dst', g')"
  shows "usable (gr_fetcher g') \<and> gr_listCache g' = gr_listCache g
    \<and> counts (job_chains (loaded E contents a) (wa_materialized a) w called d) dst (gr_hooks g) dst' (gr_hooks g')"
  using walk_soundD [OF assms(1) _ assms(5-7)] assms(2-4) counts_skip by simp

lemma recurse_counts:
  assumes env: "ge_fetch E = fetch" "parser_ok E" and deeper: "d < maxReusableDepth \<Longrightarrow> walk_sound E a (Suc d)"
    and g: "usable (gr_fetcher g)" and v: "set v = visitKey a ` called"
    and run: "recurseLocal E a uses v d dst g = (dst', g')"
  shows "usable (gr_fetcher g') \<and> gr_listCache g' = gr_listCache g
    \<and> counts (if d < maxReusableDepth \<and> trim_prefix uses ''./'' \<notin> called
              then (case loaded E contents a (trim_prefix uses ''./'') of
                      None \<Rightarrow> {}
                    | Some w' \<Rightarrow> job_chains (loaded E contents a) (wa_materialized a) w'
                                  (insert (trim_prefix uses ''./'') called) (Suc d))
              else {}) dst (gr_hooks g) dst' (gr_hooks g')"
proof -
  define p where "p = trim_prefix uses ''./''"
  have vis: "List.member v (visitKey a p) \<longleftrightarrow> p \<in> called" using v by (auto simp: image_iff)
  show ?thesis
  proof (cases "d < maxReusableDepth \<and> p \<notin> called")
    case False
    then show ?thesis using run g vis counts_hook by (auto simp flip: p_def simp: Let_def split: if_splits)
  next
    case True
    obtain r g1 where ld: "loadFile E a p g = (r, g1)" by force
    from env g ld show ?thesis
    proof (cases rule: load_cases)
      case failed
      then show ?thesis using run True vis ld counts_failed by (auto simp flip: p_def simp: Let_def)
    next
      case unparsed
      then show ?thesis using run True vis ld counts_hook by (auto simp flip: p_def simp: Let_def)
    next
      case (parsed body w)
      have "walkWorkflow E a w (visitKey a p # v) (Suc d) dst (emit (OnYAMLFetch ''fetched'') g1) = (dst', g')"
        using run True vis ld parsed(1,2) by (simp flip: p_def add: Let_def)
      moreover have "set (visitKey a p # v) = visitKey a ` insert p called" using v by simp
      ultimately show ?thesis
        using walk_loaded [OF deeper parsed(5-7,4), of "visitKey a p # v" "insert p called"] True parsed(3)
        by (simp flip: p_def)
    qed
  qed
qed

text \<open>One job of a walk: the rest of the walk goes on from a state in which this job's chains are counted.\<close>

lemma walk_job:
  assumes env: "ge_fetch E = fetch" "parser_ok E" and deeper: "d < maxReusableDepth \<Longrightarrow> walk_sound E a (Suc d)"
    and g: "usable (gr_fetcher g)" and v: "set v = visitKey a ` called"
  obtains dst1 g1 where "walkWorkflow E a ((jid, job) # w) v d dst g = walkWorkflow E a w v d dst1 g1"
    "usable (gr_fetcher g1)" "gr_listCache g1 = gr_listCache g"
    "counts (starts (loaded E contents a) (wa_materialized a) called d (jid, job)) dst (gr_hooks g) dst1 (gr_hooks g1)"
proof -
  note done_with = that
  let ?mat = "wa_materialized a" and ?walk = "walkWorkflow E a ((jid, job) # w) v d dst g"
  let ?S = "starts (loaded E contents a) ?mat called d (jid, job)"
  have im: "imminent ?mat job \<longleftrightarrow> \<not> List.member ?mat (job_ID job) \<and> allMaterialized (job_Needs job) ?mat"
    by (simp add: imminent_def allMaterialized_iff)
  have skip: thesis if "?walk = walkWorkflow E a w v d dst (emit h g)" "?S = {}" for h
    by (rule done_with [OF that(1)]) (simp_all add: g that(2) counts_hook)
  consider (no) "\<not> imminent ?mat job" | (remote) "imminent ?mat job" "job_UsesRemote job"
    | (local) "imminent ?mat job" "\<not> job_UsesRemote job" "job_UsesLocal job \<noteq> []"
    | (dynamic) "imminent ?mat job" "\<not> job_UsesRemote job" "job_UsesLocal job = []" "\<not> literal_job job"
    | (lit) "imminent ?mat job" "literal_job job"
    by (auto simp: literal_job_def)
  then show thesis
  proof cases
    case no
    then have "?walk = walkWorkflow E a w v d dst g" "?S = {}" by (auto simp: im starts_def)
    then show thesis using that g counts_none by metis
  next
    case remote
    then show thesis by (intro skip [of "OnDynamicSkipped ''remote_uses''"]) (simp_all add: im starts_def)
  next
    case local
    obtain dst1 g1 where rec: "recurseLocal E a (job_UsesLocal job) v d dst g = (dst1, g1)" by force
    have "?walk = walkWorkflow E a w v d dst1 g1" using local rec by (simp add: im del: recurseLocal.simps)
    moreover note rc = recurse_counts [OF env deeper g v rec, folded called_path_def]
    have "counts ?S dst (gr_hooks g) dst1 (gr_hooks g1)"
      using rc local by (auto simp: starts_def counts_def sums_def weigh_prefixed split: option.splits if_splits)
    ultimately show thesis using that rc by blast
  next
    case dynamic
    let ?reason = "if ro_Dynamic (job_RunsOn job) then ''runs_on_expr'' else ''matrix_expr''"
    from dynamic show thesis
      by (intro skip [of "OnDynamicSkipped ?reason"]) (auto simp: im literal_job_def starts_def)
  next
    case lit
    let ?dst = "map_incr (job_key job) (job_weight job) dst"
    have "?walk = walkWorkflow E a w v d ?dst g"
      using lit by (simp add: im literal_job_def job_key_def job_weight_def Let_def max_def Suc_le_eq)
    moreover have "counts ?S dst (gr_hooks g) ?dst (gr_hooks g)"
      using lit by (auto simp: starts_def literal_job_def counts_def sums_def weigh_def job_weight_def)
    ultimately show thesis using that g by blast
  qed
qed

lemma walk_counts_one:
  assumes env: "ge_fetch E = fetch" "parser_ok E" and deeper: "d < maxReusableDepth \<Longrightarrow> walk_sound E a (Suc d)"
  shows "walk_sound E a d"
  unfolding walk_sound_def
proof (intro allI impI)
  fix w v called dst g dst' g'
  assume "usable (gr_fetcher g)" "distinct (keys w)" and v: "set v = visitKey a ` called"
    and "walkWorkflow E a w v d dst g = (dst', g')"
  then show "usable (gr_fetcher g') \<and> gr_listCache g' = gr_listCache g
     \<and> counts (job_chains (loaded E contents a) (wa_materialized a) w called d) dst (gr_hooks g) dst' (gr_hooks g')"
  proof (induction w arbitrary: dst g)
    case Nil
    then show ?case by (simp add: counts_none chains_starts)
  next
    case (Cons p w)
    obtain jid job where p: "p = (jid, job)" by force
    obtain dst1 g1 where one: "walkWorkflow E a (p # w) v d dst g = walkWorkflow E a w v d dst1 g1"
        "usable (gr_fetcher g1)" "gr_listCache g1 = gr_listCache g"
        "counts (starts (loaded E contents a) (wa_materialized a) called d p) dst (gr_hooks g) dst1 (gr_hooks g1)"
      unfolding p by (rule walk_job [OF env deeper Cons.prems(1) v])
    have "distinct (keys w)" using Cons.prems(2) by (simp add: p)
    from Cons.IH [OF one(2) this v] Cons.prems(4) show ?case
      using one(1,3) counts_trans [OF one(4) [unfolded p] _ weigh_Cons] Cons.prems(2) by (simp add: p)
  qed
qed

lemma walk_counts:
  assumes "ge_fetch E = fetch" "parser_ok E"
  shows "walk_sound E a d"
proof (induction "maxReusableDepth - d" arbitrary: d rule: less_induct)
  case less
  show ?case by (rule walk_counts_one [OF assms]) (rule less, simp)
qed

end

section \<open>Listings\<close>

text \<open>\<open>listing u body\<close>: what the API may answer at \<open>u\<close>.\<close>

definition answers :: "outside \<Rightarrow> (string \<Rightarrow> string \<Rightarrow> bool) \<Rightarrow> bool" where
  "answers out listing \<longleftrightarrow>
     (\<forall>log req body. readable_ok (out_Do out log req) = Some body \<longrightarrow> listing (rq_URL req) body)"

definition lists_ok :: "(string \<Rightarrow> string \<Rightarrow> bool) \<Rightarrow> 'f graph \<Rightarrow> bool" where
  "lists_ok listing g \<longleftrightarrow> (\<forall>u e. gr_listCache g u = Some e \<longrightarrow> listing u (lc_body e))"

definition reachable :: "outside \<Rightarrow> string \<Rightarrow> bool" where
  "reachable out u \<longleftrightarrow> out_NewRequest out u = None
     \<and> (\<forall>log req. rq_URL req = u \<longrightarrow> readable_ok (out_Do out log req) \<noteq> None)"

lemma cachedGet_cases [consumes 1, case_names failed fresh cached]:
  fixes g :: "'f graph"
  assumes run: "cachedGet out u token g = (r, g')"
  defines "req \<equiv> listRequest g u token"
  defines "res \<equiv> out_Do out (api_log (gr_api g)) req"
  obtains (failed) err where "r = Inl err" "gr_listCache g' = gr_listCache g"
      "readable_ok res = None \<or> out_NewRequest out u \<noteq> None"
      "api_log (gr_api g') = api_log (gr_api g) \<or>
       readable_ok res = None \<and> api_log (gr_api g') = api_log (gr_api g) @ [Sent req res]"
  | (fresh) body etag where "readable_ok res = Some body" "r = Inr body"
      "gr_listCache g' = (gr_listCache g)(u \<mapsto> \<lparr>lc_etag = etag, lc_body = body\<rparr>)"
      "api_log (gr_api g') = api_log (gr_api g) @ [Sent req res]"
  | (cached) e where "readable_ok res = None" "gr_listCache g u = Some e" "r = Inr (lc_body e)"
      "gr_listCache g' = gr_listCache g" "api_log (gr_api g') = api_log (gr_api g) @ [Sent req res]"
proof -
  let ?g = "g\<lparr>gr_api := gr_api g\<lparr>api_log := api_log (gr_api g) @ [Sent req res]\<rparr>\<rparr>"
  show thesis
  proof (cases "out_NewRequest out u")
    case (Some err)
    then show thesis using run by (intro failed [of err]) (simp_all add: cachedGet_def)
  next
    case None
    note body = run [unfolded cachedGet_def None client_Do_def, folded req_def, simplified Let_def, folded res_def, simplified]
    show thesis
    proof (cases "readable_ok res")
      case (Some b)
      then obtain resp where "res = Inr resp" "rp_StatusCode resp = 200" "rp_Body resp = Inr b"
        by (auto simp: readable_ok_def split: sum.splits if_splits)
      then show thesis using body Some
        by (intro fresh [of b "header_get (rp_Header resp) ''ETag''"]) (auto simp: storeList_def)
    next
      case none: None
      consider (hit) resp e where "res = Inr resp" "rp_StatusCode resp = 304" "gr_listCache g u = Some e"
        | (miss) err where "r = Inl err" "g' = ?g"
        using body none
        by (auto simp: readable_ok_def cachedBody_def dest!: sym [of "Inl _"] split: sum.splits if_splits option.splits)
      then show thesis
      proof cases
        case hit
        then show thesis using body none by (intro cached [of e]) (auto simp: cachedBody_def)
      next
        case miss
        then show thesis using none by (intro failed [of err]) auto
      qed
    qed
  qed
qed

lemma cachedGet_frame:
  "cachedGet out u token g = (r, g') \<Longrightarrow> gr_hooks g' = gr_hooks g \<and> gr_fetcher g' = gr_fetcher g"
  by (auto simp: cachedGet_def storeList_def Let_def split: option.splits prod.splits sum.splits if_splits)

lemma cachedGet_listing:
  assumes "answers out listing" "lists_ok listing g" "cachedGet out u token g = (r, g')"
  shows "lists_ok listing g'" "\<And>body. r = Inr body \<Longrightarrow> listing u body" "reachable out u \<Longrightarrow> \<exists>body. r = Inr body"
proof -
  have u: "rq_URL (listRequest g u token) = u" by (simp add: listRequest_def Let_def)
  have "lists_ok listing g' \<and> (\<forall>body. r = Inr body \<longrightarrow> listing u body) \<and> (reachable out u \<longrightarrow> (\<exists>body. r = Inr body))"
    using assms(3)
  proof (cases rule: cachedGet_cases)
    case (failed err)
    have "\<not> reachable out u"
      using failed(3) u unfolding reachable_def by blast
    then show ?thesis using failed assms(2) by (simp add: lists_ok_def)
  next
    case (fresh body etag)
    have "listing u body" using assms(1) fresh(1) u unfolding answers_def by force
    then show ?thesis using fresh assms(2) by (simp add: lists_ok_def)
  next
    case (cached e)
    then show ?thesis using assms(2) by (simp add: lists_ok_def)
  qed
  then show "lists_ok listing g'" "\<And>body. r = Inr body \<Longrightarrow> listing u body"
    "reachable out u \<Longrightarrow> \<exists>body. r = Inr body" by blast+
qed

section \<open>Runs\<close>

text \<open>The runs of several listings, each ID at its first place, up to the cap.\<close>

fun first_runs :: "int64 set \<Rightarrow> runRef list \<Rightarrow> runRef list" where
  "first_runs seen [] = []"
| "first_runs seen (r # rs) =
     (if run_ID r \<in> seen then first_runs seen rs else r # first_runs (insert (run_ID r) seen) rs)"

lemma first_runs_append:
  "first_runs seen (xs @ ys) = first_runs seen xs @ first_runs (seen \<union> run_ID ` set xs) ys"
proof (induction seen xs rule: first_runs.induct)
  case (2 seen r rs)
  have "insert (run_ID r) (seen \<union> run_ID ` set rs) = seen \<union> insert (run_ID r) (run_ID ` set rs)"
    "run_ID r \<in> seen \<Longrightarrow> seen \<union> insert (run_ID r) (run_ID ` set rs) = seen \<union> run_ID ` set rs" by auto
  then show ?case using 2 by simp
qed simp

lemma first_runs_props:
  "distinct (map run_ID (first_runs seen rs))" "run_ID ` set (first_runs seen rs) = run_ID ` set rs - seen"
  "set (first_runs seen rs) \<subseteq> set rs"
proof -
  have "distinct (map run_ID (first_runs seen rs)) \<and> run_ID ` set (first_runs seen rs) = run_ID ` set rs - seen
      \<and> set (first_runs seen rs) \<subseteq> set rs"
    by (induction seen rs rule: first_runs.induct) auto
  then show "distinct (map run_ID (first_runs seen rs))" "run_ID ` set (first_runs seen rs) = run_ID ` set rs - seen"
    "set (first_runs seen rs) \<subseteq> set rs" by blast+
qed

lemma collectRuns_eq:
  assumes "int (length acc) < cap"
  shows "case collectRuns cap rs seen acc of
      Inl acc' \<Rightarrow> acc' = take (nat cap) (acc @ first_runs (set seen) rs) \<and> int (length acc') = cap
    | Inr (seen', acc') \<Rightarrow> acc' = acc @ first_runs (set seen) rs \<and> set seen' = set seen \<union> run_ID ` set rs
        \<and> int (length acc') < cap"
  using assms
proof (induction cap rs seen acc rule: collectRuns.induct)
  case (2 cap r rs seen acc)
  show ?case
  proof (cases "run_ID r \<in> set seen")
    case True
    then show ?thesis using 2 by (auto simp: insert_absorb split: sum.splits prod.splits)
  next
    case False
    show ?thesis
    proof (cases "int (length acc) + 1 \<ge> cap")
      case True
      then have "nat cap = Suc (length acc)" using 2(3) by linarith
      then show ?thesis using False True 2(3) by simp
    next
      case less: False
      have "int (length (acc @ [r])) < cap" using less by simp
      from 2(2) [OF _ refl refl _ this] False less show ?thesis by (auto split: sum.splits prod.splits)
    qed
  qed
qed simp

definition runs_listed :: "'f graph_env \<Rightarrow> (string \<Rightarrow> string \<Rightarrow> bool) \<Rightarrow> WorkflowNeedsGraph \<Rightarrow> string \<Rightarrow> string \<Rightarrow> string \<Rightarrow> runRef list \<Rightarrow> bool" where
  "runs_listed E listing cfg owner repo status rs \<longleftrightarrow>
     (\<exists>body. listing (runsURL cfg owner repo status) body \<and> ge_runs E body = Inr rs)"

text \<open>What the loop returns: the listings read, in order, each run once, up to the cap, at which it stops.\<close>

definition loop_result ::
  "'f graph_env \<Rightarrow> (string \<Rightarrow> string \<Rightarrow> bool) \<Rightarrow> WorkflowNeedsGraph \<Rightarrow> string \<Rightarrow> string \<Rightarrow> string list \<Rightarrow>
    int64 set \<Rightarrow> runRef list \<Rightarrow> runRef list \<Rightarrow> bool" where
  "loop_result E listing cfg owner repo statuses seen acc runs \<longleftrightarrow>
     (\<exists>lists. list_all2 (runs_listed E listing cfg owner repo) (take (length lists) statuses) lists
        \<and> runs = take (nat (g_runsCap cfg)) (acc @ first_runs seen (concat lists))
        \<and> (length lists = length statuses \<or> int (length runs) = g_runsCap cfg))"

lemma loop_result_Cons:
  assumes "loop_result E listing cfg owner repo statuses seen' acc' runs" "runs_listed E listing cfg owner repo status parsed"
    and "seen' = seen \<union> run_ID ` set parsed" "acc' = acc @ first_runs seen parsed"
  shows "loop_result E listing cfg owner repo (status # statuses) seen acc runs"
proof -
  obtain lists where l: "list_all2 (runs_listed E listing cfg owner repo) (take (length lists) statuses) lists"
    "runs = take (nat (g_runsCap cfg)) (acc' @ first_runs seen' (concat lists))"
    "length lists = length statuses \<or> int (length runs) = g_runsCap cfg"
    using assms(1) unfolding loop_result_def by blast
  have "runs = take (nat (g_runsCap cfg)) (acc @ first_runs seen (concat (parsed # lists)))"
    using l(2) assms(3,4) by (simp add: first_runs_append)
  then show ?thesis unfolding loop_result_def using l(1,3) assms(2) by (intro exI [of _ "parsed # lists"]) auto
qed

lemma listRunsLoop_eq:
  assumes "answers (ge_out E) listing" "lists_ok listing g" "int (length acc) < g_runsCap cfg"
    "listRunsLoop E cfg owner repo token statuses seen acc g = (r, g')"
  shows "lists_ok listing g' \<and> gr_hooks g' = gr_hooks g \<and> gr_fetcher g' = gr_fetcher g
    \<and> (\<forall>runs. r = Inr runs \<longrightarrow> loop_result E listing cfg owner repo statuses (set seen) acc runs)"
  using assms(2-4)
proof (induction statuses arbitrary: seen acc g)
  case Nil
  then show ?case by (auto simp: loop_result_def intro: exI [of _ "[]"])
next
  case (Cons status statuses)
  obtain r1 g1 where get: "cachedGet (ge_out E) (runsURL cfg owner repo status) token g = (r1, g1)" by force
  note cg = cachedGet_listing [OF assms(1) Cons.prems(1) get] and fr = cachedGet_frame [OF get]
  consider (err) e where "r = Inl e" "g' = g1" | (ok) body parsed where "r1 = Inr body" "ge_runs E body = Inr parsed"
    using Cons.prems(3) get by (cases r1; cases "ge_runs E (projr r1)") auto
  then show ?case
  proof cases
    case err
    then show ?thesis using cg(1) fr by simp
  next
    case ok
    have listed: "runs_listed E listing cfg owner repo status parsed"
      using cg(2) [OF ok(1)] ok(2) by (auto simp: runs_listed_def)
    note coll = collectRuns_eq [OF Cons.prems(2), where rs = parsed and seen = seen]
    show ?thesis
    proof (cases "collectRuns (g_runsCap cfg) parsed seen acc")
      case (Inl acc')
      then have "r = Inr acc'" "g' = g1" using Cons.prems(3) get ok by simp_all
      then show ?thesis
        using coll Inl listed cg(1) fr by (auto simp: loop_result_def intro!: exI [of _ "[parsed]"])
    next
      case (Inr p)
      obtain seen' acc' where p: "p = (seen', acc')" by force
      note coll = coll [unfolded Inr p, simplified]
      have rest: "listRunsLoop E cfg owner repo token statuses seen' acc' g1 = (r, g')"
        using Cons.prems(3) get ok Inr p by simp
      have "int (length acc') < g_runsCap cfg" using coll by blast
      from Cons.IH [OF cg(1) this rest] show ?thesis using fr coll loop_result_Cons [OF _ listed] by auto
    qed
  qed
qed

section \<open>One run and all runs\<close>

definition run_args :: "string \<Rightarrow> string \<Rightarrow> runRef \<Rightarrow> string list \<Rightarrow> walk_args" where
  "run_args owner repo run mat =
     \<lparr>wa_owner = owner, wa_repo = repo, wa_headSHA = run_HeadSHA run, wa_token = [], wa_materialized = mat\<rparr>"

text \<open>The chains of one run whose materialised jobs are \<open>mat\<close>.\<close>

definition run_chains ::
  "'f graph_env \<Rightarrow> (string \<Rightarrow> string \<Rightarrow> string \<Rightarrow> string \<Rightarrow> string) \<Rightarrow> string \<Rightarrow> string \<Rightarrow> string list \<Rightarrow> runRef \<Rightarrow>
    (string list \<times> Job) set" where
  "run_chains E contents owner repo mat run =
     (let a = run_args owner repo run mat in
      case loaded E contents a (run_Path run) of
        None \<Rightarrow> {}
      | Some w \<Rightarrow> job_chains (loaded E contents a) mat w {} 0)"

text \<open>The jobs listing of a run names the jobs \<open>jobs\<close> gives for it.\<close>

definition jobs_listed ::
  "'f graph_env \<Rightarrow> (string \<Rightarrow> string \<Rightarrow> bool) \<Rightarrow> WorkflowNeedsGraph \<Rightarrow> string \<Rightarrow> string \<Rightarrow> (int64 \<Rightarrow> string list) \<Rightarrow> bool" where
  "jobs_listed E listing cfg owner repo jobs \<longleftrightarrow> (\<forall>runID body. listing (jobsURL cfg owner repo runID) body \<longrightarrow>
     (\<exists>js. ge_jobs E body = Inr js \<and> set (map jr_Name js) = set (jobs runID)))"

lemma leads_mat_cong:
  assumes "leads load mat w called depth js job" "set mat = set mat'"
  shows "leads load mat' w called depth js job"
  using assms(1)
proof induction
  case (here jid job w called depth)
  then show ?case using assms(2) by (intro leads.here) (auto simp: imminent_def)
next
  case (call jid job w depth called w' js job')
  then show ?case using assms(2) by (intro leads.call [of jid job]) (auto simp: imminent_def)
qed

lemma chains_mat_cong: "set mat = set mat' \<Longrightarrow> job_chains load mat w called depth = job_chains load mat' w called depth"
  unfolding job_chains_def using leads_mat_cong by blast

lemma loaded_cong:
  "wa_owner a = wa_owner b \<Longrightarrow> wa_repo a = wa_repo b \<Longrightarrow> wa_headSHA a = wa_headSHA b \<Longrightarrow>
    loaded E contents a = loaded E contents b"
  by (simp add: loaded_def fun_eq_iff)

lemma sums_none: "\<forall>k. 0 \<le> W k \<Longrightarrow> \<not> sure \<Longrightarrow> sums sure W dst hooks dst hooks"
  by (simp add: sums_def)

lemma sums_weaken: "sums b W dst hooks dst' hooks' \<Longrightarrow> (sure \<Longrightarrow> b) \<Longrightarrow> sums sure W dst hooks dst' hooks'"
  unfolding sums_def by blast

lemma counts_sums: "counts S dst hooks dst' hooks' \<Longrightarrow> sums sure (\<lambda>k. weigh k S) dst hooks dst' hooks'"
  by (auto simp: counts_def sums_def)

context workflow_source
begin

lemma contributeRun_sums:
  assumes env: "ge_fetch E = fetch" "parser_ok E" "answers (ge_out E) listing" "jobs_listed E listing cfg owner repo jobs"
    and g: "usable (gr_fetcher g)" "lists_ok listing g"
    and run: "contributeRun E cfg owner repo rn token dst g = (dst', g')"
  shows "usable (gr_fetcher g') \<and> lists_ok listing g'
    \<and> sums (reachable (ge_out E) (jobsURL cfg owner repo (run_ID rn)))
        (\<lambda>k. weigh k (run_chains E contents owner repo (jobs (run_ID rn)) rn)) dst (gr_hooks g) dst' (gr_hooks g')"
proof -
  let ?u = "jobsURL cfg owner repo (run_ID rn)"
  let ?S = "run_chains E contents owner repo (jobs (run_ID rn)) rn"
  obtain r1 g1 where get: "cachedGet (ge_out E) ?u token g = (r1, g1)" by force
  note cg = cachedGet_listing [OF env(3) g(2) get] and fr = cachedGet_frame [OF get]
  show ?thesis
  proof (cases r1)
    case (Inl err)
    then have "dst' = dst" "g' = g1" using run get by (simp_all add: contributeRun_def listJobs_def)
    moreover have "\<not> reachable (ge_out E) ?u" using cg(3) Inl by auto
    ultimately show ?thesis using cg(1) fr g(1) by (simp add: sums_none weigh_nonneg)
  next
    case (Inr body)
    obtain js where js: "ge_jobs E body = Inr js" and names: "set (map jr_Name js) = set (jobs (run_ID rn))"
      using env(4) cg(2) [OF Inr] unfolding jobs_listed_def by blast
    define a where "a = \<lparr>wa_owner = owner, wa_repo = repo, wa_headSHA = run_HeadSHA rn, wa_token = token,
      wa_materialized = map jr_Name js\<rparr>"
    have jl: "listJobs E cfg owner repo (run_ID rn) token g = (Inr (map jr_Name js), g1)"
      by (simp add: listJobs_def get Inr js)
    have load: "loaded E contents a = loaded E contents (run_args owner repo rn (jobs (run_ID rn)))"
      by (rule loaded_cong) (simp_all add: a_def run_args_def)
    obtain r2 g2 where ld: "loadFile E a (run_Path rn) g1 = (r2, g2)" by force
    have u1: "usable (gr_fetcher g1)" using g(1) fr by simp
    note body = run [unfolded contributeRun_def jl, simplified, folded a_def, unfolded Let_def, folded a_def, unfolded ld]
    from env(1,2) u1 ld
    have "usable (gr_fetcher g') \<and> gr_listCache g' = gr_listCache g1 \<and> counts ?S dst (gr_hooks g) dst' (gr_hooks g')"
    proof (cases rule: load_cases)
      case failed
      then show ?thesis using body fr counts_failed by auto
    next
      case unparsed
      then have "?S = {}" using load by (simp add: run_chains_def Let_def)
      then show ?thesis using body fr unparsed counts_hook by auto
    next
      case (parsed raw w)
      have S: "?S = job_chains (loaded E contents a) (wa_materialized a) w {} 0"
        using parsed(3) load chains_mat_cong [OF names] by (simp add: run_chains_def Let_def a_def)
      have "walkWorkflow E a w [] 0 dst (emit (OnYAMLFetch ''fetched'') g2) = (dst', g')" using body parsed(1,2) by simp
      from walk_loaded [OF walk_counts [OF env(1,2)] parsed(5-7,4) _ this, of "{}"] show ?thesis using fr by (simp add: S)
    qed
    then show ?thesis using cg(1) by (auto intro: counts_sums simp: lists_ok_def)
  qed
qed

lemma contributeRuns_sums:
  assumes env: "ge_fetch E = fetch" "parser_ok E" "answers (ge_out E) listing" "jobs_listed E listing cfg owner repo jobs"
    and "usable (gr_fetcher g)" "lists_ok listing g" "contributeRuns E cfg owner repo runs token dst g = (dst', g')"
  shows "usable (gr_fetcher g') \<and> lists_ok listing g'
    \<and> sums (\<forall>rn \<in> set runs. reachable (ge_out E) (jobsURL cfg owner repo (run_ID rn)))
        (\<lambda>k. \<Sum>rn \<leftarrow> runs. weigh k (run_chains E contents owner repo (jobs (run_ID rn)) rn))
        dst (gr_hooks g) dst' (gr_hooks g')"
  using assms(5-7)
proof (induction runs arbitrary: dst g)
  case Nil
  then show ?case by (simp add: sums_def)
next
  case (Cons rn runs)
  obtain dst1 g1 where one: "contributeRun E cfg owner repo rn token dst g = (dst1, g1)" by force
  have rest: "contributeRuns E cfg owner repo runs token dst1 g1 = (dst', g')" using Cons.prems(3) one by simp
  note c1 = contributeRun_sums [OF env Cons.prems(1,2) one]
  note c2 = Cons.IH [OF _ _ rest]
  let ?sure = "\<forall>rn \<in> set (rn # runs). reachable (ge_out E) (jobsURL cfg owner repo (run_ID rn))"
  let ?W = "\<lambda>k rn. weigh k (run_chains E contents owner repo (jobs (run_ID rn)) rn)"
  have "sums ?sure (\<lambda>k. ?W k rn) dst (gr_hooks g) dst1 (gr_hooks g1)"
    by (rule sums_weaken [OF c1 [THEN conjunct2, THEN conjunct2]]) simp
  moreover have "sums ?sure (\<lambda>k. \<Sum>rn \<leftarrow> runs. ?W k rn) dst1 (gr_hooks g1) dst' (gr_hooks g')"
    by (rule sums_weaken [OF c2 [THEN conjunct2, THEN conjunct2]]) (use c1 in auto)
  ultimately have "sums ?sure (\<lambda>k. \<Sum>rn \<leftarrow> rn # runs. ?W k rn) dst (gr_hooks g) dst' (gr_hooks g')"
    by (rule sums_trans) simp
  then show ?case using c1 c2 by blast
qed

end

section \<open>Properties\<close>

text \<open>What the predictor relies on: a usable source of files, a parser and API listings as documented,
  and a cache that holds earlier listings.\<close>

definition predictor_ready ::
  "outside \<Rightarrow> (string \<Rightarrow> string) \<Rightarrow> (string \<Rightarrow> string \<Rightarrow> bool) \<Rightarrow> workflowFetcher graph_env \<Rightarrow> workflowFetcher graph \<Rightarrow> bool" where
  "predictor_ready out content listing E g \<longleftrightarrow>
     ge_out E = out \<and> ge_fetch E = Fetch out \<and> parser_ok E \<and> answers out listing
     \<and> fetcher_usable out content (gr_fetcher g) \<and> lists_ok listing g"

text \<open>C9. The prediction counts the imminent jobs. If \<open>Predict\<close> returns counts, then for every label set
  the count is at most the total size of the jobs that chains of imminent jobs lead to in the active
  runs it listed, each job as large as its matrix; and it is exactly that when every jobs listing
  can be had and no workflow file failed to load. The order in which Go visits jobs, the caches and
  the retries make no difference.\<close>

theorem predict_counts_imminent_jobs:
  assumes "predictor_ready out content listing E g" "jobs_listed E listing cfg owner repo jobs"
    "0 < g_runsCap cfg" "Predict E cfg owner repo token g = (Inr m, g')"
  shows "\<exists>runs g1 new. listActiveRuns E cfg owner repo token g = (Inr runs, g1) \<and> gr_hooks g' = gr_hooks g @ new
    \<and> (\<forall>k. let demand = (\<Sum>rn \<leftarrow> runs. weigh k (run_chains E (\<lambda>ow re pa rf. content (cacheKey ow re pa rf)) owner repo (jobs (run_ID rn)) rn))
          in 0 \<le> count_of m k \<and> count_of m k \<le> demand
             \<and> ((\<forall>rn \<in> set runs. reachable out (jobsURL cfg owner repo (run_ID rn))) \<and> OnYAMLFetch ''error'' \<notin> set new
                 \<longrightarrow> count_of m k = demand))"
proof -
  have r: "ge_out E = out" "ge_fetch E = Fetch out" "parser_ok E" "answers (ge_out E) listing"
    "fetcher_usable out content (gr_fetcher g)" "lists_ok listing g"
    using assms(1) by (simp_all add: predictor_ready_def)
  obtain runs g1 where la: "listActiveRuns E cfg owner repo token g = (Inr runs, g1)"
    using assms(4) by (auto simp: Predict_def split: prod.splits sum.splits)
  have cap: "int (length []) < g_runsCap cfg" using assms(3) by simp
  note ll = listRunsLoop_eq [OF r(4,6) cap la [unfolded listActiveRuns_def]]
  have u1: "fetcher_usable out content (gr_fetcher g1)" and l1: "lists_ok listing g1" using ll r(5) by simp_all
  obtain dst g2 where cr: "contributeRuns E cfg owner repo runs token [] g1 = (dst, g2)" by force
  have "m = dst" "g' = g2"
    using assms(4) la cr by (auto simp: Predict_def split: if_splits)
  then show ?thesis
    using fetcher.contributeRuns_sums [OF r(2-4) assms(2) u1 l1 cr] la ll r(1)
    by (auto simp: sums_def Let_def)
qed

text \<open>C34. The active runs are the listed ones, once each and capped. If the listing of runs succeeds, the
  result is the runs of the listings of the five active statuses in their order, each run ID at its
  first place, cut off at the cap; later listings are asked for only while the cap is not reached,
  and every listing used is one the API gave for that status, now or earlier under the same ETag.\<close>

theorem active_runs_once_and_capped:
  assumes "answers (ge_out E) listing" "lists_ok listing g" "0 < g_runsCap cfg"
    "listActiveRuns E cfg owner repo token g = (Inr runs, g')"
  shows "distinct (map run_ID runs) \<and> int (length runs) \<le> g_runsCap cfg
    \<and> (\<exists>lists. list_all2 (runs_listed E listing cfg owner repo) (take (length lists) activeStatuses) lists
         \<and> runs = take (nat (g_runsCap cfg)) (first_runs {} (concat lists))
         \<and> (length lists = 5 \<or> int (length runs) = g_runsCap cfg))"
proof -
  have cap: "int (length []) < g_runsCap cfg" using assms(3) by simp
  obtain lists where l: "list_all2 (runs_listed E listing cfg owner repo) (take (length lists) activeStatuses) lists"
      "runs = take (nat (g_runsCap cfg)) (first_runs {} (concat lists))"
      "length lists = length activeStatuses \<or> int (length runs) = g_runsCap cfg"
    using listRunsLoop_eq [OF assms(1,2) cap assms(4) [unfolded listActiveRuns_def]] by (auto simp: loop_result_def)
  moreover have "distinct (map run_ID runs)"
    using first_runs_props(1) [of "{}" "concat lists"] by (simp add: l(2) take_map [symmetric] distinct_take)
  moreover have "int (length runs) \<le> g_runsCap cfg" using assms(3) by (simp add: l(2))
  ultimately show ?thesis by (auto simp: activeStatuses_def)
qed

text \<open>The body of the latest readable 200 answer at a URL in a log.\<close>

fun latest_body :: "net_event list \<Rightarrow> string \<Rightarrow> string option" where
  "latest_body [] u = None"
| "latest_body (Sent q res # es) u =
     (case latest_body es u of
        Some body \<Rightarrow> Some body
      | None \<Rightarrow> if rq_URL q = u then readable_ok res else None)"
| "latest_body (Slept d e # es) u = latest_body es u"

lemma latest_body_snoc:
  "latest_body (es @ [Sent q res]) u =
     (if rq_URL q = u \<and> readable_ok res \<noteq> None then readable_ok res else latest_body es u)"
  by (induction es u rule: latest_body.induct) (auto split: option.splits)

definition cache_latest :: "'f graph \<Rightarrow> bool" where
  "cache_latest g \<longleftrightarrow> (\<forall>u e. gr_listCache g u = Some e \<longrightarrow> latest_body (api_log (gr_api g)) u = Some (lc_body e))"

text \<open>C35. A listing is never older than the latest answer. If the cache holds the latest body the API gave
  for each URL it has, then so it does after \<open>cachedGet\<close>, and a body \<open>cachedGet\<close> returns, fresh or on a 304,
  is the body of the latest readable 200 answer to that URL in the whole log.\<close>

theorem cached_listing_is_latest:
  assumes "cache_latest g" "cachedGet out u token g = (r, g')"
  shows "cache_latest g' \<and> (\<forall>body. r = Inr body \<longrightarrow> latest_body (api_log (gr_api g')) u = Some body)"
proof -
  have u: "rq_URL (listRequest g u token) = u" by (simp add: listRequest_def Let_def)
  from assms(2) show ?thesis
  proof (cases rule: cachedGet_cases)
    case (failed err)
    then show ?thesis using assms(1) by (auto simp: cache_latest_def latest_body_snoc)
  next
    case (fresh body etag)
    then show ?thesis using assms(1) u by (auto simp: cache_latest_def latest_body_snoc)
  next
    case (cached e)
    then show ?thesis using assms(1) by (auto simp: cache_latest_def latest_body_snoc)
  qed
qed

section \<open>An example repository\<close>

text \<open>Every file of the repository is one workflow that calls \<open>./more.yml\<close>, so it calls itself; one run is
  active, under every status, and its job \<open>build\<close> has been created. The API answers every request
  with the same text, which the decoders read.\<close>

definition plain_text :: "string \<Rightarrow> al_string option" where
  "plain_text s = Some \<lparr>str_Value = s, str_ContainsExpression = False\<rparr>"

definition example_tree :: al_workflow where
  "example_tree =
     [(''build'', \<lparr>al_Needs = [], al_WorkflowCall = None,
         al_RunsOn = Some \<lparr>run_Labels = [plain_text ''linux''], run_LabelsExpr = None, run_Group = None\<rparr>,
         al_Strategy = None\<rparr>),
      (''test'', example_job),
      (''more'', \<lparr>al_Needs = [plain_text ''build''], al_WorkflowCall = Some (plain_text ''./more.yml''),
         al_RunsOn = None, al_Strategy = None\<rparr>)]"

definition example_run :: runRef where
  "example_run = \<lparr>run_ID = 7, run_Path = ''ci.yml'', run_HeadSHA = ''c0ffee''\<rparr>"

definition example_jobs :: "int64 \<Rightarrow> string list" where
  "example_jobs runID = [''build'']"

definition example_Do :: "net_event list \<Rightarrow> request \<Rightarrow> error + response" where
  "example_Do log req = answer 200 ''text'' []"

definition example_out :: outside where
  "example_out =
     \<lparr>out_Do = example_Do, out_ctx = (\<lambda>log d. None), out_rand = (\<lambda>log n. 0),
      out_now = (\<lambda>log. 0), out_NewRequest = (\<lambda>u. None)\<rparr>"

definition example_listing :: "string \<Rightarrow> string \<Rightarrow> bool" where
  "example_listing u body \<longleftrightarrow> body = ''text''"

definition example_lint :: "string \<Rightarrow> al_workflow option \<times> string list" where
  "example_lint raw = (Some example_tree, [])"

definition decode_runs :: "string \<Rightarrow> error + runRef list" where
  "decode_runs body = Inr [example_run]"

definition decode_jobs :: "string \<Rightarrow> error + jobRef list" where
  "decode_jobs body = Inr [\<lparr>jr_Name = ''build'', jr_Status = ''completed''\<rparr>]"

definition example_env :: "workflowFetcher graph_env" where
  "example_env =
     \<lparr>ge_out = example_out, ge_fetch = Fetch example_out, ge_actionlint = example_lint,
      ge_runs = decode_runs, ge_jobs = decode_jobs\<rparr>"

definition example_cfg :: WorkflowNeedsGraph where
  "example_cfg = (NewWorkflowNeedsGraph 1)\<lparr>g_baseURL := ''h''\<rparr>"

definition example_graph :: "workflowFetcher graph" where
  "example_graph = \<lparr>gr_listCache = Map.empty, gr_fetcher = example_fetcher\<lparr>wf_baseURL := ''h''\<rparr>, gr_api = new_api, gr_hooks = []\<rparr>"

lemma example_ready:
  "predictor_ready example_out (\<lambda>key. ''text'') example_listing example_env example_graph"
  "jobs_listed example_env example_listing cfg owner repo example_jobs"
  "reachable example_out u"
proof -
  have ok: "readable_ok (out_Do example_out log req) = Some ''text''" for log req
    by (simp add: readable_ok_def example_out_def example_Do_def answer_def)
  let ?f = "example_fetcher\<lparr>wf_baseURL := ''h''\<rparr>"
  have "fetcher_usable example_out (\<lambda>key. ''text'') ?f"
    unfolding fetcher_usable_def
  proof (intro conjI)
    have "cache_invar example_fetcher" by (simp add: example_fetcher_def NewWorkflowFetcher_invar)
    then show "cache_invar ?f" by (simp add: cache_invar_def)
    show "cache_holds (\<lambda>key. ''text'') ?f"
      by (simp add: cache_holds_def example_fetcher_def NewWorkflowFetcher_def)
    show "sane_delays example_out ?f"
      by (simp add: sane_delays_def rand_ok_def example_out_def example_fetcher_def NewWorkflowFetcher_def
          fetcherDefaultBaseDelay_def fetcherMaxBackoff_def second_def)
    show "serves example_out (\<lambda>key. ''text'') ?f"
      by (auto simp: serves_def example_out_def example_Do_def answer_def)
  qed
  moreover have "parser_ok example_env" by (auto simp: parser_ok_def example_env_def example_lint_def example_tree_def)
  moreover have "answers example_out example_listing" by (simp add: answers_def ok example_listing_def)
  ultimately show "predictor_ready example_out (\<lambda>key. ''text'') example_listing example_env example_graph"
    by (simp add: predictor_ready_def example_env_def example_graph_def lists_ok_def)
  show "jobs_listed example_env example_listing cfg owner repo example_jobs"
    by (simp add: jobs_listed_def example_env_def decode_jobs_def example_jobs_def)
  show "reachable example_out u" by (simp add: reachable_def ok) (simp add: example_out_def)
qed

lemma example_prediction:
  "case Predict example_env example_cfg ''o'' ''r'' [] example_graph of (r, g) \<Rightarrow> r = Inr [(''linux'', 6)]
     \<and> gr_hooks g = [OnYAMLFetch ''fetched'', OnYAMLFetch ''fetched'', OnDynamicSkipped ''cycle'']"
  by code_simp

text \<open>Three jobs of \<open>test\<close> in the run's workflow, three more in the copy it calls; the copy's own call is
  a cycle.\<close>

theorem predict_counts_imminent_jobs_witness:
  "weigh ''linux'' (run_chains example_env (\<lambda>ow re pa rf. ''text'') ''o'' ''r'' [''build''] example_run) = 6"
proof -
  let ?p = "Predict example_env example_cfg ''o'' ''r'' [] example_graph"
  note ev = example_prediction
  have ev_runs: "fst (listActiveRuns example_env example_cfg ''o'' ''r'' [] example_graph) = Inr [example_run]" by code_simp
  obtain g' where run: "?p = (Inr [(''linux'', 6)], g')" using ev by (cases ?p) simp
  have hooks: "gr_hooks g' = gr_hooks example_graph @ [OnYAMLFetch ''fetched'', OnYAMLFetch ''fetched'', OnDynamicSkipped ''cycle'']"
    using ev unfolding run by (simp add: example_graph_def)
  have cap: "0 < g_runsCap example_cfg" by (simp add: example_cfg_def NewWorkflowNeedsGraph_def)
  obtain runs g1 new where la: "listActiveRuns example_env example_cfg ''o'' ''r'' [] example_graph = (Inr runs, g1)"
    and new: "gr_hooks g' = gr_hooks example_graph @ new"
    and cnt: "\<And>k. (\<forall>rn \<in> set runs. reachable example_out (jobsURL example_cfg ''o'' ''r'' (run_ID rn)))
      \<and> OnYAMLFetch ''error'' \<notin> set new \<longrightarrow> count_of [(''linux'', 6)] k
      = (\<Sum>rn \<leftarrow> runs. weigh k (run_chains example_env (\<lambda>ow re pa rf. ''text'') ''o'' ''r'' (example_jobs (run_ID rn)) rn))"
    using predict_counts_imminent_jobs [OF example_ready(1,2) cap run] unfolding Let_def by blast
  have runs: "runs = [example_run]" using ev_runs unfolding la by simp
  have "OnYAMLFetch ''error'' \<notin> set new" using hooks new by simp
  then have "count_of [(''linux'', 6)] ''linux''
      = (\<Sum>rn \<leftarrow> runs. weigh ''linux'' (run_chains example_env (\<lambda>ow re pa rf. ''text'') ''o'' ''r'' (example_jobs (run_ID rn)) rn))"
    using cnt example_ready(3) by blast
  then show ?thesis by (simp add: runs count_of_def example_jobs_def)
qed

theorem active_runs_once_and_capped_witness:
  "\<exists>lists. list_all2 (runs_listed example_env example_listing example_cfg ''a'' ''r'')
      (take (length lists) activeStatuses) lists \<and> [example_run] = take 1 (first_runs {} (concat lists))"
proof -
  let ?l = "listActiveRuns example_env example_cfg ''a'' ''r'' [] example_graph"
  have "fst ?l = Inr [example_run]" by code_simp
  then obtain g' where run: "?l = (Inr [example_run], g')" by (metis prod.collapse)
  have "ge_out example_env = example_out" by (simp add: example_env_def)
  then have "answers (ge_out example_env) example_listing" "lists_ok example_listing example_graph"
    using example_ready(1) by (simp_all add: predictor_ready_def)
  moreover have "0 < g_runsCap example_cfg" "nat (g_runsCap example_cfg) = 1"
    by (simp_all add: example_cfg_def NewWorkflowNeedsGraph_def)
  ultimately show ?thesis using active_runs_once_and_capped [OF _ _ _ run] by auto
qed

text \<open>A server that answers with a new body first and with 304 from then on.\<close>

theorem cached_listing_is_latest_witness:
  "latest_body (api_log (gr_api (snd (cachedGet (scripted []) ''u'' [] (snd (cachedGet (scripted []) ''u'' [] example_graph)))))) ''u''
     = Some ''jobs: {}''
   \<and> map (\<lambda>e. case e of Sent _ (Inr resp) \<Rightarrow> rp_StatusCode resp | _ \<Rightarrow> 0)
       (api_log (gr_api (snd (cachedGet (scripted []) ''u'' [] (snd (cachedGet (scripted []) ''u'' [] example_graph)))))) = [200, 304]"
proof
  let ?g1 = "snd (cachedGet (scripted []) ''u'' [] example_graph)"
  have start: "cache_latest example_graph" by (simp add: cache_latest_def example_graph_def)
  have "cachedGet (scripted []) ''u'' [] example_graph = (fst (cachedGet (scripted []) ''u'' [] example_graph), ?g1)" by simp
  then have "cache_latest ?g1" using cached_listing_is_latest [OF start] by blast
  moreover have "fst (cachedGet (scripted []) ''u'' [] ?g1) = Inr ''jobs: {}''" by code_simp
  then have "cachedGet (scripted []) ''u'' [] ?g1 = (Inr ''jobs: {}'', snd (cachedGet (scripted []) ''u'' [] ?g1))"
    by (metis prod.collapse)
  ultimately show "latest_body (api_log (gr_api (snd (cachedGet (scripted []) ''u'' [] ?g1)))) ''u'' = Some ''jobs: {}''"
    using cached_listing_is_latest by blast
qed code_simp

end
