(* ===== verification/Sampler.thy ===== *)
theory Sampler
  imports Activity Prediction
begin

text \<open>
  The activity sampler (\<open>internal/activity/workflow_runs_sampler.go\<close>): recent runs started by people, and
  the jobs their workflows declare.

  As in theory Predictor the fetcher, the YAML parser and the decoding of the listing are arguments, and
  hook calls are a list in the state. The time \<open>since\<close> is formatted as RFC 3339 in the request.
\<close>

section \<open>The code\<close>

definition DefaultRunsCap :: int where "DefaultRunsCap = 50"

definition allowedEvents :: "string list" where
  "allowedEvents =
     [''push'', ''pull_request'', ''pull_request_target'', ''pull_request_review_comment'',
      ''workflow_dispatch'', ''repository_dispatch'']"

datatype sampler_hook =
    OnBotFiltered string | OnEventFiltered string | SampleYAMLFetch string | SampleDynamicSkipped string

record WorkflowRunsSampler =
  ws_runsCap :: int
  ws_userAgent :: string
  ws_baseURL :: string

definition NewWorkflowRunsSampler :: "string \<Rightarrow> int \<Rightarrow> WorkflowRunsSampler" where
  "NewWorkflowRunsSampler version runsCap =
     \<lparr>ws_runsCap = (if runsCap \<le> 0 then DefaultRunsCap else runsCap), ws_userAgent = ''warmrunners/'' @ version,
      ws_baseURL = ''https://api.github.com''\<rparr>"

record simpleUser =
  su_Login :: string
  su_Type :: string

record workflowRun =
  wr_ID :: int64
  wr_Event :: string
  wr_Path :: string
  wr_HeadSHA :: string
  wr_CreatedAt :: time
  wr_Actor :: simpleUser
  wr_TriggeringActor :: simpleUser

record 'f sampler =
  sa_fetcher :: 'f
  sa_api :: api
  sa_hooks :: "sampler_hook list"

record 'f sampler_env =
  se_out :: outside
  se_fetch :: "'f \<Rightarrow> api \<Rightarrow> string \<Rightarrow> string \<Rightarrow> string \<Rightarrow> string \<Rightarrow> string \<Rightarrow> (error + string) \<times> 'f \<times> api"
  se_actionlint :: "string \<Rightarrow> al_workflow option \<times> string list"
  se_runs :: "string \<Rightarrow> error + workflowRun list"

definition emitHook :: "sampler_hook \<Rightarrow> 'f sampler \<Rightarrow> 'f sampler" where
  "emitHook h s = s\<lparr>sa_hooks := sa_hooks s @ [h]\<rparr>"

text \<open>\<open>url.Values.Encode\<close> sorts by key: \<open>created\<close> comes before \<open>per_page\<close>.\<close>

definition runsListURL :: "WorkflowRunsSampler \<Rightarrow> string \<Rightarrow> string \<Rightarrow> time \<Rightarrow> string" where
  "runsListURL cfg owner repo since =
     trim_right (\<lambda>c. c = CHR ''/'') (ws_baseURL cfg) @ ''/repos/'' @ PathEscape owner @ ''/'' @ PathEscape repo
       @ ''/actions/runs?created='' @ QueryEscape (''>'' @ format_rfc3339 since) @ ''&per_page=100''"

definition runsListRequest :: "WorkflowRunsSampler \<Rightarrow> string \<Rightarrow> string \<Rightarrow> request" where
  "runsListRequest cfg u token =
     (let h = header_set ''User-Agent'' (ws_userAgent cfg) (header_set ''Accept'' ''application/vnd.github+json'' []);
          tok = trim_space token;
          h = (if tok \<noteq> [] then header_set ''Authorization'' (''Bearer '' @ tok) h else h)
      in \<lparr>rq_URL = u, rq_Header = h\<rparr>)"

definition fetchRunsList ::
  "'f sampler_env \<Rightarrow> WorkflowRunsSampler \<Rightarrow> string \<Rightarrow> string \<Rightarrow> string \<Rightarrow> duration \<Rightarrow> 'f sampler \<Rightarrow>
    (error + workflowRun list) \<times> 'f sampler" where
  "fetchRunsList E cfg owner repo token window s =
     (let since = out_now (se_out E) (api_log (sa_api s)) - window;
          u = runsListURL cfg owner repo since
      in case out_NewRequest (se_out E) u of
           Some err \<Rightarrow> (Inl err, s)
         | None \<Rightarrow>
             (let (res, a) = client_Do (se_out E) (runsListRequest cfg u token) (sa_api s); s = s\<lparr>sa_api := a\<rparr> in
              case res of
                Inl err \<Rightarrow> (Inl err, s)
              | Inr resp \<Rightarrow>
                  if rp_StatusCode resp \<noteq> 200
                  then (Inl (Error False (''activity sampler: GET '' @ u @ '': '' @ rp_Status resp)), s)
                  else (case rp_Body resp of
                          Inl err \<Rightarrow> (Inl err, s)
                        | Inr body \<Rightarrow>
                            (case se_runs E body of
                               Inl err \<Rightarrow> (Inl (Error (err_not_found err) (''activity sampler: decode runs: '' @ err_text err)), s)
                             | Inr runs \<Rightarrow> (Inr runs, s)))))"

definition resolveLabels :: "RunsOnSpec \<Rightarrow> string list" where
  "resolveLabels r = (if ro_Group r = [] then ro_Labels r else (''group:'' @ ro_Group r) # ro_Labels r)"

text \<open>The loop over the jobs of a workflow.\<close>

fun contributeJobs :: "Workflow \<Rightarrow> (string, int) gomap \<Rightarrow> 'f sampler \<Rightarrow> (string, int) gomap \<times> 'f sampler" where
  "contributeJobs [] dst s = (dst, s)"
| "contributeJobs ((jid, job) # jobs) dst s =
     (if job_UsesRemote job then contributeJobs jobs dst (emitHook (SampleDynamicSkipped ''remote_uses'') s)
      else if job_UsesLocal job \<noteq> [] then contributeJobs jobs dst (emitHook (SampleDynamicSkipped ''remote_uses'') s)
      else if ro_Dynamic (job_RunsOn job) then contributeJobs jobs dst (emitHook (SampleDynamicSkipped ''runs_on_expr'') s)
      else if mx_Dynamic (job_Matrix job) then contributeJobs jobs dst (emitHook (SampleDynamicSkipped ''matrix_expr'') s)
      else
        (let labels = resolveLabels (job_RunsOn job);
             cnt = (if length (mx_Combos (job_Matrix job)) > 0 then int (length (mx_Combos (job_Matrix job))) else 1)
         in contributeJobs jobs (map_incr (LabelSetKey labels) cnt dst) s))"

definition contributeRun ::
  "'f sampler_env \<Rightarrow> string \<Rightarrow> string \<Rightarrow> string \<Rightarrow> workflowRun \<Rightarrow> (string, int) gomap \<Rightarrow> 'f sampler \<Rightarrow>
    (string, int) gomap \<times> 'f sampler" where
  "contributeRun E owner repo token run dst s =
     (let (r, f, a) = se_fetch E (sa_fetcher s) (sa_api s) owner repo (wr_Path run) (wr_HeadSHA run) token;
          s = s\<lparr>sa_fetcher := f, sa_api := a\<rparr>
      in case r of
           Inl err \<Rightarrow> (dst, emitHook (SampleYAMLFetch ''error'') s)
         | Inr body \<Rightarrow>
             (let s = emitHook (SampleYAMLFetch ''fetched'') s in
              case Parse (se_actionlint E) body of
                Inl err \<Rightarrow> (dst, s)
              | Inr w \<Rightarrow> contributeJobs w dst s))"

fun sampleRuns ::
  "'f sampler_env \<Rightarrow> WorkflowRunsSampler \<Rightarrow> string \<Rightarrow> string \<Rightarrow> string \<Rightarrow> string list \<Rightarrow> workflowRun list \<Rightarrow> int \<Rightarrow>
    (string, int) gomap \<Rightarrow> 'f sampler \<Rightarrow> (string, int) gomap \<times> 'f sampler" where
  "sampleRuns E cfg owner repo token denylist [] scanned dst s = (dst, s)"
| "sampleRuns E cfg owner repo token denylist (run # runs) scanned dst s =
     (if scanned \<ge> ws_runsCap cfg then (dst, s)
      else
        (case IsBotActor (su_Type (wr_Actor run)) (su_Type (wr_TriggeringActor run)) (su_Login (wr_Actor run)) denylist of
           (isBot, reason) \<Rightarrow>
             if isBot then
               sampleRuns E cfg owner repo token denylist runs (scanned + 1) dst (emitHook (OnBotFiltered reason) s)
             else if \<not> List.member allowedEvents (wr_Event run) then
               sampleRuns E cfg owner repo token denylist runs (scanned + 1) dst (emitHook (OnEventFiltered (wr_Event run)) s)
             else
               (case contributeRun E owner repo token run dst s of
                  (dst, s) \<Rightarrow> sampleRuns E cfg owner repo token denylist runs (scanned + 1) dst s)))"

definition Sample ::
  "'f sampler_env \<Rightarrow> WorkflowRunsSampler \<Rightarrow> string \<Rightarrow> string \<Rightarrow> string \<Rightarrow> duration \<Rightarrow> string list \<Rightarrow> 'f sampler \<Rightarrow>
    (error + (string, int) gomap) \<times> 'f sampler" where
  "Sample E cfg owner repo token window denylist s =
     (case fetchRunsList E cfg owner repo token window s of
        (Inl err, s) \<Rightarrow> (Inl err, s)
      | (Inr runs, s) \<Rightarrow>
          (case sampleRuns E cfg owner repo token denylist runs 0 [] s of (dst, s) \<Rightarrow> (Inr dst, s)))"

section \<open>What is counted\<close>

text \<open>A run that a person started with an event that counts.\<close>

definition human_run :: "string list \<Rightarrow> workflowRun \<Rightarrow> bool" where
  "human_run denylist run \<longleftrightarrow>
     \<not> fst (IsBotActor (su_Type (wr_Actor run)) (su_Type (wr_TriggeringActor run)) (su_Login (wr_Actor run)) denylist)
     \<and> wr_Event run \<in> set allowedEvents"

text \<open>The size of a workflow under a label key: its literal jobs, each as large as its matrix.\<close>

definition declared :: "string \<Rightarrow> Workflow \<Rightarrow> int" where
  "declared k w = (\<Sum>(jid, job) \<leftarrow> w. if literal_job job \<and> job_key job = k then job_weight job else 0)"

definition run_declared ::
  "'f sampler_env \<Rightarrow> (string \<Rightarrow> string \<Rightarrow> string \<Rightarrow> string \<Rightarrow> string) \<Rightarrow> string \<Rightarrow> string \<Rightarrow> string \<Rightarrow> workflowRun \<Rightarrow> int" where
  "run_declared E contents owner repo k run =
     (case Parse (se_actionlint E) (contents owner repo (wr_Path run) (wr_HeadSHA run)) of
        Inl _ \<Rightarrow> 0 | Inr w \<Rightarrow> declared k w)"

lemma resolveLabels_eq: "resolveLabels = Predictor.resolveLabels"
  by (simp add: fun_eq_iff resolveLabels_def Predictor.resolveLabels_def)

lemma emitHook_simps [simp]:
  "sa_hooks (emitHook h s) = sa_hooks s @ [h]" "sa_fetcher (emitHook h s) = sa_fetcher s" "sa_api (emitHook h s) = sa_api s"
  by (simp_all add: emitHook_def)

lemma declared_nonneg: "0 \<le> declared k w"
  by (induction w) (auto simp: declared_def job_weight_def)

lemma contributeJobs_counts:
  "contributeJobs w dst s = (dst', s') \<Longrightarrow>
    (\<forall>k. count_of dst' k = count_of dst k + declared k w) \<and> sa_fetcher s' = sa_fetcher s \<and> sa_api s' = sa_api s
    \<and> (\<exists>new. sa_hooks s' = sa_hooks s @ new \<and> SampleYAMLFetch ''error'' \<notin> set new)"
proof (induction w arbitrary: dst s)
  case (Cons p w)
  obtain jid job where p: "p = (jid, job)" by force
  show ?case
  proof (cases "literal_job job")
    case True
    then have "contributeJobs w (map_incr (job_key job) (job_weight job) dst) s = (dst', s')"
      using Cons.prems by (simp add: p literal_job_def job_key_def job_weight_def resolveLabels_eq Let_def max_def Suc_le_eq
          split: if_splits)
    from Cons.IH [OF this] show ?thesis using True by (simp add: p declared_def)
  next
    case False
    then obtain h where h: "contributeJobs w dst (emitHook h s) = (dst', s')" "h \<noteq> SampleYAMLFetch ''error''"
      using Cons.prems by (auto simp: p literal_job_def split: if_splits)
    from Cons.IH [OF h(1)] show ?thesis using False h(2) by (auto simp: p declared_def)
  qed
qed (simp add: declared_def)

text \<open>The counts went up by at most \<open>W\<close>, and by exactly that if no fetch failed.\<close>

definition samples ::
  "(string \<Rightarrow> int) \<Rightarrow> (string, int) gomap \<Rightarrow> sampler_hook list \<Rightarrow> (string, int) gomap \<Rightarrow> sampler_hook list \<Rightarrow> bool" where
  "samples W dst hooks dst' hooks' \<longleftrightarrow> (\<exists>new. hooks' = hooks @ new \<and> (\<forall>k.
     count_of dst k \<le> count_of dst' k \<and> count_of dst' k \<le> count_of dst k + W k
     \<and> (SampleYAMLFetch ''error'' \<notin> set new \<longrightarrow> count_of dst' k = count_of dst k + W k)))"

lemma samples_trans:
  assumes "samples A dst hooks dst1 hooks1" "samples B dst1 hooks1 dst2 hooks2"
  shows "samples (\<lambda>k. A k + B k) dst hooks dst2 hooks2"
proof -
  obtain n1 n2 where "hooks1 = hooks @ n1" "hooks2 = hooks1 @ n2"
    and 1: "\<And>k. count_of dst k \<le> count_of dst1 k \<and> count_of dst1 k \<le> count_of dst k + A k
      \<and> (SampleYAMLFetch ''error'' \<notin> set n1 \<longrightarrow> count_of dst1 k = count_of dst k + A k)"
    and 2: "\<And>k. count_of dst1 k \<le> count_of dst2 k \<and> count_of dst2 k \<le> count_of dst1 k + B k
      \<and> (SampleYAMLFetch ''error'' \<notin> set n2 \<longrightarrow> count_of dst2 k = count_of dst1 k + B k)"
    using assms unfolding samples_def by blast
  then have "hooks2 = hooks @ (n1 @ n2)" by simp
  moreover have "count_of dst k \<le> count_of dst2 k \<and> count_of dst2 k \<le> count_of dst k + (A k + B k)
      \<and> (SampleYAMLFetch ''error'' \<notin> set (n1 @ n2) \<longrightarrow> count_of dst2 k = count_of dst k + (A k + B k))" for k
    using 1 [of k] 2 [of k] by auto
  ultimately show ?thesis unfolding samples_def by blast
qed

context workflow_source
begin

lemma sample_run:
  assumes "se_fetch E = fetch" "usable (sa_fetcher s)" "contributeRun E owner repo token run dst s = (dst', s')"
  shows "usable (sa_fetcher s') \<and> samples (\<lambda>k. run_declared E contents owner repo k run) dst (sa_hooks s) dst' (sa_hooks s')"
proof -
  obtain r f a where ft: "fetch (sa_fetcher s) (sa_api s) owner repo (wr_Path run) (wr_HeadSHA run) token = (r, f, a)"
    by (metis prod_cases3)
  have u: "usable f" using fetch_usable [OF assms(2) ft] .
  note body = assms(3) [unfolded contributeRun_def assms(1) ft, simplified]
  show ?thesis
  proof (cases r)
    case (Inl err)
    have "0 \<le> run_declared E contents owner repo k run" for k
      by (simp add: run_declared_def declared_nonneg split: sum.split)
    then show ?thesis using body Inl u by (auto simp: samples_def)
  next
    case (Inr raw)
    have raw: "raw = contents owner repo (wr_Path run) (wr_HeadSHA run)"
      using fetch_contents [OF assms(2) ft [unfolded Inr]] .
    show ?thesis
    proof (cases "Parse (se_actionlint E) raw")
      case bad: (Inl err)
      then show ?thesis using body Inr u by (auto simp: samples_def run_declared_def simp flip: raw)
    next
      case ok: (Inr w)
      then have "contributeJobs w dst (emitHook (SampleYAMLFetch ''fetched'') (s\<lparr>sa_fetcher := f, sa_api := a\<rparr>)) = (dst', s')"
        using body Inr by simp
      from contributeJobs_counts [OF this] show ?thesis
        using u ok declared_nonneg by (auto simp: samples_def run_declared_def simp flip: raw)
    qed
  qed
qed

lemma sample_runs:
  assumes "se_fetch E = fetch" "usable (sa_fetcher s)"
    "sampleRuns E cfg owner repo token denylist runs scanned dst s = (dst', s')"
  shows "usable (sa_fetcher s')
    \<and> samples (\<lambda>k. \<Sum>run \<leftarrow> filter (human_run denylist) (take (nat (ws_runsCap cfg - scanned)) runs).
          run_declared E contents owner repo k run) dst (sa_hooks s) dst' (sa_hooks s')"
  using assms(2,3)
proof (induction runs arbitrary: scanned dst s)
  case (Cons run runs)
  show ?case
  proof (cases "scanned \<ge> ws_runsCap cfg")
    case True
    then show ?thesis using Cons.prems by (simp add: samples_def)
  next
    case False
    then have n: "nat (ws_runsCap cfg - scanned) = Suc (nat (ws_runsCap cfg - (scanned + 1)))" by simp
    let ?bot = "IsBotActor (su_Type (wr_Actor run)) (su_Type (wr_TriggeringActor run)) (su_Login (wr_Actor run)) denylist"
    show ?thesis
    proof (cases "human_run denylist run")
      case True
      obtain dst1 s1 where one: "contributeRun E owner repo token run dst s = (dst1, s1)" by force
      have rest: "sampleRuns E cfg owner repo token denylist runs (scanned + 1) dst1 s1 = (dst', s')"
        using Cons.prems(2) False True one by (auto simp: human_run_def split: prod.splits)
      note c = sample_run [OF assms(1) Cons.prems(1) one]
      note ih = Cons.IH [OF c [THEN conjunct1] rest]
      show ?thesis using samples_trans [OF c [THEN conjunct2] ih [THEN conjunct2]] ih True by (simp add: n)
    next
      case no: False
      obtain h where h: "sampleRuns E cfg owner repo token denylist runs (scanned + 1) dst (emitHook h s) = (dst', s')"
          "h \<noteq> SampleYAMLFetch ''error''"
        using Cons.prems(2) False no by (auto simp: human_run_def split: prod.splits if_splits)
      have "usable (sa_fetcher (emitHook h s))" using Cons.prems(1) by simp
      from Cons.IH [OF this h(1)] show ?thesis using no h(2) by (auto simp: n samples_def)
    qed
  qed
qed (simp add: samples_def)

end

section \<open>Properties\<close>

text \<open>C10. The sample counts what people started. If \<open>Sample\<close> returns counts, it asked for the runs created in
  the last \<open>window\<close>, and for every label set the count is at most the number of literal jobs, each as
  large as its matrix, that the workflows of the listed runs declare which a person started with an
  event that counts, among the first \<open>runsCap\<close>; and it is exactly that when no workflow file failed to
  load. Runs of bots and of other events add nothing, but they use up the cap.\<close>

theorem sample_counts_human_runs:
  assumes "se_out E = out" "se_fetch E = Fetch out" "fetcher_usable out content (sa_fetcher s)"
    "Sample E cfg owner repo token window denylist s = (Inr m, s')"
  shows "\<exists>runs s1 new. fetchRunsList E cfg owner repo token window s = (Inr runs, s1) \<and> sa_hooks s' = sa_hooks s @ new
    \<and> (\<exists>res. api_log (sa_api s1) = api_log (sa_api s) @ [Sent (runsListRequest cfg
          (runsListURL cfg owner repo (out_now out (api_log (sa_api s)) - window)) token) res])
    \<and> (\<forall>k. let human = filter (human_run denylist) (take (nat (ws_runsCap cfg)) runs);
              size = (\<Sum>run \<leftarrow> human. run_declared E (\<lambda>ow re pa rf. content (cacheKey ow re pa rf)) owner repo k run)
          in 0 \<le> count_of m k \<and> count_of m k \<le> size
             \<and> (SampleYAMLFetch ''error'' \<notin> set new \<longrightarrow> count_of m k = size))"
proof -
  obtain runs s1 where fl: "fetchRunsList E cfg owner repo token window s = (Inr runs, s1)"
    using assms(4) by (auto simp: Sample_def split: prod.splits sum.splits)
  have fr: "sa_fetcher s1 = sa_fetcher s" "sa_hooks s1 = sa_hooks s"
    "\<exists>res. api_log (sa_api s1) = api_log (sa_api s) @ [Sent (runsListRequest cfg
          (runsListURL cfg owner repo (out_now out (api_log (sa_api s)) - window)) token) res]"
    using fl assms(1) by (auto simp: fetchRunsList_def client_Do_def Let_def split: option.splits sum.splits if_splits)
  obtain dst s2 where sr: "sampleRuns E cfg owner repo token denylist runs 0 [] s1 = (dst, s2)" by force
  have "m = dst" "s' = s2" using assms(4) fl sr by (auto simp: Sample_def)
  moreover have "fetcher_usable out content (sa_fetcher s1)" using assms(3) fr(1) by simp
  ultimately show ?thesis
    using fetcher.sample_runs [OF assms(2) _ sr] fl fr by (auto simp: samples_def Let_def)
qed

section \<open>An example\<close>

definition person_run :: workflowRun where
  "person_run = \<lparr>wr_ID = 1, wr_Event = ''push'', wr_Path = ''ci.yml'', wr_HeadSHA = ''c0'', wr_CreatedAt = 0,
     wr_Actor = \<lparr>su_Login = ''ana'', su_Type = ''User''\<rparr>, wr_TriggeringActor = \<lparr>su_Login = ''ana'', su_Type = ''User''\<rparr>\<rparr>"

definition bot_run :: workflowRun where
  "bot_run = person_run\<lparr>wr_Actor := \<lparr>su_Login = ''renovate[bot]'', su_Type = ''User''\<rparr>\<rparr>"

definition decode_sample :: "string \<Rightarrow> error + workflowRun list" where
  "decode_sample body = Inr [bot_run, person_run, person_run]"

definition sampler_example :: "workflowFetcher sampler_env" where
  "sampler_example =
     \<lparr>se_out = example_out, se_fetch = Fetch example_out, se_actionlint = example_lint, se_runs = decode_sample\<rparr>"

definition sampler_start :: "workflowFetcher sampler" where
  "sampler_start = \<lparr>sa_fetcher = gr_fetcher example_graph, sa_api = new_api, sa_hooks = []\<rparr>"

definition sampler_cfg :: WorkflowRunsSampler where
  "sampler_cfg = (NewWorkflowRunsSampler ''dev'' 2)\<lparr>ws_baseURL := ''h''\<rparr>"

text \<open>Of three runs two are within the cap, one of them a bot's; the other declares one job and a matrix
  of three.\<close>

theorem sample_counts_human_runs_witness:
  "(\<Sum>run \<leftarrow> filter (human_run BuiltinDenylist) (take 2 [bot_run, person_run, person_run]).
      run_declared sampler_example (\<lambda>ow re pa rf. ''text'') ''a'' ''r'' ''linux'' run) = 4"
proof -
  let ?p = "Sample sampler_example sampler_cfg ''a'' ''r'' [] (30 * minute) BuiltinDenylist sampler_start"
  have ev: "case ?p of (r, s) \<Rightarrow> r = Inr [(''linux'', 4)] \<and> SampleYAMLFetch ''error'' \<notin> set (sa_hooks s)" by code_simp
  have ev_runs: "fst (fetchRunsList sampler_example sampler_cfg ''a'' ''r'' [] (30 * minute) sampler_start)
      = Inr [bot_run, person_run, person_run]" by code_simp
  obtain s' where run: "?p = (Inr [(''linux'', 4)], s')" using ev by (cases ?p) simp
  have env: "se_out sampler_example = example_out" "se_fetch sampler_example = Fetch example_out"
    by (simp_all add: sampler_example_def)
  have usable: "fetcher_usable example_out (\<lambda>key. ''text'') (sa_fetcher sampler_start)"
    using example_ready(1) by (simp add: predictor_ready_def sampler_start_def)
  obtain runs s1 new where fl: "fetchRunsList sampler_example sampler_cfg ''a'' ''r'' [] (30 * minute) sampler_start = (Inr runs, s1)"
    and new: "sa_hooks s' = sa_hooks sampler_start @ new"
    and cnt: "\<And>k. SampleYAMLFetch ''error'' \<notin> set new \<longrightarrow> count_of [(''linux'', 4)] k
      = (\<Sum>run \<leftarrow> filter (human_run BuiltinDenylist) (take (nat (ws_runsCap sampler_cfg)) runs).
          run_declared sampler_example (\<lambda>ow re pa rf. ''text'') ''a'' ''r'' k run)"
    using sample_counts_human_runs [OF env usable run] unfolding Let_def by blast
  have "SampleYAMLFetch ''error'' \<notin> set new" using ev new unfolding run by simp
  moreover have "runs = [bot_run, person_run, person_run]" using ev_runs unfolding fl by simp
  moreover have "nat (ws_runsCap sampler_cfg) = 2" by (simp add: sampler_cfg_def NewWorkflowRunsSampler_def)
  ultimately show ?thesis using cnt [of "''linux''"] by (simp add: count_of_def)
qed

end
