(* ===== verification/Poller.thy ===== *)
theory Poller
  imports Retry Labels "HOL-Library.Monad_Syntax"
begin

text \<open>
  The demand poller (\<open>internal/demand/github_poller.go\<close>): the jobs that wait or run, counted over all
  pages of all runs, with conditional requests and retries.

  \<open>pollAttempt\<close> is the body of the retry loop (a \<open>break\<close> in one of its \<open>switch\<close> cases leaves only the
  \<open>switch\<close>). The loops over pages have no bound in the code: they are partial functions, \<open>None\<close> when they
  do not end. A cached value is the decoded response, tagged with its type as \<open>reflect\<close> sees it. Decoding
  JSON is an argument. \<open>time.Unix\<close> is exact here, where Go's wraps for seconds beyond 64 bits.
\<close>

section \<open>The code\<close>

definition defaultBaseDelay :: duration where "defaultBaseDelay = 1 * second"
definition maxBackoff :: duration where "maxBackoff = 60 * second"
definition maxRetries :: nat where "maxRetries = 3"

record runsResp =
  rr_TotalCount :: int
  rr_WorkflowRuns :: "int64 list"

record jobResp =
  jb_Status :: string
  jb_Labels :: "string list"

record jobsResp =
  js_TotalCount :: int
  js_Jobs :: "jobResp list"

datatype parsed = ParsedRuns runsResp | ParsedJobs jobsResp

record pollCacheEntry =
  pc_etag :: string
  pc_parsed :: parsed

record GitHubRESTPoller =
  p_baseURL :: string
  p_token :: string
  p_baseDelay :: duration
  p_cache :: "string \<rightharpoonup> pollCacheEntry"

definition NewGitHubRESTPoller :: "string \<Rightarrow> string \<Rightarrow> GitHubRESTPoller" where
  "NewGitHubRESTPoller baseURL token =
     \<lparr>p_baseURL = baseURL, p_token = trim_space token, p_baseDelay = defaultBaseDelay, p_cache = Map.empty\<rparr>"

definition WithBaseDelay :: "duration \<Rightarrow> GitHubRESTPoller \<Rightarrow> GitHubRESTPoller" where
  "WithBaseDelay d p = (if d > 0 then p\<lparr>p_baseDelay := d\<rparr> else p)"

record poll_env =
  pe_out :: outside
  pe_version :: string
  pe_runs :: "string \<Rightarrow> error + runsResp"
  pe_jobs :: "string \<Rightarrow> error + jobsResp"

type_synonym poll_state = "GitHubRESTPoller \<times> api"

definition pollETag :: "GitHubRESTPoller \<Rightarrow> string \<Rightarrow> string" where
  "pollETag p u = (case p_cache p u of Some e \<Rightarrow> pc_etag e | None \<Rightarrow> [])"

definition sleepCtx :: "outside \<Rightarrow> duration \<Rightarrow> api \<Rightarrow> error option \<times> api" where
  "sleepCtx out d s = (if d \<le> 0 then (None, s) else sleep_select out d s)"

definition backoffDelay :: "outside \<Rightarrow> GitHubRESTPoller \<Rightarrow> nat \<Rightarrow> api \<Rightarrow> duration" where
  "backoffDelay out p attempt s =
     (let d = to_int64 (p_baseDelay p * 2 ^ attempt);
          d = (if d > maxBackoff \<or> d \<le> 0 then maxBackoff else d);
          jitterMax = p_baseDelay p;
          d = (if jitterMax > 0 then to_int64 (d + out_rand out (api_log s) jitterMax) else d)
      in if d > maxBackoff then maxBackoff else d)"

definition backoff :: "outside \<Rightarrow> GitHubRESTPoller \<Rightarrow> nat \<Rightarrow> api \<Rightarrow> error option \<times> api" where
  "backoff out p attempt s = sleepCtx out (backoffDelay out p attempt s) s"

definition unix_time :: "int \<Rightarrow> time" where
  "unix_time epoch = (62135596800 + epoch) * second"

definition rateLimitDelay :: "response \<Rightarrow> time \<Rightarrow> duration \<times> bool" where
  "rateLimitDelay resp now =
     (let ra = header_get (rp_Header resp) ''Retry-After'';
          secs = (if ra \<noteq> [] then parse_int64 (trim_space ra) else None);
          rs = header_get (rp_Header resp) ''X-RateLimit-Reset'';
          reset = (if header_get (rp_Header resp) ''X-RateLimit-Remaining'' = ''0'' \<and> rs \<noteq> []
                   then (case parse_int64 (trim_space rs) of
                           Some epoch \<Rightarrow> (let wait = time_sub (unix_time epoch) now in (if wait < 0 then 0 else wait, True))
                         | None \<Rightarrow> (0, False))
                   else (0, False))
      in case secs of
           Some n \<Rightarrow> if n \<ge> 0 then (to_int64 (n * second), True) else reset
         | None \<Rightarrow> reset)"

definition pollRequest :: "poll_env \<Rightarrow> GitHubRESTPoller \<Rightarrow> string \<Rightarrow> request" where
  "pollRequest E p u =
     (let h = (if p_token p \<noteq> [] then header_set ''Authorization'' (''Bearer '' @ p_token p) [] else []);
          h = header_set ''User-Agent'' (''warmrunners/'' @ pe_version E)
                (header_set ''Accept'' ''application/vnd.github+json'' h);
          etag = pollETag p u;
          h = (if etag \<noteq> [] then header_set ''If-None-Match'' etag h else h)
      in \<lparr>rq_URL = u, rq_Header = h\<rparr>)"

definition pollStatusError :: "response \<Rightarrow> error" where
  "pollStatusError resp = Error False (''github api: '' @ rp_Status resp)"

text \<open>One attempt of \<open>doWithRetry\<close>.\<close>

definition pollAttempt ::
  "poll_env \<Rightarrow> string \<Rightarrow> nat \<Rightarrow> poll_state \<Rightarrow> (response \<times> string) outcome \<times> poll_state" where
  "pollAttempt E u attempt = (\<lambda>(p, s).
      case out_NewRequest (pe_out E) u of
        Some err \<Rightarrow> (Done (Inl err), p, s)
      | None \<Rightarrow>
          (case client_Do (pe_out E) (pollRequest E p u) s of
             (Inl err, s) \<Rightarrow>
               if attempt = maxRetries then (Done (Inl err), p, s)
               else (let (r, s) = waited (backoff (pe_out E) p attempt s) err in (r, p, s))
           | (Inr resp, s) \<Rightarrow>
               (let s = RecordRateLimit SourceDemand (rp_Header resp) s in
                if rp_StatusCode resp = 200 \<or> rp_StatusCode resp = 304 then
                  (case rp_Body resp of
                     Inl rerr \<Rightarrow> (Done (Inl rerr), p, s)
                   | Inr body \<Rightarrow> (Done (Inr (resp, body)), p, s))
                else if rp_StatusCode resp \<ge> 500 then
                  (if attempt = maxRetries then (Again (pollStatusError resp), p, s)
                   else (let (r, s) = waited (backoff (pe_out E) p attempt s) (pollStatusError resp) in (r, p, s)))
                else if rp_StatusCode resp = 429 \<or> rp_StatusCode resp = 403 then
                  (let (wait, retryable) = rateLimitDelay resp (out_now (pe_out E) (api_log s)) in
                   if \<not> retryable \<or> attempt = maxRetries then (Again (pollStatusError resp), p, s)
                   else (let (r, s) = waited (if wait > 0 then sleepCtx (pe_out E) wait s
                                              else backoff (pe_out E) p attempt s) (pollStatusError resp)
                         in (r, p, s)))
                else (Done (Inl (pollStatusError resp)), p, s))))"

definition doWithRetry :: "poll_env \<Rightarrow> string \<Rightarrow> poll_state \<Rightarrow> (error + response \<times> string) \<times> poll_state" where
  "doWithRetry E u st =
     retryLoop (pollAttempt E u) maxRetries (Error False (''github api: request to '' @ u @ '' failed'')) None 0 st"

text \<open>The names \<open>reflect\<close> gives the two types of responses.\<close>

definition type_name :: "parsed \<Rightarrow> string" where
  "type_name v = (case v of ParsedRuns _ \<Rightarrow> ''demand.runsResp'' | ParsedJobs _ \<Rightarrow> ''demand.jobsResp'')"

definition other_type :: "parsed \<Rightarrow> string" where
  "other_type v = (case v of ParsedRuns _ \<Rightarrow> ''demand.jobsResp'' | ParsedJobs _ \<Rightarrow> ''demand.runsResp'')"

text \<open>\<open>get\<close> for a type of response: its decoder, its tag, and the check that a cached value has the tag.\<close>

definition get ::
  "poll_env \<Rightarrow> (string \<Rightarrow> error + 'a) \<Rightarrow> ('a \<Rightarrow> parsed) \<Rightarrow> (parsed \<Rightarrow> 'a option) \<Rightarrow> string \<Rightarrow> poll_state \<Rightarrow>
    (error + 'a) \<times> poll_state" where
  "get E decode wrap unwrap u st =
     (case doWithRetry E u st of
        (Inl err, st) \<Rightarrow> (Inl err, st)
      | (Inr (resp, body), p, s) \<Rightarrow>
          if rp_StatusCode resp = 304 then
            (case p_cache p u of
               None \<Rightarrow> (Inl (Error False (''github api: 304 for '' @ u @ '' but nothing cached'')), p, s)
             | Some entry \<Rightarrow>
                 (case unwrap (pc_parsed entry) of
                    None \<Rightarrow>
                      (Inl (Error False (''github api: 304 cache type mismatch for '' @ u @ '': cached ''
                         @ type_name (pc_parsed entry) @ '', want '' @ other_type (pc_parsed entry))), p, s)
                  | Some v \<Rightarrow> (Inr v, p, s)))
          else if rp_StatusCode resp \<noteq> 200 then (Inl (pollStatusError resp), p, s)
          else
            (case decode body of
               Inl err \<Rightarrow> (Inl err, p, s)
             | Inr v \<Rightarrow>
                 (let etag = header_get (rp_Header resp) ''ETag'';
                      p = (if etag \<noteq> [] then p\<lparr>p_cache := (p_cache p)(u \<mapsto> \<lparr>pc_etag = etag, pc_parsed = wrap v\<rparr>)\<rparr> else p)
                  in (Inr v, p, s))))"

definition as_runs :: "parsed \<Rightarrow> runsResp option" where
  "as_runs v = (case v of ParsedRuns r \<Rightarrow> Some r | ParsedJobs _ \<Rightarrow> None)"

definition as_jobs :: "parsed \<Rightarrow> jobsResp option" where
  "as_jobs v = (case v of ParsedJobs r \<Rightarrow> Some r | ParsedRuns _ \<Rightarrow> None)"

definition perPage :: nat where "perPage = 100"

definition runsPageURL :: "GitHubRESTPoller \<Rightarrow> string \<Rightarrow> string \<Rightarrow> string \<Rightarrow> nat \<Rightarrow> string" where
  "runsPageURL p owner repo status page =
     p_baseURL p @ ''/repos/'' @ PathEscape owner @ ''/'' @ PathEscape repo @ ''/actions/runs?status='' @ status
       @ ''&per_page=100&page='' @ show_nat page"

definition jobsPageURL :: "GitHubRESTPoller \<Rightarrow> string \<Rightarrow> string \<Rightarrow> int64 \<Rightarrow> nat \<Rightarrow> string" where
  "jobsPageURL p owner repo runID page =
     p_baseURL p @ ''/repos/'' @ PathEscape owner @ ''/'' @ PathEscape repo @ ''/actions/runs/'' @ show_int runID
       @ ''/jobs?per_page=100&page='' @ show_nat page"

partial_function (option) listRunPages ::
  "poll_env \<Rightarrow> string \<Rightarrow> string \<Rightarrow> string \<Rightarrow> nat \<Rightarrow> int64 list \<Rightarrow> poll_state \<Rightarrow> ((error + int64 list) \<times> poll_state) option" where
  "listRunPages E owner repo status page ids st =
     (case get E (pe_runs E) ParsedRuns as_runs (runsPageURL (fst st) owner repo status page) st of
        (Inl err, st) \<Rightarrow> Some (Inl err, st)
      | (Inr body, st) \<Rightarrow>
          if length (rr_WorkflowRuns body) < perPage then Some (Inr (ids @ rr_WorkflowRuns body), st)
          else listRunPages E owner repo status (page + 1) (ids @ rr_WorkflowRuns body) st)"

definition listRunIDs ::
  "poll_env \<Rightarrow> string \<Rightarrow> string \<Rightarrow> string \<Rightarrow> poll_state \<Rightarrow> ((error + int64 list) \<times> poll_state) option" where
  "listRunIDs E owner repo status st = listRunPages E owner repo status 1 [] st"

definition labelsMatch :: "string list \<Rightarrow> string list \<Rightarrow> bool" where
  "labelsMatch have want = (if length want = 0 then True else all_wanted have want)"

text \<open>The loop over the jobs of a page, with the 32-bit counters.\<close>

fun tallyJobs :: "string list \<Rightarrow> jobResp list \<Rightarrow> int32 \<times> int32 \<Rightarrow> int32 \<times> int32" where
  "tallyJobs want [] qr = qr"
| "tallyJobs want (j # js) (queued, running) =
     (if \<not> labelsMatch (jb_Labels j) want then tallyJobs want js (queued, running)
      else if jb_Status j = ''queued'' then tallyJobs want js (to_int32 (queued + 1), running)
      else if jb_Status j = ''in_progress'' then tallyJobs want js (queued, to_int32 (running + 1))
      else tallyJobs want js (queued, running))"

partial_function (option) countJobPages ::
  "poll_env \<Rightarrow> string \<Rightarrow> string \<Rightarrow> int64 \<Rightarrow> string list \<Rightarrow> nat \<Rightarrow> int32 \<times> int32 \<Rightarrow> poll_state \<Rightarrow>
    ((error + int32 \<times> int32) \<times> poll_state) option" where
  "countJobPages E owner repo runID want page qr st =
     (case get E (pe_jobs E) ParsedJobs as_jobs (jobsPageURL (fst st) owner repo runID page) st of
        (Inl err, st) \<Rightarrow> Some (Inl err, st)
      | (Inr body, st) \<Rightarrow>
          if length (js_Jobs body) < perPage then Some (Inr (tallyJobs want (js_Jobs body) qr), st)
          else countJobPages E owner repo runID want (page + 1) (tallyJobs want (js_Jobs body) qr) st)"

definition countRunJobs ::
  "poll_env \<Rightarrow> string \<Rightarrow> string \<Rightarrow> int64 \<Rightarrow> string list \<Rightarrow> poll_state \<Rightarrow> ((error + int32 \<times> int32) \<times> poll_state) option" where
  "countRunJobs E owner repo runID want st = countJobPages E owner repo runID want 1 (0, 0) st"

fun countRuns ::
  "poll_env \<Rightarrow> string \<Rightarrow> string \<Rightarrow> string list \<Rightarrow> int64 list \<Rightarrow> int32 \<times> int32 \<Rightarrow> poll_state \<Rightarrow>
    ((error + int32 \<times> int32) \<times> poll_state) option" where
  "countRuns E owner repo labels [] qr st = Some (Inr qr, st)"
| "countRuns E owner repo labels (i # ids) (queued, running) st =
     (case countRunJobs E owner repo i labels st of
        None \<Rightarrow> None
      | Some (Inl err, st) \<Rightarrow> Some (Inl err, st)
      | Some (Inr (q, r), st) \<Rightarrow>
          countRuns E owner repo labels ids (to_int32 (queued + q), to_int32 (running + r)) st)"

fun countStatuses ::
  "poll_env \<Rightarrow> string \<Rightarrow> string \<Rightarrow> string list \<Rightarrow> string list \<Rightarrow> int32 \<times> int32 \<Rightarrow> poll_state \<Rightarrow>
    ((error + int32 \<times> int32) \<times> poll_state) option" where
  "countStatuses E owner repo labels [] qr st = Some (Inr qr, st)"
| "countStatuses E owner repo labels (status # statuses) qr st =
     (case listRunIDs E owner repo status st of
        None \<Rightarrow> None
      | Some (Inl err, st) \<Rightarrow> Some (Inl err, st)
      | Some (Inr runIDs, st) \<Rightarrow>
          (case countRuns E owner repo labels runIDs qr st of
             None \<Rightarrow> None
           | Some (Inl err, st) \<Rightarrow> Some (Inl err, st)
           | Some (Inr qr, st) \<Rightarrow> countStatuses E owner repo labels statuses qr st))"

text \<open>The snapshot is the pair of its fields \<open>Queued\<close> and \<open>Running\<close>.\<close>

definition CurrentDemand ::
  "poll_env \<Rightarrow> string \<Rightarrow> string \<Rightarrow> string list \<Rightarrow> poll_state \<Rightarrow> ((error + int32 \<times> int32) \<times> poll_state) option" where
  "CurrentDemand E owner repo labels st = countStatuses E owner repo labels [''queued'', ''in_progress''] (0, 0) st"

declare listRunPages.simps [code]
declare countJobPages.simps [code]

interpretation poll_filter: label_filter labelsMatch
  by unfold_locales (simp add: labelsMatch_def all_wanted_iff)

section \<open>Attempts\<close>

definition poll_sane :: "outside \<Rightarrow> GitHubRESTPoller \<Rightarrow> bool" where
  "poll_sane out p \<longleftrightarrow> rand_ok out \<and> 0 < p_baseDelay p \<and> p_baseDelay p \<le> maxBackoff"

definition poll_delay_ok :: "error + response \<Rightarrow> duration \<Rightarrow> bool" where
  "poll_delay_ok res d \<longleftrightarrow> 0 < d \<and> (d \<le> maxBackoff
     \<or> (case res of Inl _ \<Rightarrow> False | Inr resp \<Rightarrow> \<exists>now. rateLimitDelay resp now = (d, True)))"

definition poll_hard :: "error + response \<Rightarrow> bool" where
  "poll_hard res \<longleftrightarrow> (case res of Inl _ \<Rightarrow> False
     | Inr resp \<Rightarrow> rp_StatusCode resp \<in> {403, 429} \<and> (\<exists>now. \<not> snd (rateLimitDelay resp now)))"

lemma poll_backoff_log:
  assumes "backoff out p n s = (e, t)" "poll_sane out p" "n \<le> maxRetries"
  shows "\<exists>d. api_log t = api_log s @ [Slept d e] \<and> poll_delay_ok res d"
proof -
  have b: "0 < p_baseDelay p" "p_baseDelay p \<le> maxBackoff" "maxBackoff \<le> 60 * second" "n \<le> 3"
    using assms by (simp_all add: poll_sane_def maxBackoff_def maxRetries_def)
  have j: "0 \<le> out_rand out (api_log s) (p_baseDelay p)" "out_rand out (api_log s) (p_baseDelay p) < p_baseDelay p"
    using assms(2) by (simp_all add: poll_sane_def rand_ok_def)
  have r: "0 < backoffDelay out p n s" "backoffDelay out p n s \<le> maxBackoff"
    unfolding backoffDelay_def Let_def if_P [OF b(1)] by (rule backoff_range [OF b j refl refl refl])+
  then have "sleep_select out (backoffDelay out p n s) s = (e, t)"
    using assms(1) by (simp add: backoff_def sleepCtx_def)
  then show ?thesis using r by (auto simp: poll_delay_ok_def dest!: sleep_select_log)
qed

lemma rateLimit_log:
  assumes "(if wait > 0 then sleepCtx out wait s else backoff out p n s) = (e, t)" "poll_sane out p" "n \<le> maxRetries"
    and "rateLimitDelay resp now = (wait, True)"
  shows "\<exists>d. api_log t = api_log s @ [Slept d e] \<and> poll_delay_ok (Inr resp) d"
  using assms poll_backoff_log [of out p n s e t "Inr resp"] sleep_select_log [of out wait s e t]
  by (auto simp: sleepCtx_def poll_delay_ok_def split: if_splits)

text \<open>What one attempt puts into the log, and what it returns; it leaves the poller alone.\<close>

lemma pollAttempt_log:
  assumes run: "pollAttempt E u n (p, s) = (r, g, t)" and sane: "poll_sane (pe_out E) p" and n: "n \<le> maxRetries"
  shows "attempt_ok poll_delay_ok poll_hard maxRetries n (pollRequest E p u) (api_log s) r (api_log t)"
proof (cases "out_NewRequest (pe_out E) u")
  case (Some err)
  then show ?thesis using run by (auto simp: pollAttempt_def intro: attempt_ok_done)
next
  case None
  define req where "req = pollRequest E p u"
  obtain res w where Do: "client_Do (pe_out E) req s = (res, w)" by (rule prod.exhaust)
  then have w: "api_log w = api_log s @ [Sent req res]" using client_Do_log by blast
  note body = run [unfolded pollAttempt_def prod.case None option.case, folded req_def, unfolded Do, simplified]
  have paused: "attempt_ok poll_delay_ok poll_hard maxRetries n req (api_log s) r (api_log t)"
    if "(case waited (backoff (pe_out E) p n v) err of (r, s) \<Rightarrow> (r, p, s)) = (r, g, t)" "api_log v = api_log s @ [Sent req res]" for v err
    by (rule attempt_ok_waited [OF that]) (rule poll_backoff_log [OF _ sane n])
  show ?thesis
  proof (cases res)
    case (Inl err)
    then show ?thesis
      unfolding req_def [symmetric] using body w paused [of w err]
      by (cases "n = maxRetries") (auto intro: attempt_ok_done)
  next
    case (Inr resp)
    define v where "v = RecordRateLimit SourceDemand (rp_Header resp) w"
    have v: "api_log v = api_log s @ [Sent req res]" by (simp add: v_def w)
    note body = body [unfolded Inr, simplified, folded v_def]
    show ?thesis
    proof (cases "rp_StatusCode resp = 429 \<or> rp_StatusCode resp = 403")
      case limited: True
      obtain wait retryable where rd: "rateLimitDelay resp (out_now (pe_out E) (api_log v)) = (wait, retryable)" by (rule prod.exhaust)
      from limited body rd have "(if \<not> retryable \<or> n = maxRetries then (Again (pollStatusError resp), p, v)
          else case waited (if wait > 0 then sleepCtx (pe_out E) wait v else backoff (pe_out E) p n v) (pollStatusError resp)
            of (r, s) \<Rightarrow> (r, p, s)) = (r, g, t)" by auto
      moreover have "\<not> retryable \<Longrightarrow> poll_hard res"
        using limited rd Inr by (auto simp: poll_hard_def) (metis snd_conv)+
      ultimately show ?thesis unfolding req_def [symmetric]
        by (rule attempt_ok_limited [OF _ v]) (use rateLimit_log [OF _ sane n, of wait v] rd Inr in auto)
    next
      case False
      then show ?thesis
        unfolding req_def [symmetric] using body v paused [OF _ v]
        by (auto split: if_splits sum.splits option.splits prod.splits intro: attempt_ok_done attempt_ok_again)
    qed
  qed
qed

lemma pollAttempt_result:
  assumes "pollAttempt E u n (p, s) = (r, g, t)"
  shows "g = p \<and> (\<forall>resp body. r = Done (Inr (resp, body)) \<longrightarrow>
    out_Do (pe_out E) (api_log s) (pollRequest E p u) = Inr resp \<and> rp_Body resp = Inr body
    \<and> (rp_StatusCode resp = 200 \<or> rp_StatusCode resp = 304))"
  using assms
  by (auto simp: pollAttempt_def client_Do_def waited_def Let_def split: option.splits sum.splits if_splits prod.splits)

interpretation poll_loop: retry_client "pollAttempt E u" "\<lambda>(p, s). api_log s" maxRetries poll_delay_ok poll_hard
    "\<lambda>(p, s). poll_sane (pe_out E) p" "\<lambda>(p, s). pollRequest E p u" for E u
  by unfold_locales (auto dest: pollAttempt_log pollAttempt_result)


section \<open>A server\<close>

text \<open>A server that answers by a script, and then with a good response for ever; decoding gives an empty
  list.\<close>

definition scripted_poll :: "(error + response) list \<Rightarrow> poll_env" where
  "scripted_poll script =
     \<lparr>pe_out = \<lparr>out_Do = (\<lambda>log req. let n = length (filter is_sent log) in
                    if n < length script then script ! n else answer 200 ''{}'' [(''ETag'', ''v1'')]),
                out_ctx = (\<lambda>log d. None), out_rand = (\<lambda>log n. 0),
                out_now = (\<lambda>log. 63000000000 * second), out_NewRequest = (\<lambda>u. None)\<rparr>,
      pe_version = ''dev'',
      pe_runs = (\<lambda>body. Inr \<lparr>rr_TotalCount = 0, rr_WorkflowRuns = []\<rparr>),
      pe_jobs = (\<lambda>body. Inr \<lparr>js_TotalCount = 0, js_Jobs = []\<rparr>)\<rparr>"

definition example_poller :: GitHubRESTPoller where
  "example_poller = NewGitHubRESTPoller ''http://api'' '' tok ''"

definition rate_limits :: "(error + response) list" where
  "rate_limits = [answer 429 [] [(''X-RateLimit-Remaining'', ''0''), (''X-RateLimit-Reset'', ''864403205'')],
     answer 403 [] [(''Retry-After'', '' 9 '')], answer 502 [] []]"


text \<open>The exception is what the code does: a rate limit without headers is meant to end the loop, but
  the \<open>break\<close> ends only the \<open>switch\<close>, and the request is repeated three times without a pause.\<close>

lemma bare_429_repeated_at_once:
  "map is_sent (api_log (snd (snd (doWithRetry (scripted_poll (replicate 4 (answer 429 [] []))) ''/x'' (example_poller, new_api)))))
    = [True, True, True, True]"
  by code_simp


text \<open>The controller makes a new poller for each reconcile (\<open>demandSource\<close>), so that its cache is empty and no
  request of it is conditional until a URL comes up twice in one call.\<close>

lemma new_poller_unconditional:
  "header_get (rq_Header (pollRequest E (NewGitHubRESTPoller baseURL token) u)) ''If-None-Match'' = []"
  by (simp add: pollRequest_def NewGitHubRESTPoller_def pollETag_def header_get_def header_set_def update_conv' Let_def)

end
