(* ===== verification/Demand.thy ===== *)
theory Demand
  imports Poller
begin

text \<open>
  What a poll counts. The loops over pages end and deliver all that the pages hold (locale \<open>page_loop\<close>,
  interpreted on both loops of the code), so that \<open>CurrentDemand\<close> returns, and returns the number of
  matching jobs that wait and run.
\<close>

section \<open>Pages\<close>

definition page_of :: "nat \<Rightarrow> 'a list \<Rightarrow> 'a list" where
  "page_of page xs = take perPage (drop (perPage * (page - 1)) xs)"

text \<open>The number of the last page a loop asks for: the first one that is not full.\<close>

definition last_page :: "'a list \<Rightarrow> nat" where
  "last_page xs = Suc (length xs div perPage)"

text \<open>A result that is \<open>v\<close>, or an error that \<open>sure\<close> rules out.\<close>

definition delivers :: "bool \<Rightarrow> 'a \<Rightarrow> error + 'a \<Rightarrow> bool" where
  "delivers sure v r \<longleftrightarrow> (case r of Inl err \<Rightarrow> \<not> sure | Inr w \<Rightarrow> w = v)"

lemma delivers_simps [simp]:
  "delivers sure v (Inl err) \<longleftrightarrow> \<not> sure"
  "delivers sure v (Inr w) \<longleftrightarrow> w = v"
  by (simp_all add: delivers_def)

text \<open>A loop that asks for page after page until one is not full. \<open>sure\<close> says that no request fails.\<close>

locale page_loop =
  fixes loop :: "nat \<Rightarrow> 'a \<Rightarrow> 's \<Rightarrow> ((error + 'a) \<times> 's) option"
    and ask :: "nat \<Rightarrow> 's \<Rightarrow> (error + 'x list) \<times> 's"
    and absorb :: "'x list \<Rightarrow> 'a \<Rightarrow> 'a"
    and every :: "'x list"
    and inv :: "'s \<Rightarrow> bool"
    and sure :: bool
  assumes unfold: "loop page a s =
      (case ask page s of
         (Inl err, s) \<Rightarrow> Some (Inl err, s)
       | (Inr xs, s) \<Rightarrow> if length xs < perPage then Some (Inr (absorb xs a), s) else loop (page + 1) (absorb xs a) s)"
    and answer: "inv s \<Longrightarrow> 1 \<le> page \<Longrightarrow> page \<le> last_page every \<Longrightarrow> ask page s = (r, t) \<Longrightarrow>
      inv t \<and> delivers sure (page_of page every) r"
    and absorb_append: "absorb (xs @ ys) a = absorb ys (absorb xs a)"
begin

lemma from_page:
  assumes "inv s" "1 \<le> page" "page \<le> last_page every"
  shows "\<exists>r t. loop page a s = Some (r, t) \<and> inv t
    \<and> delivers sure (absorb (drop (perPage * (page - 1)) every) a) r"
  using assms
proof (induction "last_page every - page" arbitrary: page a s)
  case step: (0 page a s)
  obtain r t where at: "ask page s = (r, t)" by force
  note an = answer [OF step.prems at]
  have "page = last_page every" using step by simp
  then have short: "perPage * (page - 1) + perPage > length every"
    using dividend_less_times_div [of perPage "length every"] by (simp add: last_page_def perPage_def algebra_simps)
  then have "length (page_of page every) < perPage"
      "page_of page every = drop (perPage * (page - 1)) every"
    by (simp_all add: page_of_def perPage_def)
  then show ?case using an by (auto simp: unfold [of page] at split: sum.splits)
next
  case step: (Suc k page a s)
  obtain r t where at: "ask page s = (r, t)" by force
  note an = answer [OF step.prems at]
  show ?case
  proof (cases r)
    case (Inl err)
    then show ?thesis using an by (auto simp: unfold [of page] at)
  next
    case (Inr xs)
    have "page \<le> length every div perPage" using step.hyps(2) by (simp add: last_page_def)
    then have "perPage * page \<le> length every" by (metis div_times_less_eq_dividend dual_order.trans mult.commute mult_le_mono1)
    then have "perPage * (page - 1) + perPage \<le> length every"
      using step.prems(2) by (cases page) (simp_all add: perPage_def)
    then have full: "\<not> length xs < perPage" using an Inr by (simp add: page_of_def)
    have split: "drop (perPage * (page - 1)) every = xs @ drop (perPage * (page + 1 - 1)) every"
    proof -
      have "perPage * (page + 1 - 1) = perPage + perPage * (page - 1)"
        using step.prems(2) by (cases page) (simp_all add: perPage_def)
      then show ?thesis
        using an Inr append_take_drop_id [of perPage "drop (perPage * (page - 1)) every"] by (simp add: page_of_def)
    qed
    have "k = last_page every - (page + 1)" "inv t" "1 \<le> page + 1" "page + 1 \<le> last_page every"
      using step.hyps(2) an by simp_all
    from step.hyps(1) [OF this, of "absorb xs a"] show ?thesis
      unfolding unfold [of page] at Inr split absorb_append using full by simp
  qed
qed

lemma all_pages:
  assumes "inv s"
  shows "\<exists>r t. loop 1 a s = Some (r, t) \<and> inv t \<and> delivers sure (absorb every a) r"
  using from_page [OF assms, of 1 a, unfolded diff_self_eq_0 mult_0_right drop_0] by (simp add: last_page_def)

end

section \<open>What GitHub holds\<close>

text \<open>The runs by status and the jobs by run, which do not change while they are counted.\<close>

record hosted =
  h_owner :: string
  h_repo :: string
  h_runs :: "string \<Rightarrow> int64 list"
  h_jobs :: "int64 \<Rightarrow> jobResp list"

definition pollStatuses :: "string list" where "pollStatuses = [''queued'', ''in_progress'']"

definition h_all_runs :: "hosted \<Rightarrow> int64 list" where
  "h_all_runs H = concat (map (h_runs H) pollStatuses)"

text \<open>The URL of every page a poll may ask for, with what is on the page.\<close>

definition runs_pages :: "GitHubRESTPoller \<Rightarrow> hosted \<Rightarrow> (string \<times> int64 list) list" where
  "runs_pages p H = concat (map (\<lambda>status. map (\<lambda>page.
     (runsPageURL p (h_owner H) (h_repo H) status page, page_of page (h_runs H status)))
       [1..<Suc (last_page (h_runs H status))]) pollStatuses)"

definition jobs_pages :: "GitHubRESTPoller \<Rightarrow> hosted \<Rightarrow> (string \<times> jobResp list) list" where
  "jobs_pages p H = concat (map (\<lambda>i. map (\<lambda>page.
     (jobsPageURL p (h_owner H) (h_repo H) i page, page_of page (h_jobs H i)))
       [1..<Suc (last_page (h_jobs H i))]) (h_all_runs H))"

definition true_page :: "GitHubRESTPoller \<Rightarrow> hosted \<Rightarrow> string \<Rightarrow> parsed \<Rightarrow> bool" where
  "true_page p H u v \<longleftrightarrow> (case v of
       ParsedRuns r \<Rightarrow> \<forall>(w, ids) \<in> set (runs_pages p H). u = w \<longrightarrow> rr_WorkflowRuns r = ids
     | ParsedJobs r \<Rightarrow> \<forall>(w, js) \<in> set (jobs_pages p H). u = w \<longrightarrow> js_Jobs r = js)"

text \<open>A readable 200 answer that decodes has what the page holds.\<close>

definition truthful :: "poll_env \<Rightarrow> GitHubRESTPoller \<Rightarrow> hosted \<Rightarrow> bool" where
  "truthful E p H \<longleftrightarrow> (\<forall>log req body. readable_ok (out_Do (pe_out E) log req) = Some body \<longrightarrow>
     (\<forall>v. pe_runs E body = Inr v \<longrightarrow> true_page p H (rq_URL req) (ParsedRuns v))
     \<and> (\<forall>v. pe_jobs E body = Inr v \<longrightarrow> true_page p H (rq_URL req) (ParsedJobs v)))"

text \<open>Every page is answered, at the first attempt.\<close>

definition reliable :: "poll_env \<Rightarrow> GitHubRESTPoller \<Rightarrow> hosted \<Rightarrow> bool" where
  "reliable E p H \<longleftrightarrow>
     (\<forall>u \<in> fst ` set (runs_pages p H) \<union> fst ` set (jobs_pages p H). out_NewRequest (pe_out E) u = None)
     \<and> (\<forall>log req. rq_URL req \<in> fst ` set (runs_pages p H) \<longrightarrow>
          (\<exists>body v. readable_ok (out_Do (pe_out E) log req) = Some body \<and> pe_runs E body = Inr v))
     \<and> (\<forall>log req. rq_URL req \<in> fst ` set (jobs_pages p H) \<longrightarrow>
          (\<exists>body v. readable_ok (out_Do (pe_out E) log req) = Some body \<and> pe_jobs E body = Inr v))"

text \<open>\<open>p0\<close> fixes the base of the URLs; the poller's cache changes while it runs.\<close>

definition poll_ok :: "poll_env \<Rightarrow> GitHubRESTPoller \<Rightarrow> hosted \<Rightarrow> poll_state \<Rightarrow> bool" where
  "poll_ok E p0 H st \<longleftrightarrow> truthful E p0 H \<and> p_baseURL (fst st) = p_baseURL p0
     \<and> (\<forall>u e. p_cache (fst st) u = Some e \<longrightarrow> true_page p0 H u (pc_parsed e))"

section \<open>Requests\<close>

lemma doWithRetry_done:
  assumes "doWithRetry E u (p, s) = (r, st)"
  shows "fst st = p \<and> (\<forall>resp body. r = Inr (resp, body) \<longrightarrow>
    (\<exists>log. out_Do (pe_out E) log (pollRequest E p u) = Inr resp) \<and> rp_Body resp = Inr body)"
proof -
  have "fst (p, s) = p" by simp
  with assms [unfolded doWithRetry_def] show ?thesis
  proof (induction rule: retryLoop_induct)
    case (again n s err t)
    then show ?case using pollAttempt_result [of E u n p "snd s" _ "fst t" "snd t"] by (metis prod.collapse)
  next
    case (finish n s r t)
    then show ?case using pollAttempt_result [of E u n p "snd s" "Done r" "fst t" "snd t"] by (metis prod.collapse outcome.inject(1))
  qed simp
qed

lemma doWithRetry_first:
  assumes "out_NewRequest (pe_out E) u = None"
    and "readable_ok (out_Do (pe_out E) (api_log s) (pollRequest E p u)) = Some body"
  shows "\<exists>resp t. doWithRetry E u (p, s) = (Inr (resp, body), p, t) \<and> rp_StatusCode resp = 200"
proof -
  obtain resp where "out_Do (pe_out E) (api_log s) (pollRequest E p u) = Inr resp" "rp_StatusCode resp = 200" "rp_Body resp = Inr body"
    using assms(2) by (auto simp: readable_ok_def split: sum.splits if_splits)
  then show ?thesis
    using assms(1) by (simp add: doWithRetry_def retryLoop.simps pollAttempt_def client_Do_def Let_def)
qed

lemma get_true:
  assumes run: "get E decode wrap unwrap u st = (r, t)" and ok: "poll_ok E p0 H st"
    and law: "\<And>log req body v. readable_ok (out_Do (pe_out E) log req) = Some body \<Longrightarrow> decode body = Inr v \<Longrightarrow>
      true_page p0 H (rq_URL req) (wrap v)"
    and tag: "\<And>w v. unwrap w = Some v \<Longrightarrow> w = wrap v"
  shows "poll_ok E p0 H t \<and> (\<forall>v. r = Inr v \<longrightarrow> true_page p0 H u (wrap v))"
proof -
  obtain p s where st: "st = (p, s)" by (rule prod.exhaust)
  obtain w st' where at: "doWithRetry E u (p, s) = (w, st')" by (rule prod.exhaust)
  note d = doWithRetry_done [OF at]
  have url: "rq_URL (pollRequest E p u) = u" by (simp add: pollRequest_def Let_def)
  obtain s' where st': "st' = (p, s')" using d by (metis prod.collapse)
  show ?thesis
  proof (cases w)
    case (Inl err)
    then show ?thesis using run at st st' ok by (auto simp: get_def poll_ok_def)
  next
    case (Inr a)
    obtain resp body where a: "a = (resp, body)" by force
    have fresh: "true_page p0 H u (wrap v)" if "rp_StatusCode resp = 200" "decode body = Inr v" for v
    proof -
      obtain log where "out_Do (pe_out E) log (pollRequest E p u) = Inr resp" "rp_Body resp = Inr body"
        using d Inr a by blast
      then have "readable_ok (out_Do (pe_out E) log (pollRequest E p u)) = Some body"
        using that(1) by (simp add: readable_ok_def)
      from law [OF this that(2)] show ?thesis by (simp add: url)
    qed
    have hit: "true_page p0 H u (wrap v)" if "p_cache p u = Some e" "unwrap (pc_parsed e) = Some v" for e v
      using ok that tag by (auto simp: st poll_ok_def)
    show ?thesis
      using run fresh hit ok at Inr a st st'
      by (auto simp: get_def Let_def poll_ok_def split: if_splits sum.splits option.splits)
  qed
qed

lemma get_succeeds:
  assumes "out_NewRequest (pe_out E) u = None"
    and "\<And>log req. rq_URL req = u \<Longrightarrow> \<exists>body v. readable_ok (out_Do (pe_out E) log req) = Some body \<and> decode body = Inr v"
    and "get E decode wrap unwrap u st = (r, t)"
  shows "\<exists>v. r = Inr v"
proof -
  obtain p s where st: "st = (p, s)" by (rule prod.exhaust)
  have "rq_URL (pollRequest E p u) = u" by (simp add: pollRequest_def Let_def)
  from assms(2) [OF this] obtain body v where "readable_ok (out_Do (pe_out E) (api_log s) (pollRequest E p u)) = Some body"
      "decode body = Inr v" by blast
  with doWithRetry_first [OF assms(1) this(1)] assms(3) show ?thesis by (auto simp: st get_def Let_def) (metis)
qed

section \<open>The loops\<close>

lemma runs_pages_mem:
  assumes "1 \<le> page" "page \<le> last_page (h_runs H status)" "status \<in> set pollStatuses"
  shows "(runsPageURL p (h_owner H) (h_repo H) status page, page_of page (h_runs H status)) \<in> set (runs_pages p H)"
  unfolding runs_pages_def set_concat set_map UN_iff
  by (rule bexI [OF _ imageI [OF assms(3)]], unfold set_map, rule image_eqI [of _ _ page]) (use assms(1,2) in auto)

lemma jobs_pages_mem:
  assumes "1 \<le> page" "page \<le> last_page (h_jobs H i)" "i \<in> set (h_all_runs H)"
  shows "(jobsPageURL p (h_owner H) (h_repo H) i page, page_of page (h_jobs H i)) \<in> set (jobs_pages p H)"
  unfolding jobs_pages_def set_concat set_map UN_iff
  by (rule bexI [OF _ imageI [OF assms(3)]], unfold set_map, rule image_eqI [of _ _ page]) (use assms(1,2) in auto)

lemma get_runs:
  assumes ok: "poll_ok E p0 H st" and "status \<in> set pollStatuses" "1 \<le> page" "page \<le> last_page (h_runs H status)"
    and "get E (pe_runs E) ParsedRuns as_runs (runsPageURL (fst st) (h_owner H) (h_repo H) status page) st = (r, t)"
  shows "poll_ok E p0 H t \<and> (case r of Inl err \<Rightarrow> \<not> reliable E p0 H
    | Inr v \<Rightarrow> rr_WorkflowRuns v = page_of page (h_runs H status))"
proof -
  let ?u = "runsPageURL p0 (h_owner H) (h_repo H) status page"
  have "runsPageURL (fst st) (h_owner H) (h_repo H) status page = ?u" using ok by (simp add: poll_ok_def runsPageURL_def)
  note run = assms(5) [unfolded this]
  note mem = runs_pages_mem [OF assms(3,4,2), of p0]
  then have u: "?u \<in> fst ` set (runs_pages p0 H)" by force
  have g: "poll_ok E p0 H t \<and> (\<forall>v. r = Inr v \<longrightarrow> true_page p0 H ?u (ParsedRuns v))"
    by (rule get_true [OF run ok]) (use ok in \<open>auto simp: poll_ok_def truthful_def as_runs_def split: parsed.splits\<close>)
  have "\<exists>v. r = Inr v" if "reliable E p0 H"
    using that u by (intro get_succeeds [OF _ _ run]) (auto simp: reliable_def)
  with g mem show ?thesis by (cases r) (auto simp: true_page_def)
qed

lemma get_jobs:
  assumes ok: "poll_ok E p0 H st" and "i \<in> set (h_all_runs H)" "1 \<le> page" "page \<le> last_page (h_jobs H i)"
    and "get E (pe_jobs E) ParsedJobs as_jobs (jobsPageURL (fst st) (h_owner H) (h_repo H) i page) st = (r, t)"
  shows "poll_ok E p0 H t \<and> (case r of Inl err \<Rightarrow> \<not> reliable E p0 H
    | Inr v \<Rightarrow> js_Jobs v = page_of page (h_jobs H i))"
proof -
  let ?u = "jobsPageURL p0 (h_owner H) (h_repo H) i page"
  have "jobsPageURL (fst st) (h_owner H) (h_repo H) i page = ?u" using ok by (simp add: poll_ok_def jobsPageURL_def)
  note run = assms(5) [unfolded this]
  note mem = jobs_pages_mem [OF assms(3,4,2), of p0]
  then have u: "?u \<in> fst ` set (jobs_pages p0 H)" by force
  have g: "poll_ok E p0 H t \<and> (\<forall>v. r = Inr v \<longrightarrow> true_page p0 H ?u (ParsedJobs v))"
    by (rule get_true [OF run ok]) (use ok in \<open>auto simp: poll_ok_def truthful_def as_jobs_def split: parsed.splits\<close>)
  have "\<exists>v. r = Inr v" if "reliable E p0 H"
    using that u by (intro get_succeeds [OF _ _ run]) (auto simp: reliable_def)
  with g mem show ?thesis by (cases r) (auto simp: true_page_def)
qed

lemma tallyJobs_append: "tallyJobs want (xs @ ys) qr = tallyJobs want ys (tallyJobs want xs qr)"
  by (induction want xs qr rule: tallyJobs.induct) simp_all

interpretation run_pages: page_loop "listRunPages E (h_owner H) (h_repo H) status"
    "\<lambda>page st. map_prod (map_sum id rr_WorkflowRuns) id
       (get E (pe_runs E) ParsedRuns as_runs (runsPageURL (fst st) (h_owner H) (h_repo H) status page) st)"
    "\<lambda>xs ids. ids @ xs" "h_runs H status" "\<lambda>st. poll_ok E p0 H st \<and> status \<in> set pollStatuses" "reliable E p0 H"
  for E H status p0
proof
  fix s t :: poll_state and page and r :: "error + int64 list"
  assume st: "poll_ok E p0 H s \<and> status \<in> set pollStatuses" "1 \<le> page" "page \<le> last_page (h_runs H status)"
    and run: "map_prod (map_sum id rr_WorkflowRuns) id
       (get E (pe_runs E) ParsedRuns as_runs (runsPageURL (fst s) (h_owner H) (h_repo H) status page) s) = (r, t)"
  from run obtain v where "get E (pe_runs E) ParsedRuns as_runs (runsPageURL (fst s) (h_owner H) (h_repo H) status page) s = (v, t)"
      "r = map_sum id rr_WorkflowRuns v" by (auto simp: map_prod_def split: prod.splits)
  with get_runs [OF st(1) [THEN conjunct1] st(1) [THEN conjunct2] st(2,3) this(1)] st(1)
  show "(poll_ok E p0 H t \<and> status \<in> set pollStatuses)
      \<and> delivers (reliable E p0 H) (page_of page (h_runs H status)) r"
    by (cases v) auto
qed (auto simp: listRunPages.simps split: prod.splits sum.splits)


interpretation job_pages: page_loop "countJobPages E (h_owner H) (h_repo H) i want"
    "\<lambda>page st. map_prod (map_sum id js_Jobs) id
       (get E (pe_jobs E) ParsedJobs as_jobs (jobsPageURL (fst st) (h_owner H) (h_repo H) i page) st)"
    "tallyJobs want" "h_jobs H i" "\<lambda>st. poll_ok E p0 H st \<and> i \<in> set (h_all_runs H)" "reliable E p0 H"
  for E H i want p0
proof
  fix s t :: poll_state and page and r :: "error + jobResp list"
  assume st: "poll_ok E p0 H s \<and> i \<in> set (h_all_runs H)" "1 \<le> page" "page \<le> last_page (h_jobs H i)"
    and run: "map_prod (map_sum id js_Jobs) id
       (get E (pe_jobs E) ParsedJobs as_jobs (jobsPageURL (fst s) (h_owner H) (h_repo H) i page) s) = (r, t)"
  from run obtain v where "get E (pe_jobs E) ParsedJobs as_jobs (jobsPageURL (fst s) (h_owner H) (h_repo H) i page) s = (v, t)"
      "r = map_sum id js_Jobs v" by (auto simp: map_prod_def split: prod.splits)
  with get_jobs [OF st(1) [THEN conjunct1] st(1) [THEN conjunct2] st(2,3) this(1)] st(1)
  show "(poll_ok E p0 H t \<and> i \<in> set (h_all_runs H))
      \<and> delivers (reliable E p0 H) (page_of page (h_jobs H i)) r"
    by (cases v) auto
qed (auto simp: countJobPages.simps tallyJobs_append split: prod.splits sum.splits)

section \<open>The counts\<close>

definition jobs_with :: "string \<Rightarrow> string list \<Rightarrow> jobResp list \<Rightarrow> int" where
  "jobs_with status want js = int (length (filter (\<lambda>j. labelsMatch (jb_Labels j) want \<and> jb_Status j = status) js))"

text \<open>The 32-bit counts of the jobs that wait and that run.\<close>

definition tally :: "string list \<Rightarrow> jobResp list \<Rightarrow> int32 \<times> int32" where
  "tally want js = (to_int32 (jobs_with ''queued'' want js), to_int32 (jobs_with ''in_progress'' want js))"

lemma jobs_with_append: "jobs_with status want (xs @ ys) = jobs_with status want xs + jobs_with status want ys"
  by (simp add: jobs_with_def)

lemma tallyJobs_tally: "tallyJobs want js (tally want pre) = tally want (pre @ js)"
proof (induction js arbitrary: pre)
  case (Cons j js)
  have "tallyJobs want (j # js) (tally want pre) = tallyJobs want js (tally want (pre @ [j]))"
    by (auto simp: tally_def jobs_with_def to_int32_add_right add.commute)
  then show ?case using Cons.IH [of "pre @ [j]"] by simp
qed simp

lemma tally_Nil: "tally want [] = (0, 0)"
  by (simp add: tally_def jobs_with_def to_int32_def)

lemma tally_plus:
  "tally want xs = (a, b) \<Longrightarrow> tally want ys = (c, d) \<Longrightarrow> tally want (xs @ ys) = (to_int32 (a + c), to_int32 (b + d))"
  by (auto simp: tally_def jobs_with_append to_int32_add to_int32_add_right)

lemma countRunJobs_ok:
  assumes "poll_ok E p0 H st" "i \<in> set (h_all_runs H)"
  shows "\<exists>r t. countRunJobs E (h_owner H) (h_repo H) i want st = Some (r, t) \<and> poll_ok E p0 H t
    \<and> delivers (reliable E p0 H) (tally want (h_jobs H i)) r"
  using job_pages.all_pages [of E p0 H st i want "(0, 0)"] assms tallyJobs_tally [of want "h_jobs H i" "[]"]
  by (simp add: countRunJobs_def tally_Nil)

lemma countRuns_ok:
  assumes "poll_ok E p0 H st" "set ids \<subseteq> set (h_all_runs H)" "qr = tally want pre"
  shows "\<exists>r t. countRuns E (h_owner H) (h_repo H) want ids qr st = Some (r, t) \<and> poll_ok E p0 H t
    \<and> delivers (reliable E p0 H) (tally want (pre @ concat (map (h_jobs H) ids))) r"
  using assms
proof (induction ids arbitrary: st qr pre)
  case (Cons i ids)
  obtain r t where run: "countRunJobs E (h_owner H) (h_repo H) i want st = Some (r, t)" "poll_ok E p0 H t"
      "delivers (reliable E p0 H) (tally want (h_jobs H i)) r"
    using countRunJobs_ok [of E p0 H st i want] Cons.prems by auto
  obtain a b where qr: "qr = (a, b)" by force
  show ?case
  proof (cases r)
    case (Inr cd)
    then obtain c d where cd: "r = Inr (c, d)" by (cases cd) simp
    have "(to_int32 (a + c), to_int32 (b + d)) = tally want (pre @ h_jobs H i)"
      using tally_plus [of want pre a b "h_jobs H i" c d] Cons.prems(3) qr run(3) cd by simp
    from Cons.IH [OF run(2) _ this] show ?thesis using Cons.prems(2) run(1) by (simp add: qr cd)
  qed (use run qr in auto)
qed auto

lemma countStatuses_ok:
  assumes "poll_ok E p0 H st" "set statuses \<subseteq> set pollStatuses" "qr = tally want pre"
  shows "\<exists>r t. countStatuses E (h_owner H) (h_repo H) want statuses qr st = Some (r, t) \<and> poll_ok E p0 H t
    \<and> delivers (reliable E p0 H) (tally want (pre @ concat (map (h_jobs H) (concat (map (h_runs H) statuses))))) r"
  using assms
proof (induction statuses arbitrary: st qr pre)
  case (Cons status statuses)
  obtain r t where run: "listRunIDs E (h_owner H) (h_repo H) status st = Some (r, t)" "poll_ok E p0 H t"
      "delivers (reliable E p0 H) (h_runs H status) r"
    using run_pages.all_pages [of E p0 H st status "[]"] Cons.prems by (auto simp: listRunIDs_def)
  show ?case
  proof (cases r)
    case (Inr ids)
    have ids: "ids = h_runs H status" "set ids \<subseteq> set (h_all_runs H)"
      using run(3) Inr Cons.prems(2) by (auto simp: h_all_runs_def)
    obtain r' t' where count: "countRuns E (h_owner H) (h_repo H) want ids qr t = Some (r', t')" "poll_ok E p0 H t'"
        "delivers (reliable E p0 H) (tally want (pre @ concat (map (h_jobs H) ids))) r'"
      using countRuns_ok [OF run(2) ids(2) Cons.prems(3)] by blast
    show ?thesis
    proof (cases r')
      case (Inr qr')
      then have "qr' = tally want (pre @ concat (map (h_jobs H) ids))" using count(3) by simp
      from Cons.IH [OF count(2) _ this] show ?thesis
        using Cons.prems(2) run(1) \<open>r = Inr ids\<close> count(1) Inr ids(1) by simp
    qed (use run(1) Inr count in auto)
  qed (use run in auto)
qed auto

text \<open>C8. A poll counts every job. While GitHub's answers and the poller's cache agree with one state of the
  repository, \<open>CurrentDemand\<close> ends after finitely many pages, and its snapshot has the number of matching
  jobs that wait and that run, over all runs of both statuses and all their pages (as 32-bit numbers). It
  fails only if a request does. The cache still agrees afterwards.\<close>

theorem demand_counts_all_jobs:
  assumes "poll_ok E p H (p, s)"
  shows "\<exists>r q t. CurrentDemand E (h_owner H) (h_repo H) want (p, s) = Some (r, q, t) \<and> poll_ok E p H (q, t)
    \<and> delivers (reliable E p H)
        (to_int32 (jobs_with ''queued'' want (concat (map (h_jobs H) (h_all_runs H)))),
         to_int32 (jobs_with ''in_progress'' want (concat (map (h_jobs H) (h_all_runs H))))) r"
  using countStatuses_ok [OF assms, of pollStatuses "(0, 0)" want "[]"]
  unfolding tally_Nil CurrentDemand_def pollStatuses_def [symmetric] h_all_runs_def [symmetric]
  by (auto simp: tally_def)


section \<open>A server\<close>

text \<open>A server whose answer to a URL is the URL, decoded as the page it stands for.\<close>

definition mirror :: "GitHubRESTPoller \<Rightarrow> hosted \<Rightarrow> poll_env" where
  "mirror p H =
     \<lparr>pe_out = \<lparr>out_Do = (\<lambda>log req. answer 200 (rq_URL req) []), out_ctx = (\<lambda>log d. None), out_rand = (\<lambda>log n. 0),
                out_now = (\<lambda>log. 0), out_NewRequest = (\<lambda>u. None)\<rparr>,
      pe_version = ''dev'',
      pe_runs = (\<lambda>body. case map_of (runs_pages p H) body of
         Some ids \<Rightarrow> Inr \<lparr>rr_TotalCount = int (length ids), rr_WorkflowRuns = ids\<rparr> | None \<Rightarrow> Inl (Error False ''json'')),
      pe_jobs = (\<lambda>body. case map_of (jobs_pages p H) body of
         Some js \<Rightarrow> Inr \<lparr>js_TotalCount = int (length js), js_Jobs = js\<rparr> | None \<Rightarrow> Inl (Error False ''json''))\<rparr>"

lemma mirror_truthful:
  assumes "distinct (map fst (runs_pages p H))" "distinct (map fst (jobs_pages p H))" "p_cache p = Map.empty"
  shows "poll_ok (mirror p H) p H (p, s) \<and> reliable (mirror p H) p H"
proof -
  have "truthful (mirror p H) p H"
    using assms(1,2)
    by (auto simp: truthful_def mirror_def answer_def readable_ok_def true_page_def split: option.splits dest: eq_key_imp_eq_value)
  moreover have "reliable (mirror p H) p H"
    using assms(1,2) by (auto simp: reliable_def mirror_def answer_def readable_ok_def)
  ultimately show ?thesis using assms(3) by (simp add: poll_ok_def)
qed

definition job_on :: "string \<Rightarrow> string \<Rightarrow> jobResp" where
  "job_on label status = \<lparr>jb_Status = status, jb_Labels = [''self-hosted'', label]\<rparr>"

definition busy_repo :: hosted where
  "busy_repo = \<lparr>h_owner = ''acme'', h_repo = ''app'',
     h_runs = (\<lambda>status. if status = ''queued'' then [5] else [7]),
     h_jobs = (\<lambda>i. if i = 5 then replicate 100 (job_on ''linux'' ''queued'') @ [job_on ''linux'' ''in_progress'']
                   else [job_on ''linux'' ''in_progress'', job_on ''windows'' ''queued'', job_on ''linux'' ''completed''])\<rparr>"

theorem demand_counts_all_jobs_witness:
  "\<exists>st. CurrentDemand (mirror example_poller busy_repo) ''acme'' ''app'' [''linux''] (example_poller, new_api)
      = Some (Inr (100, 2), st)"
proof -
  have "distinct (map fst (runs_pages example_poller busy_repo)) \<and> distinct (map fst (jobs_pages example_poller busy_repo))"
    by code_simp
  then have ok: "poll_ok (mirror example_poller busy_repo) example_poller busy_repo (example_poller, new_api)"
      "reliable (mirror example_poller busy_repo) example_poller busy_repo"
    using mirror_truthful [of example_poller busy_repo new_api] by (simp_all add: example_poller_def NewGitHubRESTPoller_def)
  have "h_owner busy_repo = ''acme'' \<and> h_repo busy_repo = ''app''
      \<and> to_int32 (jobs_with ''queued'' [''linux''] (concat (map (h_jobs busy_repo) (h_all_runs busy_repo)))) = 100
      \<and> to_int32 (jobs_with ''in_progress'' [''linux''] (concat (map (h_jobs busy_repo) (h_all_runs busy_repo)))) = 2"
    by code_simp
  with demand_counts_all_jobs [OF ok(1), of "[''linux'']"] ok(2)
  obtain r q t where "CurrentDemand (mirror example_poller busy_repo) ''acme'' ''app'' [''linux''] (example_poller, new_api) = Some (r, q, t)"
      "delivers True (100, 2) r" by (auto simp only: simp_thms)
  then show ?thesis by (cases r) auto
qed

end
