(* ===== verification/Availability.thy ===== *)
theory Availability
  imports Sampler Demand
begin

text \<open>
  The clients of GitHub while it answers every request (\<open>up\<close>): the fetcher returns the file, the walk reports
  no error, and the predictor returns the jobs of all active runs. The locale \<open>reliable_source\<close> adds to a
  source of workflow files that it does not fail. Also what the predictor and the sampler leave intact
  in the state they share, whatever GitHub answers.
\<close>

section \<open>Files\<close>

definition up :: "outside \<Rightarrow> bool" where
  "up out \<longleftrightarrow> (\<forall>u. out_NewRequest out u = None) \<and> (\<forall>log req. readable_ok (out_Do out log req) \<noteq> None)"

lemma up_answer:
  assumes "up out"
  obtains resp body where "out_Do out log req = Inr resp" "rp_StatusCode resp = 200" "rp_Body resp = Inr body"
proof -
  have "readable_ok (out_Do out log req) \<noteq> None" using assms by (simp add: up_def)
  then show thesis using that by (auto simp: readable_ok_def split: sum.splits if_splits)
qed

lemma up_reachable: "up out \<Longrightarrow> reachable out u"
  by (simp add: up_def reachable_def)

lemma Fetch_up:
  assumes "up out"
  shows "\<exists>body. fst (Fetch out f s owner repo path ref token) = Inr body"
proof -
  define a where "a = \<lparr>fa_key = cacheKey owner repo path ref, fa_url = contentsURL f owner repo path ref,
    fa_token = trim_space token, fa_file = owner @ ''/'' @ repo @ '' '' @ path @ ''@'' @ ref\<rparr>"
  obtain resp body where "out_Do out (api_log s) (fetchRequest f (fa_key a) (fa_url a) (fa_token a)) = Inr resp"
      "rp_StatusCode resp = 200" "rp_Body resp = Inr body"
    using up_answer [OF assms] by blast
  moreover have "out_NewRequest out (fa_url a) = None" using assms by (simp add: up_def)
  ultimately have "\<exists>t. fetchAttempt out a 0 (f, s) = (Done (Inr body), t)"
    by (simp add: fetchAttempt_def finishAttempt_def client_Do_def Let_def)
  then show ?thesis unfolding Fetch_def Let_def a_def [symmetric] using retryLoop_done [of 0 maxFetchRetries "fetchAttempt out a"] by auto
qed

locale reliable_source = workflow_source fetch usable contents
  for fetch :: "'f \<Rightarrow> api \<Rightarrow> string \<Rightarrow> string \<Rightarrow> string \<Rightarrow> string \<Rightarrow> string \<Rightarrow> (error + string) \<times> 'f \<times> api"
    and usable :: "'f \<Rightarrow> bool"
    and contents :: "string \<Rightarrow> string \<Rightarrow> string \<Rightarrow> string \<Rightarrow> string" +
  fixes sure :: bool
  assumes fetch_sure: "sure \<Longrightarrow> usable f \<Longrightarrow> \<exists>body. fst (fetch f s owner repo path ref token) = Inr body"

interpretation up_fetcher: reliable_source "Fetch out" "fetcher_usable out content"
    "\<lambda>owner repo path ref. content (cacheKey owner repo path ref)" "up out" for out content
  by unfold_locales (rule Fetch_up)

section \<open>The walk\<close>

text \<open>Hook calls between two states, none of which reports a file that failed to load.\<close>

definition clean :: "'f graph \<Rightarrow> 'f graph \<Rightarrow> bool" where
  "clean g g' \<longleftrightarrow> (\<exists>new. gr_hooks g' = gr_hooks g @ new \<and> OnYAMLFetch ''error'' \<notin> set new)"

lemma clean_refl: "gr_hooks g' = gr_hooks g \<Longrightarrow> clean g g'"
  by (simp add: clean_def)

lemma clean_trans: "clean g g' \<Longrightarrow> clean g' g'' \<Longrightarrow> clean g g''"
  unfolding clean_def by fastforce

lemma clean_emit: "h \<noteq> OnYAMLFetch ''error'' \<Longrightarrow> clean (emit h g) g' \<Longrightarrow> clean g g'"
  by (auto simp: clean_def)

text \<open>A property of the counts and the state that skipping, counting and loading a file keep is kept by the
  whole walk.\<close>

lemma walk_step:
  obtains (skip) "walkWorkflow E a (p # w) v d dst g = walkWorkflow E a w v d dst g"
  | (hook) reason where "walkWorkflow E a (p # w) v d dst g = walkWorkflow E a w v d dst (emit (OnDynamicSkipped reason) g)"
  | (call) path where "walkWorkflow E a (p # w) v d dst g =
      (case recurseLocal E a path v d dst g of (dst, g) \<Rightarrow> walkWorkflow E a w v d dst g)"
  | (count) key n where "walkWorkflow E a (p # w) v d dst g = walkWorkflow E a w v d (map_incr key n dst) g"
proof -
  obtain jid job where p: "p = (jid, job)" by force
  have "walkWorkflow E a (p # w) v d dst g = walkWorkflow E a w v d dst g
      \<or> (\<exists>reason. walkWorkflow E a (p # w) v d dst g = walkWorkflow E a w v d dst (emit (OnDynamicSkipped reason) g))
      \<or> (\<exists>path. walkWorkflow E a (p # w) v d dst g =
          (case recurseLocal E a path v d dst g of (dst, g) \<Rightarrow> walkWorkflow E a w v d dst g))
      \<or> (\<exists>key n. walkWorkflow E a (p # w) v d dst g = walkWorkflow E a w v d (map_incr key n dst) g)"
    unfolding p walkWorkflow.simps(2) Let_def if_distrib [of "\<lambda>x. x = _"] by (simp del: walkWorkflow.simps recurseLocal.simps split: if_split) blast
  then show thesis using that by blast
qed

lemma recurse_invariant:
  assumes skip: "\<And>reason dst g. I dst g \<Longrightarrow> I dst (emit (OnDynamicSkipped reason) g)"
    and load: "\<And>path dst g r g'. I dst g \<Longrightarrow> loadFile E a path g = (r, g') \<Longrightarrow>
      I dst (emit (OnYAMLFetch (case r of Inl _ \<Rightarrow> ''error'' | Inr _ \<Rightarrow> ''fetched'')) g')"
    and deeper: "\<And>w v g. d < maxReusableDepth \<Longrightarrow> I dst g \<Longrightarrow> walkWorkflow E a w v (d + 1) dst g = (dst', g') \<Longrightarrow> I dst' g'"
    and I: "I dst g" and run: "recurseLocal E a path v d dst g = (dst', g')"
  shows "I dst' g'"
proof (cases "d + 1 > maxReusableDepth \<or> List.member v (visitKey a (trim_prefix path ''./''))")
  case True
  then show ?thesis using run skip [OF I] by (auto simp: Let_def split: if_splits)
next
  case False
  let ?path = "trim_prefix path ''./''"
  obtain r g1 where l: "loadFile E a ?path g = (r, g1)" by force
  note I1 = load [OF I l]
  show ?thesis
  proof (cases "case r of Inl _ \<Rightarrow> None | Inr body \<Rightarrow> (case Parse (ge_actionlint E) body of Inl _ \<Rightarrow> None | Inr w' \<Rightarrow> Some w')")
    case None
    then show ?thesis using run False l I1 by (auto simp: Let_def split: sum.splits)
  next
    case (Some w')
    then have "walkWorkflow E a w' (visitKey a ?path # v) (d + 1) dst (emit (OnYAMLFetch ''fetched'') g1) = (dst', g')"
        "I dst (emit (OnYAMLFetch ''fetched'') g1)"
      using run False l I1 by (auto simp: Let_def split: sum.splits)
    then show ?thesis using deeper False by simp
  qed
qed

lemma walk_invariant:
  assumes skip: "\<And>reason dst g. I dst g \<Longrightarrow> I dst (emit (OnDynamicSkipped reason) g)"
    and count: "\<And>key n dst g. I dst g \<Longrightarrow> I (map_incr key n dst) g"
    and load: "\<And>path dst g r g'. I dst g \<Longrightarrow> loadFile E a path g = (r, g') \<Longrightarrow>
      I dst (emit (OnYAMLFetch (case r of Inl _ \<Rightarrow> ''error'' | Inr _ \<Rightarrow> ''fetched'')) g')"
  shows "I dst g \<Longrightarrow> walkWorkflow E a w v d dst g = (dst', g') \<Longrightarrow> I dst' g'"
proof (induction "maxReusableDepth - d" arbitrary: d w v dst g dst' g' rule: less_induct)
  case less
  have recurse: "I dst' g'" if "I dst g" "recurseLocal E a path v d dst g = (dst', g')" for path dst g dst' g'
    by (rule recurse_invariant [where I = I, OF skip load less.hyps that]) simp_all
  show ?case
    using less.prems
  proof (induction w arbitrary: dst g)
    case (Cons p w)
    show ?case
    proof (cases rule: walk_step [of E a p w v d dst g])
      case (call path)
      obtain dst1 g1 where r: "recurseLocal E a path v d dst g = (dst1, g1)" by force
      then show ?thesis using Cons.IH [OF recurse [OF Cons.prems(1) r]] Cons.prems(2) call by simp
    next
      case skip
      then show ?thesis using Cons.IH [OF Cons.prems(1)] Cons.prems(2) by simp
    next
      case (hook reason)
      then show ?thesis using Cons.IH [OF assms(1) [OF Cons.prems(1)]] Cons.prems(2) by metis
    next
      case (count key n)
      then show ?thesis using Cons.IH [OF assms(2) [OF Cons.prems(1)]] Cons.prems(2) by metis
    qed
  qed simp
qed

text \<open>The walk keeps the keys of the counts distinct.\<close>

lemma walk_keys: "distinct (keys dst) \<Longrightarrow> walkWorkflow E a w v d dst g = (dst', g') \<Longrightarrow> distinct (keys dst')"
  by (rule walk_invariant [where I = "\<lambda>dst g. distinct (keys dst)"]) simp_all

lemma contributeRun_keys:
  "distinct (keys dst) \<Longrightarrow> Predictor.contributeRun E cfg owner repo rn token dst g = (dst', g') \<Longrightarrow> distinct (keys dst')"
  by (auto simp: Predictor.contributeRun_def Let_def split: prod.splits sum.splits dest: walk_keys)

lemma contributeRuns_keys:
  "distinct (keys dst) \<Longrightarrow> contributeRuns E cfg owner repo runs token dst g = (dst', g') \<Longrightarrow> distinct (keys dst')"
  by (induction runs arbitrary: dst g) (auto simp: Let_def split: prod.splits dest: contributeRun_keys)

lemma Predict_keys: "Predict E cfg owner repo token g = (Inr m, g') \<Longrightarrow> distinct (keys m)"
  by (auto simp: Predict_def split: prod.splits sum.splits if_splits dest: contributeRuns_keys [rotated])

context reliable_source
begin

lemma loadFile_sure:
  assumes "sure" "ge_fetch E = fetch" "usable (gr_fetcher g)" "loadFile E a path g = (r, g')"
  shows "\<exists>body. r = Inr body"
proof -
  have "r = fst (fetch (gr_fetcher g) (gr_api g) (wa_owner a) (wa_repo a) path (wa_headSHA a) (wa_token a))"
    using assms(2,4) by (auto simp: loadFile_def Let_def split: prod.splits)
  then show ?thesis using fetch_sure [OF assms(1,3)] by simp
qed

lemma load_clean:
  assumes "sure" "ge_fetch E = fetch" "usable (gr_fetcher g)" "clean g0 g" "loadFile E a path g = (r, g')"
  shows "usable (gr_fetcher g') \<and> clean g0 (emit (OnYAMLFetch (case r of Inl _ \<Rightarrow> ''error'' | Inr _ \<Rightarrow> ''fetched'')) g')"
  using loadFile_sure [OF assms(1-3,5)] loadFile_contents(1) [OF assms(2,3,5)] loadFile_frame [OF assms(5)] assms(4)
  by (auto simp: clean_def)

lemma walk_clean:
  assumes "sure" "ge_fetch E = fetch" "usable (gr_fetcher g)" "clean g0 g" "walkWorkflow E a w v d dst g = (dst', g')"
  shows "usable (gr_fetcher g') \<and> clean g0 g'"
proof (rule walk_invariant [where I = "\<lambda>dst g. usable (gr_fetcher g) \<and> clean g0 g", OF _ _ _ _ assms(5)], goal_cases)
  case (3 path dst g r g')
  then have "usable (gr_fetcher g)" "clean g0 g" by simp_all
  from load_clean [OF assms(1,2) this 3(2)] show ?case by simp
qed (use assms(3,4) in \<open>auto simp: clean_def\<close>)

lemma contributeRun_clean:
  assumes "sure" "ge_fetch E = fetch" "usable (gr_fetcher g)" "clean g0 g"
    "Predictor.contributeRun E cfg owner repo rn token dst g = (dst', g')"
  shows "usable (gr_fetcher g') \<and> clean g0 g'"
proof -
  obtain r1 g1 where j: "listJobs E cfg owner repo (run_ID rn) token g = (r1, g1)" by force
  have g1: "usable (gr_fetcher g1)" "clean g0 g1"
    using j assms(3,4) by (auto simp: listJobs_def clean_def split: prod.splits sum.splits dest!: cachedGet_frame)
  show ?thesis
  proof (cases r1)
    case (Inl err)
    then show ?thesis using assms(5) j g1 by (simp add: Predictor.contributeRun_def)
  next
    case (Inr mat)
    define a where "a = \<lparr>wa_owner = owner, wa_repo = repo, wa_headSHA = run_HeadSHA rn, wa_token = token, wa_materialized = mat\<rparr>"
    obtain r2 g2 where l: "loadFile E a (run_Path rn) g1 = (r2, g2)" by force
    obtain body where body: "r2 = Inr body" using loadFile_sure [OF assms(1,2) g1(1) l] by blast
    note g2 = load_clean [OF assms(1,2) g1 l]
    note run = assms(5) [unfolded Predictor.contributeRun_def j Inr, simplified, unfolded Let_def, folded a_def, unfolded l body, simplified]
    show ?thesis
    proof (cases "Parse (ge_actionlint E) body")
      case bad: (Inl err)
      then show ?thesis using run g2 body by auto
    next
      case ok: (Inr w)
      then have w: "walkWorkflow E a w [] 0 dst (emit (OnYAMLFetch ''fetched'') g2) = (dst', g')" using run by simp
      show ?thesis using walk_clean [OF assms(1,2) _ _ w, of g0] g2 body by simp
    qed
  qed
qed

lemma contributeRuns_clean:
  assumes "sure" "ge_fetch E = fetch"
  shows "usable (gr_fetcher g) \<Longrightarrow> clean g0 g \<Longrightarrow> contributeRuns E cfg owner repo runs token dst g = (dst', g') \<Longrightarrow>
    usable (gr_fetcher g') \<and> clean g0 g'"
proof (induction runs arbitrary: dst g)
  case (Cons rn runs)
  obtain dst1 g1 where one: "Predictor.contributeRun E cfg owner repo rn token dst g = (dst1, g1)" by force
  show ?case
    using Cons.IH [of g1 dst1] contributeRun_clean [OF assms Cons.prems(1,2) one] Cons.prems(3) one by simp
qed simp

end

section \<open>The prediction\<close>

text \<open>The active runs when the listing of each status is known.\<close>

definition active_runs :: "int \<Rightarrow> (string \<Rightarrow> runRef list) \<Rightarrow> runRef list" where
  "active_runs cap active = take (nat cap) (first_runs {} (concat (map active activeStatuses)))"

lemma listRunsLoop_up:
  assumes "answers (ge_out E) listing" "up (ge_out E)"
    and decodes: "\<And>status body. listing (runsURL cfg owner repo status) body \<Longrightarrow> \<exists>rs. ge_runs E body = Inr rs"
  shows "lists_ok listing g \<Longrightarrow> \<exists>runs g'. listRunsLoop E cfg owner repo token statuses seen acc g = (Inr runs, g')"
proof (induction statuses arbitrary: seen acc g)
  case (Cons status statuses)
  obtain r g1 where get: "cachedGet (ge_out E) (runsURL cfg owner repo status) token g = (r, g1)" by force
  note cg = cachedGet_listing [OF assms(1) Cons.prems get]
  obtain body where body: "r = Inr body" using cg(3) [OF up_reachable [OF assms(2)]] by blast
  then obtain rs where "ge_runs E body = Inr rs" using decodes [OF cg(2)] by blast
  then show ?case using get body Cons.IH [OF cg(1)] by (auto split: sum.split)
qed simp

lemma listActiveRuns_up:
  assumes "answers (ge_out E) listing" "up (ge_out E)" "lists_ok listing g" "0 < g_runsCap cfg"
    and decodes: "\<And>status body. listing (runsURL cfg owner repo status) body \<Longrightarrow> ge_runs E body = Inr (active status)"
  shows "\<exists>g'. listActiveRuns E cfg owner repo token g = (Inr (active_runs (g_runsCap cfg) active), g')"
proof -
  obtain runs g' where run: "listRunsLoop E cfg owner repo token activeStatuses [] [] g = (Inr runs, g')"
    using listRunsLoop_up [OF assms(1,2) _ assms(3)] decodes by blast
  have cap: "int (length []) < g_runsCap cfg" using assms(4) by simp
  obtain lists where l: "list_all2 (runs_listed E listing cfg owner repo) (take (length lists) activeStatuses) lists"
      "runs = take (nat (g_runsCap cfg)) (first_runs {} (concat lists))"
      "length lists = length activeStatuses \<or> int (length runs) = g_runsCap cfg"
    using listRunsLoop_eq [OF assms(1,3) cap run] by (auto simp: loop_result_def)
  have "rs = active status" if "runs_listed E listing cfg owner repo status rs" for status rs
    using that decodes by (auto simp: runs_listed_def)
  with l(1) have lists: "lists = map active (take (length lists) activeStatuses)"
    by (smt (verit) list_all2_conv_all_nth nth_equalityI length_map nth_map)
  have "runs = active_runs (g_runsCap cfg) active"
  proof (cases "length lists = length activeStatuses")
    case True
    then show ?thesis using l(2) lists by (simp add: active_runs_def)
  next
    case False
    then have full: "nat (g_runsCap cfg) \<le> length (first_runs {} (concat lists))" using l(2,3) by auto
    have "concat (map active activeStatuses) = concat lists @ concat (map active (drop (length lists) activeStatuses))"
      by (subst append_take_drop_id [symmetric, of activeStatuses "length lists"]) (metis lists map_append concat_append)
    then show ?thesis using full by (simp add: l(2) active_runs_def first_runs_append)
  qed
  then show ?thesis using run by (auto simp: listActiveRuns_def)
qed

lemma Predict_up:
  assumes ready: "predictor_ready out content listing E g" and jobs: "jobs_listed E listing cfg owner repo jobs"
    and "0 < g_runsCap cfg" "up out"
    and "\<And>status body. listing (runsURL cfg owner repo status) body \<Longrightarrow> ge_runs E body = Inr (active status)"
  obtains m g' where "Predict E cfg owner repo token g = (Inr m, g')" "distinct (keys m)"
    "\<And>k. count_of m k = (\<Sum>rn \<leftarrow> active_runs (g_runsCap cfg) active.
        weigh k (run_chains E (\<lambda>ow re pa rf. content (cacheKey ow re pa rf)) owner repo (jobs (run_ID rn)) rn))"
proof -
  have r: "ge_out E = out" "ge_fetch E = Fetch out" "parser_ok E" "answers (ge_out E) listing"
    "fetcher_usable out content (gr_fetcher g)" "lists_ok listing g"
    using ready by (simp_all add: predictor_ready_def)
  let ?runs = "active_runs (g_runsCap cfg) active"
  obtain g1 where la: "listActiveRuns E cfg owner repo token g = (Inr ?runs, g1)"
    using listActiveRuns_up [of E listing g cfg owner repo active token] r assms(3-5) by auto
  have cap: "int (length []) < g_runsCap cfg" using assms(3) by simp
  note ll = listRunsLoop_eq [OF r(4,6) cap la [unfolded listActiveRuns_def]]
  have u1: "fetcher_usable out content (gr_fetcher g1)" and l1: "lists_ok listing g1" using ll r(5) by simp_all
  obtain m g2 where cr: "contributeRuns E cfg owner repo ?runs token [] g1 = (m, g2)" by force
  have "clean g1 g2" using up_fetcher.contributeRuns_clean [OF assms(4) r(2) u1 clean_refl cr] by simp
  then have "count_of m k = (\<Sum>rn \<leftarrow> ?runs.
      weigh k (run_chains E (\<lambda>ow re pa rf. content (cacheKey ow re pa rf)) owner repo (jobs (run_ID rn)) rn))" for k
    using fetcher.contributeRuns_sums [OF r(2-4) jobs u1 l1 cr] up_reachable [OF assms(4)] r(1)
    by (auto simp: sums_def clean_def)
  moreover have "\<exists>g'. Predict E cfg owner repo token g = (Inr m, g')"
    using la cr by (auto simp: Predict_def)
  ultimately show thesis using that Predict_keys by blast
qed

text \<open>Whatever GitHub answers, the predictor and the sampler leave what they share usable.\<close>

lemma Predict_keeps:
  assumes ready: "predictor_ready out content listing E g" and jobs: "jobs_listed E listing cfg owner repo jobs"
    and "0 < g_runsCap cfg" and run: "Predict E cfg owner repo token g = (r, g')"
  shows "fetcher_usable out content (gr_fetcher g') \<and> lists_ok listing g'"
proof -
  have e: "ge_fetch E = Fetch out" "parser_ok E" "answers (ge_out E) listing"
    "fetcher_usable out content (gr_fetcher g)" "lists_ok listing g"
    using ready by (auto simp: predictor_ready_def)
  obtain r1 g1 where la: "listActiveRuns E cfg owner repo token g = (r1, g1)" by force
  have cap: "int (length []) < g_runsCap cfg" using assms(3) by simp
  note ll = listRunsLoop_eq [OF e(3,5) cap la [unfolded listActiveRuns_def]]
  have u1: "fetcher_usable out content (gr_fetcher g1)" and l1: "lists_ok listing g1" using ll e(4) by simp_all
  show ?thesis
  proof (cases r1)
    case (Inl err)
    then show ?thesis using run la u1 l1 by (simp add: Predict_def)
  next
    case (Inr runs)
    obtain m g2 where cr: "contributeRuns E cfg owner repo runs token [] g1 = (m, g2)" by force
    have "g' = g1 \<or> g' = g2" using run la Inr cr by (auto simp: Predict_def split: if_splits)
    then show ?thesis using fetcher.contributeRuns_sums [OF e(1-3) jobs u1 l1 cr] u1 l1 by auto
  qed
qed

lemma Sample_keeps:
  assumes "se_fetch E = Fetch out" "fetcher_usable out content (sa_fetcher s)"
    "Sample E cfg owner repo token window denylist s = (r, s')"
  shows "fetcher_usable out content (sa_fetcher s')"
proof -
  obtain r1 s1 where fl: "fetchRunsList E cfg owner repo token window s = (r1, s1)" by force
  have "sa_fetcher s1 = sa_fetcher s"
    using fl by (auto simp: fetchRunsList_def client_Do_def Let_def split: option.splits sum.splits if_splits)
  then have u: "fetcher_usable out content (sa_fetcher s1)" using assms(2) by simp
  show ?thesis
  proof (cases r1)
    case (Inr runs)
    obtain dst s2 where sr: "sampleRuns E cfg owner repo token denylist runs 0 [] s1 = (dst, s2)" by force
    then show ?thesis using assms(3) fl Inr fetcher.sample_runs [OF assms(1) u sr] by (simp add: Sample_def)
  qed (use assms(3) fl u in \<open>simp add: Sample_def\<close>)
qed

end
