(* ===== verification/Tunnel.thy ===== *)
theory Tunnel
  imports Receiver
begin

text \<open>
  The tunnel client and its registry (\<open>internal/webhook/tunnel.go\<close>).

  \<^item> \<open>tunnelClient\<close> is the client's state: the connection flag, the reconnect counters of \<open>metrics.go\<close>, the
    state behind the frame handler, and a log of what happened, which the outside may depend on.
  \<^item> \<open>relay\<close> is everything outside: whether the context has ended, what dialling gives, whether the context
    ends a wait, the random source, and the JSON decoder. Nothing is assumed of it but what a property says.
  \<^item> A stream is the bytes it yields and the error it ends with (\<open>None\<close>: end of file). \<open>scanTokens\<close> is what
    \<open>bufio.Scanner\<close> makes of it with the buffer the code sets: lines without their end, and an error at the
    first line that does not fit into 1 MiB.
  \<^item> The loop of \<open>Start\<close> has no bound: it is a partial function, \<open>None\<close> when it does not end.
  \<^item> The registry names clients by numbers, in the order the factory makes them, and keeps which of the
    contexts it made were cancelled. The wait of at most two seconds for the goroutine has no effect on it.
\<close>

section \<open>Frames\<close>

record frame =
  f_Event :: string
  f_Delivery :: string
  f_Signature :: string
  f_TargetID :: string
  f_Body :: string

definition frame_headers :: "frame \<Rightarrow> string \<Rightarrow> string" where
  "frame_headers f =
     (\<lambda>h. if h = ''X-GitHub-Event'' then f_Event f
          else if h = ''X-GitHub-Delivery'' then f_Delivery f
          else if h = ''X-Hub-Signature-256'' then f_Signature f
          else if h = ''X-GitHub-Hook-Installation-Target-ID'' then f_TargetID f else [])"

definition initialBackoff :: duration where "initialBackoff = 500 * 1000000"
definition maxBackoffCap :: duration where "maxBackoffCap = 30 * second"

section \<open>The client\<close>

datatype tunnel_event =
    Dialled bool
  | Scanned string
  | Closed "error option"
  | Waited duration bool

record 'h tunnelClient =
  tc_handler :: 'h
  tc_maxBackoff :: duration
  tc_connected :: bool
  tc_reconnects :: "string \<times> string \<Rightarrow> nat"
  tc_log :: "tunnel_event list"

record sse_stream =
  ss_bytes :: string
  ss_err :: "error option"

record relay =
  rl_cancelled :: "tunnel_event list \<Rightarrow> bool"
  rl_NewRequest :: "string \<Rightarrow> error option"
  rl_Do :: "tunnel_event list \<Rightarrow> string \<Rightarrow> error + int \<times> sse_stream"
  rl_cut :: "tunnel_event list \<Rightarrow> duration \<Rightarrow> bool"
  rl_rand :: "tunnel_event list \<Rightarrow> int \<Rightarrow> int"
  rl_decode :: "string \<Rightarrow> error + frame"

text \<open>\<open>FrameHandler\<close>, on a state of its own.\<close>

type_synonym 'h frame_handler = "'h \<Rightarrow> (string \<Rightarrow> string) \<Rightarrow> string \<Rightarrow> error option \<times> 'h"

definition NewTunnelClient :: "'h \<Rightarrow> 'h tunnelClient" where
  "NewTunnelClient handler =
     \<lparr>tc_handler = handler, tc_maxBackoff = 0, tc_connected = False, tc_reconnects = (\<lambda>_. 0), tc_log = []\<rparr>"

definition Connected :: "'h tunnelClient \<Rightarrow> bool" where
  "Connected c = tc_connected c"

definition setConnected :: "bool \<Rightarrow> 'h tunnelClient \<Rightarrow> 'h tunnelClient" where
  "setConnected v c = c\<lparr>tc_connected := v\<rparr>"

definition tc_cap :: "'h tunnelClient \<Rightarrow> duration" where
  "tc_cap c = (if tc_maxBackoff c > 0 then tc_maxBackoff c else maxBackoffCap)"

definition logged :: "tunnel_event \<Rightarrow> 'h tunnelClient \<Rightarrow> 'h tunnelClient" where
  "logged e c = c\<lparr>tc_log := tc_log c @ [e]\<rparr>"

definition countReconnect :: "string \<Rightarrow> string \<Rightarrow> 'h tunnelClient \<Rightarrow> 'h tunnelClient" where
  "countReconnect name outcome c =
     c\<lparr>tc_reconnects := (tc_reconnects c)((name, outcome) := Suc (tc_reconnects c (name, outcome)))\<rparr>"

definition minDuration :: "duration \<Rightarrow> duration \<Rightarrow> duration" where
  "minDuration a b = (if a < b then a else b)"

definition fullJitter :: "relay \<Rightarrow> tunnel_event list \<Rightarrow> duration \<Rightarrow> duration" where
  "fullJitter rl log d = (if d \<le> 0 then 0 else rl_rand rl log d)"

definition dispatch :: "relay \<Rightarrow> 'h frame_handler \<Rightarrow> string \<Rightarrow> string \<Rightarrow> 'h tunnelClient \<Rightarrow> 'h tunnelClient" where
  "dispatch rl h eventName data c =
     (if eventName = ''ready'' then c
      else case rl_decode rl data of
        Inl err \<Rightarrow> c
      | Inr f \<Rightarrow>
          if f_Event f = [] \<and> f_Delivery f = [] \<and> f_Signature f = [] then c
          else c\<lparr>tc_handler := snd (h (tc_handler c) (frame_headers f) (f_Body f))\<rparr>)"

subsection \<open>The scanner\<close>

definition newline :: char where "newline = CHR 0x0A"

definition drop_cr :: "string \<Rightarrow> string" where
  "drop_cr l = (if l \<noteq> [] \<and> last l = CHR 0x0D then butlast l else l)"

text \<open>The lines of the bytes; a last line without an end counts unless it is empty.\<close>

definition raw_lines :: "string \<Rightarrow> string list" where
  "raw_lines bytes = (let ls = str_split newline bytes in if last ls = [] then butlast ls else ls)"

definition maxLine :: int where "maxLine = 2 ^ 20"

definition scanTokens :: "string \<Rightarrow> string list \<times> bool" where
  "scanTokens bytes =
     (let raw = raw_lines bytes; fits = takeWhile (\<lambda>l. int (length l) < maxLine) raw
      in (map drop_cr fits, length fits < length raw))"

definition ErrTooLong :: error where
  "ErrTooLong = Error False ''bufio.Scanner: token too long''"

text \<open>\<open>strings.Cut\<close> at a byte.\<close>

definition str_cut :: "char \<Rightarrow> string \<Rightarrow> (string \<times> string) option" where
  "str_cut c s = (if c \<in> set s then Some (takeWhile (\<lambda>x. x \<noteq> c) s, tl (dropWhile (\<lambda>x. x \<noteq> c) s)) else None)"

text \<open>The loop of \<open>readSSE\<close>; \<open>final\<close> is \<open>scanner.Err()\<close> after the last line.\<close>

fun readLines ::
  "relay \<Rightarrow> 'h frame_handler \<Rightarrow> error option \<Rightarrow> string list \<Rightarrow> string \<Rightarrow> string \<Rightarrow> 'h tunnelClient \<Rightarrow>
    error option \<times> 'h tunnelClient" where
  "readLines rl h final [] eventName dataBuf c = (final, c)"
| "readLines rl h final (line # lines) eventName dataBuf c0 =
     (let c = logged (Scanned line) c0 in
      if rl_cancelled rl (tc_log c) then (None, c)
      else if line = [] then
        readLines rl h final lines [] [] (if dataBuf \<noteq> [] then dispatch rl h eventName dataBuf c else c)
      else if has_prefix line '':'' then readLines rl h final lines eventName dataBuf c
      else (case str_cut (CHR '':'') line of
          None \<Rightarrow> readLines rl h final lines eventName dataBuf c
        | Some (field, value) \<Rightarrow>
            (let value = trim_prefix value '' '' in
             if field = ''event'' then readLines rl h final lines value dataBuf c
             else if field = ''data'' then
               readLines rl h final lines eventName ((if dataBuf \<noteq> [] then dataBuf @ [newline] else dataBuf) @ value) c
             else readLines rl h final lines eventName dataBuf c)))"

definition readSSE :: "relay \<Rightarrow> 'h frame_handler \<Rightarrow> sse_stream \<Rightarrow> 'h tunnelClient \<Rightarrow> error option \<times> 'h tunnelClient" where
  "readSSE rl h r c =
     (let (lines, tooLong) = scanTokens (ss_bytes r)
      in readLines rl h (if tooLong then Some ErrTooLong else ss_err r) lines [] [] c)"

subsection \<open>Connecting\<close>

definition streamOnce ::
  "relay \<Rightarrow> 'h frame_handler \<Rightarrow> string \<Rightarrow> string \<Rightarrow> 'h tunnelClient \<Rightarrow> error option \<times> 'h tunnelClient" where
  "streamOnce rl h name relayURL c =
     (case rl_NewRequest rl relayURL of
        Some err \<Rightarrow> (Some (wrap_error ''build request'' err), countReconnect name ''failure'' (logged (Dialled False) c))
      | None \<Rightarrow>
          (case rl_Do rl (tc_log c) relayURL of
             Inl err \<Rightarrow> (Some (wrap_error ''http dial'' err), countReconnect name ''failure'' (logged (Dialled False) c))
           | Inr (status, body) \<Rightarrow>
               if status \<noteq> 200 then
                 (Some (Error False (''unexpected status '' @ show_int status)),
                  countReconnect name ''failure'' (logged (Dialled False) c))
               else
                 (let c = countReconnect name ''success'' (logged (Dialled True) c);
                      (err, c) = readSSE rl h body (setConnected True c)
                  in (err, setConnected False c))))"

text \<open>The result of \<open>streamOnce\<close> is logged, so that the waits can be related to it.\<close>

partial_function (option) tunnelLoop ::
  "relay \<Rightarrow> 'h frame_handler \<Rightarrow> string \<Rightarrow> string \<Rightarrow> duration \<Rightarrow> 'h tunnelClient \<Rightarrow> 'h tunnelClient option" where
  "tunnelLoop rl h name relayURL backoff c0 =
     (if rl_cancelled rl (tc_log c0) then Some (setConnected False c0)
      else (let (err, c1) = streamOnce rl h name relayURL c0; c = logged (Closed err) c1 in
            if err \<noteq> None then
              (if rl_cancelled rl (tc_log c) then Some (setConnected False c)
               else (let sleep = fullJitter rl (tc_log c) (minDuration backoff (tc_cap c)) in
                     if rl_cut rl (tc_log c) sleep then Some (setConnected False (logged (Waited sleep True) c))
                     else tunnelLoop rl h name relayURL (minDuration (to_int64 (backoff * 2)) (tc_cap c))
                            (logged (Waited sleep False) c)))
            else tunnelLoop rl h name relayURL initialBackoff c))"

definition Start :: "relay \<Rightarrow> 'h frame_handler \<Rightarrow> string \<Rightarrow> string \<Rightarrow> 'h tunnelClient \<Rightarrow> 'h tunnelClient option" where
  "Start rl h name relayURL c = tunnelLoop rl h name relayURL initialBackoff c"

declare tunnelLoop.simps [code]

section \<open>The registry\<close>

record tunnelEntry =
  te_client :: nat
  te_url :: string

record TunnelRegistry =
  tr_entries :: "string \<rightharpoonup> tunnelEntry"
  tr_started :: "(string \<times> string) list"
  tr_cancelled :: "nat list"

definition NewTunnelRegistry :: TunnelRegistry where
  "NewTunnelRegistry = \<lparr>tr_entries = Map.empty, tr_started = [], tr_cancelled = []\<rparr>"

definition startLocked :: "string \<Rightarrow> string \<Rightarrow> TunnelRegistry \<Rightarrow> nat \<times> TunnelRegistry" where
  "startLocked name relayURL r =
     (let tc = length (tr_started r) in
      (tc, r\<lparr>tr_started := tr_started r @ [(name, relayURL)],
             tr_entries := (tr_entries r)(name \<mapsto> \<lparr>te_client = tc, te_url = relayURL\<rparr>)\<rparr>))"

definition stopLocked :: "string \<Rightarrow> TunnelRegistry \<Rightarrow> TunnelRegistry" where
  "stopLocked name r =
     (case tr_entries r name of
        None \<Rightarrow> r
      | Some entry \<Rightarrow> r\<lparr>tr_cancelled := te_client entry # tr_cancelled r, tr_entries := (tr_entries r)(name := None)\<rparr>)"

definition Ensure :: "string \<Rightarrow> string \<Rightarrow> TunnelRegistry \<Rightarrow> nat \<times> TunnelRegistry" where
  "Ensure name relayURL r =
     (case tr_entries r name of
        Some existing \<Rightarrow>
          if te_url existing = relayURL then (te_client existing, r)
          else startLocked name relayURL (stopLocked name r)
      | None \<Rightarrow> startLocked name relayURL r)"

definition Stop :: "string \<Rightarrow> TunnelRegistry \<Rightarrow> TunnelRegistry" where
  "Stop name r = stopLocked name r"

definition registry_Get :: "string \<Rightarrow> TunnelRegistry \<Rightarrow> nat option" where
  "registry_Get name r = map_option te_client (tr_entries r name)"


section \<open>What the relay sends\<close>

text \<open>A stream of events and keep-alive comments, as the relay writes it.\<close>

datatype sse_item = Ping string | Event string "string list"

definition event_field :: "string \<Rightarrow> string" where "event_field name = ''event: '' @ name"
definition data_field :: "string \<Rightarrow> string" where "data_field l = ''data: '' @ l"

fun item_lines :: "sse_item \<Rightarrow> string list" where
  "item_lines (Ping text) = [CHR '':'' # text]"
| "item_lines (Event name ls) = event_field name # map data_field ls @ [[]]"

definition encode_sse :: "sse_item list \<Rightarrow> string" where
  "encode_sse items = concat (map (\<lambda>l. l @ [newline]) (concat (map item_lines items)))"

text \<open>Text that can be on a line: no line end in it or cut from it, and room for the field name.\<close>

definition line_text :: "string \<Rightarrow> bool" where
  "line_text l \<longleftrightarrow> newline \<notin> set l \<and> (l = [] \<or> last l \<noteq> CHR 0x0D) \<and> int (length l) + 7 < maxLine"

fun item_ok :: "sse_item \<Rightarrow> bool" where
  "item_ok (Ping text) \<longleftrightarrow> line_text text"
| "item_ok (Event name ls) \<longleftrightarrow> line_text name \<and> ls \<noteq> [] \<and> hd ls \<noteq> [] \<and> (\<forall>l \<in> set ls. line_text l)"

text \<open>The frames in it: the data of the events that are not \<open>ready\<close>, as far as it decodes to a webhook.\<close>

definition webhook_frame :: "frame \<Rightarrow> bool" where
  "webhook_frame f \<longleftrightarrow> f_Event f \<noteq> [] \<or> f_Delivery f \<noteq> [] \<or> f_Signature f \<noteq> []"

fun item_frames :: "relay \<Rightarrow> sse_item \<Rightarrow> frame list" where
  "item_frames rl (Ping text) = []"
| "item_frames rl (Event name ls) =
     (if name = ''ready'' then []
      else case rl_decode rl (str_join newline ls) of Inl _ \<Rightarrow> [] | Inr f \<Rightarrow> if webhook_frame f then [f] else [])"

definition deliver :: "'h frame_handler \<Rightarrow> frame \<Rightarrow> 'h \<Rightarrow> 'h" where
  "deliver h f s = snd (h s (frame_headers f) (f_Body f))"

subsection \<open>Lines\<close>

lemma str_split_lines:
  "\<forall>l \<in> set ls. c \<notin> set l \<Longrightarrow> str_split c (concat (map (\<lambda>l. l @ [c]) ls)) = ls @ [[]]"
  by (induction ls) (auto simp: str_split_append)

lemma scanTokens_encode:
  assumes "\<forall>l \<in> set ls. newline \<notin> set l \<and> (l = [] \<or> last l \<noteq> CHR 0x0D) \<and> int (length l) < maxLine"
  shows "scanTokens (concat (map (\<lambda>l. l @ [newline]) ls)) = (ls, False)"
proof -
  have raw: "raw_lines (concat (map (\<lambda>l. l @ [newline]) ls)) = ls"
    using assms by (simp add: raw_lines_def str_split_lines)
  moreover have "takeWhile (\<lambda>l. int (length l) < maxLine) ls = ls" using assms by simp
  moreover have "map drop_cr ls = ls" using assms by (intro map_idI) (auto simp: drop_cr_def)
  ultimately show ?thesis by (simp only: scanTokens_def Let_def raw less_irrefl)
qed

lemma item_lines_ok:
  assumes "item_ok i" "l \<in> set (item_lines i)"
  shows "newline \<notin> set l \<and> (l = [] \<or> last l \<noteq> CHR 0x0D) \<and> int (length l) < maxLine"
  using assms by (cases i) (auto simp: line_text_def newline_def maxLine_def event_field_def data_field_def split: if_splits)

lemma encode_scanned: "\<forall>i \<in> set items. item_ok i \<Longrightarrow> scanTokens (encode_sse items) = (concat (map item_lines items), False)"
  unfolding encode_sse_def by (rule scanTokens_encode) (use item_lines_ok in auto)

subsection \<open>Reading\<close>

text \<open>Reading only extends the log and changes the state behind the handler.\<close>

definition same_client :: "'h tunnelClient \<Rightarrow> 'h tunnelClient \<Rightarrow> bool" where
  "same_client c d \<longleftrightarrow> tc_maxBackoff d = tc_maxBackoff c \<and> tc_connected d = tc_connected c \<and> tc_reconnects d = tc_reconnects c
     \<and> (\<exists>ls. tc_log d = tc_log c @ map Scanned ls)"

lemma same_client_refl: "same_client c c"
  by (simp add: same_client_def)

lemma same_client_trans: "same_client a b \<Longrightarrow> same_client b c \<Longrightarrow> same_client a c"
  by (auto simp: same_client_def simp flip: map_append)

lemma same_client_logged: "same_client c (logged (Scanned l) c)"
  by (auto simp: same_client_def logged_def intro: exI [of _ "[l]"])

lemma same_client_dispatch: "same_client c (dispatch rl h e d c)"
  by (simp add: dispatch_def same_client_def split: sum.split)

lemma readLines_step:
  "\<exists>e' d' c'. same_client c c' \<and> (readLines rl h final (l # ls) e d c = (None, c')
     \<or> readLines rl h final (l # ls) e d c = readLines rl h final ls e' d' c')"
proof -
  obtain c1 where c1: "logged (Scanned l) c = c1" by simp
  have step: "same_client c c1" "same_client c (dispatch rl h e d c1)"
    using same_client_logged [of c l] same_client_dispatch same_client_trans unfolding c1 by blast+
  define Q where "Q t \<longleftrightarrow> (\<exists>e' d' c'. same_client c c' \<and> (t = (None, c') \<or> t = readLines rl h final ls e' d' c'))" for t
  have "Q (None, c1)" "Q (readLines rl h final ls x y c1)" "Q (readLines rl h final ls x y (dispatch rl h e d c1))" for x y
    using step unfolding Q_def by blast+
  then have "Q (readLines rl h final (l # ls) e d c)"
    unfolding readLines.simps Let_def c1 by (simp split: option.split prod.split)
  then show ?thesis unfolding Q_def .
qed

lemma readLines_same: "same_client c (snd (readLines rl h final ls e d c))"
proof (induction ls arbitrary: e d c)
  case (Cons l ls)
  then show ?case using readLines_step [of c rl h final l ls e d] same_client_trans by (metis snd_conv)
qed (simp add: same_client_refl)

lemma readSSE_same: "readSSE rl h r c = (err, d) \<Longrightarrow> same_client c d"
  using readLines_same [of c rl h] by (auto simp: readSSE_def Let_def split: prod.splits) (metis snd_conv)


lemma str_join_first: "str_join c (l # ls) = l @ concat (map (\<lambda>x. c # x) ls)"
  by (induction ls arbitrary: l) auto

lemma data_line:
  "has_prefix (data_field l) '':'' = False" "str_cut (CHR '':'') (data_field l) = Some (''data'', CHR '' '' # l)"
  "trim_prefix (CHR '' '' # l) '' '' = l"
    "data_field l \<noteq> []"
  by (simp_all add: data_field_def has_prefix_def str_cut_def trim_prefix_def)

lemma event_line:
  "has_prefix (event_field l) '':'' = False" "str_cut (CHR '':'') (event_field l) = Some (''event'', CHR '' '' # l)"
    "event_field l \<noteq> []"
  by (simp_all add: event_field_def has_prefix_def str_cut_def)

lemma dispatch_handler:
  "tc_handler (dispatch rl h name data c) = fold (deliver h)
     (if name = ''ready'' then [] else case rl_decode rl data of Inl _ \<Rightarrow> [] | Inr f \<Rightarrow> if webhook_frame f then [f] else [])
     (tc_handler c)"
  by (simp add: dispatch_def webhook_frame_def deliver_def split: sum.split)

lemma logged_handler [simp]: "tc_handler (logged e c) = tc_handler c"
  by (simp add: logged_def)

lemma readLines_data:
  assumes "\<And>log. \<not> rl_cancelled rl log" "d \<noteq> []"
  shows "\<exists>c'. readLines rl h final (map data_field ls @ [] # rest) e d c = readLines rl h final rest [] [] c'
    \<and> tc_handler c' = tc_handler (dispatch rl h e (d @ concat (map (\<lambda>x. newline # x) ls)) c)"
  using assms(2)
proof (induction ls arbitrary: d c)
  case Nil
  then show ?case using assms(1) by (auto simp: dispatch_handler)
next
  case (Cons l ls)
  have "readLines rl h final (map data_field (l # ls) @ [] # rest) e d c
      = readLines rl h final (map data_field ls @ [] # rest) e (d @ newline # l) (logged (Scanned (data_field l)) c)"
    using assms(1) Cons.prems data_line [of l] by (simp add: Let_def)
  then show ?case using Cons.IH [of "d @ newline # l" "logged (Scanned (data_field l)) c"] by (simp add: dispatch_handler)
qed

lemma readLines_item:
  assumes "\<And>log. \<not> rl_cancelled rl log" "item_ok i"
  shows "\<exists>c'. readLines rl h final (item_lines i @ rest) [] [] c = readLines rl h final rest [] [] c'
    \<and> tc_handler c' = fold (deliver h) (item_frames rl i) (tc_handler c)"
proof (cases i)
  case (Ping t)
  then show ?thesis using assms(1) by (auto simp: Let_def has_prefix_def)
next
  case (Event name ls)
  then obtain l ls' where ls: "ls = l # ls'" "l \<noteq> []" using assms(2) by (cases ls) auto
  define c1 where "c1 = logged (Scanned (data_field l)) (logged (Scanned (event_field name)) c)"
  have "readLines rl h final (item_lines i @ rest) [] [] c
      = readLines rl h final (map data_field ls' @ [] # rest) name l c1"
    using assms(1) data_line [of l] event_line [of name] data_line(3) [of name] by (simp add: Event ls c1_def Let_def)
  moreover have "tc_handler (dispatch rl h name (l @ concat (map (\<lambda>x. newline # x) ls')) c1)
      = fold (deliver h) (item_frames rl i) (tc_handler c)"
    by (simp add: Event ls(1) dispatch_handler str_join_first c1_def)
  ultimately show ?thesis
    using readLines_data [OF assms(1) ls(2), of h final ls' rest name c1] by metis
qed

lemma readLines_items:
  assumes "\<And>log. \<not> rl_cancelled rl log" "\<forall>i \<in> set items. item_ok i"
  shows "\<exists>c'. readLines rl h final (concat (map item_lines items)) [] [] c = (final, c')
    \<and> tc_handler c' = fold (deliver h) (concat (map (item_frames rl) items)) (tc_handler c)"
  using assms(2)
proof (induction items arbitrary: c)
  case (Cons i items)
  obtain c1 where c1: "readLines rl h final (item_lines i @ concat (map item_lines items)) [] [] c
        = readLines rl h final (concat (map item_lines items)) [] [] c1"
      "tc_handler c1 = fold (deliver h) (item_frames rl i) (tc_handler c)"
    using readLines_item [OF assms(1), of i] Cons.prems by (metis list.set_intros(1))
  then show ?case using Cons.IH [of c1] Cons.prems by simp
qed simp

section \<open>Reconnecting\<close>

definition dials :: "tunnel_event list \<Rightarrow> nat" where
  "dials es = length (filter (\<lambda>e. e = Dialled True \<or> e = Dialled False) es)"

definition dials_with :: "bool \<Rightarrow> tunnel_event list \<Rightarrow> nat" where
  "dials_with ok es = length (filter (\<lambda>e. e = Dialled ok) es)"

text \<open>A trace in which every stream that ends in error is followed by one wait, shorter than \<open>b\<close> (and the
  cap), or is the last; \<open>b\<close> doubles with each such wait up to the cap, and starts again after a stream that
  ended without error, which is followed by no wait. A wait cut short ends the trace.\<close>

fun paced :: "duration \<Rightarrow> duration \<Rightarrow> tunnel_event list \<Rightarrow> bool" where
  "paced cap b [] = True"
| "paced cap b (Dialled ok # es) = paced cap b es"
| "paced cap b (Scanned l # es) = paced cap b es"
| "paced cap b (Closed None # es) = paced cap initialBackoff es"
| "paced cap b [Closed (Some err)] = True"
| "paced cap b (Closed (Some err) # Waited d short # es) \<longleftrightarrow>
     0 \<le> d \<and> d < min b cap \<and> (if short then es = [] else paced cap (min (2 * b) cap) es)"
| "paced cap b _ = False"

lemma paced_stream: "paced cap b (map Scanned ls @ es) = paced cap b es"
  by (induction ls) simp_all

lemma dials_append [simp]: "dials (xs @ ys) = dials xs + dials ys"
  by (simp add: dials_def)

lemma dials_with_append [simp]: "dials_with ok (xs @ ys) = dials_with ok xs + dials_with ok ys"
  by (simp add: dials_with_def)

lemma dials_simps [simp]:
  "dials [] = 0" "dials (Dialled ok # es) = Suc (dials es)" "dials (map Scanned ls) = 0"
  "dials (Closed e # es) = dials es" "dials (Waited d short # es) = dials es"
  by (cases ok) (auto simp: dials_def)

lemma dials_with_simps [simp]:
  "dials_with ok [] = 0" "dials_with ok (Dialled ok' # es) = (if ok = ok' then 1 else 0) + dials_with ok es"
  "dials_with ok (map Scanned ls) = 0" "dials_with ok (Closed e # es) = dials_with ok es"
  "dials_with ok (Waited d short # es) = dials_with ok es"
  by (auto simp: dials_with_def)

definition outcome_label :: "bool \<Rightarrow> string" where
  "outcome_label ok = (if ok then ''success'' else ''failure'')"

lemma streamOnce_log:
  assumes "streamOnce rl h name url c = (err, c')"
  obtains ok ls where "tc_log c' = tc_log c @ Dialled ok # map Scanned ls" "tc_maxBackoff c' = tc_maxBackoff c"
    "tc_reconnects c' = (tc_reconnects c)((name, outcome_label ok) := Suc (tc_reconnects c (name, outcome_label ok)))"
proof (cases "rl_NewRequest rl url = None \<and> (\<exists>body. rl_Do rl (tc_log c) url = Inr (200, body))")
  case True
  then obtain body c1 where sse: "readSSE rl h body (setConnected True (countReconnect name ''success'' (logged (Dialled True) c))) = (err, c1)"
      "c' = setConnected False c1"
    using assms by (auto simp: streamOnce_def Let_def split: prod.splits)
  from readSSE_same [OF sse(1)] obtain ls where "tc_log c1 = tc_log c @ [Dialled True] @ map Scanned ls"
      "tc_maxBackoff c1 = tc_maxBackoff c"
      "tc_reconnects c1 = (tc_reconnects c)((name, ''success'') := Suc (tc_reconnects c (name, ''success'')))"
    by (auto simp: same_client_def setConnected_def countReconnect_def logged_def)
  then show thesis using that [of True ls] sse(2) by (simp add: setConnected_def outcome_label_def)
next
  case False
  then show thesis
    using assms that [of False "[]"]
    by (auto simp: streamOnce_def countReconnect_def logged_def outcome_label_def split: option.splits sum.splits if_splits)
qed

text \<open>What one run of the loop gives, from client \<open>c\<close> with backoff \<open>b\<close> to \<open>c'\<close>.\<close>

definition paced_run :: "string \<Rightarrow> nat \<Rightarrow> duration \<Rightarrow> 'h tunnelClient \<Rightarrow> 'h tunnelClient \<Rightarrow> bool" where
  "paced_run name n b c c' \<longleftrightarrow> \<not> tc_connected c' \<and> (\<exists>new. tc_log c' = tc_log c @ new \<and> paced (tc_cap c) b new
     \<and> dials new \<le> n
     \<and> (\<forall>ok. tc_reconnects c' (name, outcome_label ok) = tc_reconnects c (name, outcome_label ok) + dials_with ok new))"

definition relay_sane :: "relay \<Rightarrow> 'h tunnelClient \<Rightarrow> bool" where
  "relay_sane rl c \<longleftrightarrow> (\<forall>log n. 0 < n \<longrightarrow> 0 \<le> rl_rand rl log n \<and> rl_rand rl log n < n) \<and> tc_maxBackoff c \<le> 2 ^ 61"

text \<open>From \<open>c\<close> to \<open>c2\<close> one stream was dialled, read and closed, and \<open>w\<close> happened after it.\<close>

definition streamed :: "string \<Rightarrow> error option \<Rightarrow> tunnel_event list \<Rightarrow> 'h tunnelClient \<Rightarrow> 'h tunnelClient \<Rightarrow> bool" where
  "streamed name err w c c2 \<longleftrightarrow> tc_maxBackoff c2 = tc_maxBackoff c \<and> (\<forall>ok. dials_with ok w = 0) \<and> dials w = 0
     \<and> (\<exists>ok ls. tc_log c2 = tc_log c @ Dialled ok # map Scanned ls @ Closed err # w
        \<and> (\<forall>ok'. tc_reconnects c2 (name, outcome_label ok') = tc_reconnects c (name, outcome_label ok') + (if ok' = ok then 1 else 0)))"

lemma streamed_once: "streamOnce rl h name url c = (err, c') \<Longrightarrow> streamed name err [] c (logged (Closed err) c')"
  by (erule streamOnce_log) (auto simp: streamed_def logged_def outcome_label_def)

lemma streamed_waited: "streamed name err [] c c2 \<Longrightarrow> streamed name err [Waited d short] c (logged (Waited d short) c2)"
  by (auto simp: streamed_def logged_def)

lemma streamed_sane: "streamed name err w c c2 \<Longrightarrow> tc_cap c2 = tc_cap c \<and> relay_sane rl c2 = relay_sane rl c"
  by (simp add: streamed_def tc_cap_def relay_sane_def)

lemma streamed_dials: "streamed name err w c c2 \<Longrightarrow> dials (tc_log c2) = Suc (dials (tc_log c))"
  by (auto simp: streamed_def)

lemma paced_run_again:
  assumes "streamed name err w c c2" "dials (tc_log c) < n" "paced_run name (n - dials (tc_log c2)) b' c2 c'"
    and "\<And>es. paced (tc_cap c) b (Closed err # w @ es) = paced (tc_cap c) b' es"
  shows "paced_run name (n - dials (tc_log c)) b c c'"
proof -
  obtain ok ls where st: "tc_log c2 = tc_log c @ Dialled ok # map Scanned ls @ Closed err # w"
      "\<forall>ok'. tc_reconnects c2 (name, outcome_label ok') = tc_reconnects c (name, outcome_label ok') + (if ok' = ok then 1 else 0)"
      and w: "\<forall>ok. dials_with ok w = 0" "dials w = 0"
    using assms(1) by (auto simp: streamed_def)
  obtain new where run: "\<not> tc_connected c'" "tc_log c' = tc_log c2 @ new" "paced (tc_cap c) b' new" "dials new \<le> n - dials (tc_log c2)"
      "\<forall>ok. tc_reconnects c' (name, outcome_label ok) = tc_reconnects c2 (name, outcome_label ok) + dials_with ok new"
    using assms(3) streamed_sane [OF assms(1)] by (auto simp: paced_run_def)
  let ?new = "Dialled ok # map Scanned ls @ Closed err # w @ new"
  have "tc_log c' = tc_log c @ ?new" "paced (tc_cap c) b ?new" "dials ?new \<le> n - dials (tc_log c)"
    using run st w assms(2,4) by (simp_all add: paced_stream)
  moreover have "\<forall>ok'. tc_reconnects c' (name, outcome_label ok') = tc_reconnects c (name, outcome_label ok') + dials_with ok' ?new"
    using run(5) st(2) w by simp
  ultimately show ?thesis using run(1) unfolding paced_run_def by blast
qed

lemma paced_run_stop:
  assumes "streamed name err w c c2" "dials (tc_log c) < n" "paced (tc_cap c) b (Closed err # w)"
  shows "paced_run name (n - dials (tc_log c)) b c (setConnected False c2)"
  using assms by (auto simp: paced_run_def streamed_def paced_stream setConnected_def)

lemma fullJitter_range:
  "relay_sane rl c \<Longrightarrow> 0 < d \<Longrightarrow> 0 \<le> fullJitter rl log d \<and> fullJitter rl log d < d"
  by (simp add: fullJitter_def relay_sane_def)

lemma tunnelLoop_paced:
  assumes ends: "\<forall>log. n \<le> dials log \<longrightarrow> rl_cancelled rl log"
    and "relay_sane rl c" "0 < b" "b \<le> 2 ^ 61"
  shows "\<exists>c'. tunnelLoop rl h name url b c = Some c' \<and> paced_run name (n - dials (tc_log c)) b c c'"
  using assms(2-4)
proof (induction "n - dials (tc_log c)" arbitrary: b c rule: less_induct)
  case less
  show ?case
  proof (cases "rl_cancelled rl (tc_log c)")
    case True
    then show ?thesis by (auto simp: tunnelLoop.simps paced_run_def setConnected_def)
  next
    case False
    then have more: "dials (tc_log c) < n" using ends not_less by blast
    obtain err c1 where once: "streamOnce rl h name url c = (err, c1)" by (rule prod.exhaust)
    define c2 where "c2 = logged (Closed err) c1"
    note st = streamed_once [OF once, folded c2_def]
    have cap: "0 < tc_cap c" "tc_cap c \<le> 2 ^ 61" "tc_cap c2 = tc_cap c"
      using less.prems(1) streamed_sane [OF st] by (auto simp: tc_cap_def relay_sane_def maxBackoffCap_def second_def)
    have rest: "\<exists>c'. tunnelLoop rl h name url b' d = Some c' \<and> paced_run name (n - dials (tc_log c)) b c c'"
      if "streamed name err w c d" "0 < b'" "b' \<le> 2 ^ 61"
        "\<And>es. paced (tc_cap c) b (Closed err # w @ es) = paced (tc_cap c) b' es" for b' d w
      using less.hyps [of d b'] paced_run_again [OF that(1) more _ that(4)] that(2,3) less.prems(1)
        streamed_sane [OF that(1)] streamed_dials [OF that(1)] more by (metis diff_less_mono2 lessI)
    show ?thesis
    proof (cases err)
      case None
      then show ?thesis
        using rest [OF st] False once by (simp add: tunnelLoop.simps [of _ _ _ _ b] c2_def initialBackoff_def)
    next
      case (Some e)
      define sleep where "sleep = fullJitter rl (tc_log c2) (minDuration b (tc_cap c2))"
      have "minDuration b (tc_cap c2) = min b (tc_cap c)" by (simp add: minDuration_def cap(3))
      then have sl: "0 \<le> sleep" "sleep < min b (tc_cap c)"
        using fullJitter_range [OF less.prems(1), of "min b (tc_cap c)"] less.prems(2) cap(1) by (simp_all add: sleep_def)
      have "to_int64 (b * 2) = 2 * b" using less.prems(2,3) by (subst to_int64_id) simp_all
      then have dbl: "minDuration (to_int64 (b * 2)) (tc_cap c2) = min (2 * b) (tc_cap c)" by (simp add: minDuration_def cap(3))
      have loop: "tunnelLoop rl h name url b c =
          (if rl_cancelled rl (tc_log c2) then Some (setConnected False c2)
           else if rl_cut rl (tc_log c2) sleep then Some (setConnected False (logged (Waited sleep True) c2))
           else tunnelLoop rl h name url (min (2 * b) (tc_cap c)) (logged (Waited sleep False) c2))"
        using False once Some dbl by (simp add: tunnelLoop.simps [of _ _ _ _ b] Let_def sleep_def c2_def)
      show ?thesis
        unfolding loop
        using rest [OF streamed_waited [OF st], of "min (2 * b) (tc_cap c)" sleep False] paced_run_stop [OF st more]
          paced_run_stop [OF streamed_waited [OF st] more, of b sleep True] less.prems(2) cap sl Some
        by (simp add: min_def)
    qed
  qed
qed

section \<open>Properties\<close>

text \<open>C23. The tunnel delivers every frame. When the relay sends a stream of events and keep-alives, in the form
  SSE prescribes and with lines of up to 1 MiB, and the context does not end, \<open>readSSE\<close> hands exactly the
  webhook frames of the stream to the handler, in order, each once, the data lines joined as they were
  written; it ends as the stream does, and leaves the connection flag and the counters alone.\<close>

theorem readSSE_delivers_frames:
  assumes "\<And>log. \<not> rl_cancelled rl log" "\<forall>i \<in> set items. item_ok i"
    and "readSSE rl h \<lparr>ss_bytes = encode_sse items, ss_err = err\<rparr> c = (err', c')"
  shows "err' = err \<and> tc_handler c' = fold (deliver h) (concat (map (item_frames rl) items)) (tc_handler c)
    \<and> tc_connected c' = tc_connected c \<and> tc_reconnects c' = tc_reconnects c"
  using readLines_items [OF assms(1,2), of h err c] readSSE_same [OF assms(3)] assms(3)
  by (auto simp: readSSE_def encode_scanned [OF assms(2)] same_client_def)



datatype registry_call = CallEnsure string string | CallStop string

fun run_call :: "registry_call \<Rightarrow> TunnelRegistry \<Rightarrow> TunnelRegistry" where
  "run_call (CallEnsure name url) r = snd (Ensure name url r)"
| "run_call (CallStop name) r = Stop name r"

fun wanted :: "registry_call \<Rightarrow> (string \<rightharpoonup> string) \<Rightarrow> string \<rightharpoonup> string" where
  "wanted (CallEnsure name url) m = m(name \<mapsto> url)"
| "wanted (CallStop name) m = m(name := None)"

text \<open>The clients that run: started, and their context not cancelled.\<close>

definition running :: "TunnelRegistry \<Rightarrow> (nat \<times> string \<times> string) set" where
  "running r = {(i, name, url). i < length (tr_started r) \<and> tr_started r ! i = (name, url) \<and> i \<notin> set (tr_cancelled r)}"

definition registered :: "TunnelRegistry \<Rightarrow> (nat \<times> string \<times> string) set" where
  "registered r = {(te_client e, name, te_url e) | e name. tr_entries r name = Some e}"

definition registry_invar :: "(string \<rightharpoonup> string) \<Rightarrow> TunnelRegistry \<Rightarrow> bool" where
  "registry_invar m r \<longleftrightarrow> (\<forall>name. map_option te_url (tr_entries r name) = m name) \<and> running r = registered r
     \<and> (\<forall>i \<in> set (tr_cancelled r). i < length (tr_started r))"


lemma registered_iff: "(i, name, url) \<in> registered r \<longleftrightarrow> tr_entries r name = Some \<lparr>te_client = i, te_url = url\<rparr>"
  by (auto simp: registered_def)

lemma stopLocked_invar:
  assumes "registry_invar m r"
  shows "registry_invar (m(name := None)) (stopLocked name r)"
proof (cases "tr_entries r name")
  case None
  then have "m name = None" using assms by (metis registry_invar_def option.map_disc_iff)
  then have "m(name := None) = m" by (rule fun_upd_idem)
  then show ?thesis using None assms by (simp add: stopLocked_def)
next
  case (Some e)
  have eq: "running r = registered r" using assms by (simp add: registry_invar_def)
  have own: "(te_client e, name, te_url e) \<in> running r" using Some unfolding eq registered_def by auto
  have "running (stopLocked name r) = {t \<in> running r. fst t \<noteq> te_client e}"
    using Some by (auto simp: running_def stopLocked_def)
  also have "\<dots> = {t \<in> running r. fst (snd t) \<noteq> name}"
  proof -
    have "i = te_client e \<longleftrightarrow> n = name" if "(i, n, u) \<in> running r" for i n u
      using that own Some that [unfolded eq] by (auto simp: running_def registered_def)
    then show ?thesis by auto
  qed
  also have "\<dots> = registered (stopLocked name r)"
    unfolding eq using Some by (auto simp: registered_iff stopLocked_def split: if_splits)
  finally show ?thesis
    using assms own Some by (auto simp: registry_invar_def stopLocked_def running_def)
qed


lemma startLocked_invar:
  assumes "registry_invar m r" "m name = None"
  shows "registry_invar (m(name \<mapsto> url)) (snd (startLocked name url r))"
proof -
  have none: "tr_entries r name = None" using assms by (metis registry_invar_def option.map_disc_iff)
  have "length (tr_started r) \<notin> set (tr_cancelled r)" using assms(1) by (auto simp: registry_invar_def)
  then have "running (snd (startLocked name url r)) = insert (length (tr_started r), name, url) (running r)"
    by (auto simp: running_def startLocked_def Let_def nth_append less_Suc_eq split: if_splits)
  also have "\<dots> = registered (snd (startLocked name url r))"
    using assms(1) none by (auto simp: registry_invar_def registered_iff startLocked_def Let_def split: if_splits)
  finally show ?thesis using assms(1) by (auto simp: registry_invar_def startLocked_def Let_def)
qed

lemma run_call_invar: "registry_invar m r \<Longrightarrow> registry_invar (wanted op m) (run_call op r)"
proof (cases op)
  case (CallEnsure name url)
  assume inv: "registry_invar m r"
  then have "map_option te_url (tr_entries r name) = m name" by (simp add: registry_invar_def)
  then show ?thesis
    using inv startLocked_invar [OF inv, of name url] startLocked_invar [OF stopLocked_invar [OF inv, of name], of name url]
    by (auto simp: CallEnsure Ensure_def fun_upd_idem split: option.splits)
qed (simp add: Stop_def stopLocked_invar)

text \<open>C24. The registry runs what was asked for last. After any sequence of \<open>Ensure\<close> and \<open>Stop\<close>, a tunnel is
  registered for a name exactly when the last call for the name was an \<open>Ensure\<close>, at that call's URL; and
  the tunnels that were started and not cancelled are the registered ones, one for each name.\<close>

theorem registry_runs_last_requested:
  "let r = fold run_call ops NewTunnelRegistry in
     (\<forall>name. map_option te_url (tr_entries r name) = fold wanted ops Map.empty name)
     \<and> running r = {(te_client e, name, te_url e) | e name. tr_entries r name = Some e}"
proof -
  have "registry_invar Map.empty NewTunnelRegistry"
    by (simp add: registry_invar_def NewTunnelRegistry_def running_def registered_def)
  then have "registry_invar (fold wanted ops Map.empty) (fold run_call ops NewTunnelRegistry)"
    by (induction ops rule: rev_induct) (simp_all add: run_call_invar)
  then show ?thesis by (simp add: registry_invar_def registered_def Let_def)
qed


section \<open>A relay\<close>

text \<open>A relay that refuses twice, then serves a stream, and whose context ends after the third dial. Its data
  decodes to a job frame for the body \<open>{}\<close> when it has two lines.\<close>

definition example_items :: "sse_item list" where
  "example_items = [Event ''ready'' [''{}''], Ping ''ping'', Event [] [''{ d1'', '' }''], Event ''push'' [''broken'']]"

definition decode_example :: "string \<Rightarrow> error + frame" where
  "decode_example data =
     (if data = str_join newline [''{ d1'', '' }'']
      then Inr \<lparr>f_Event = ''workflow_job'', f_Delivery = ''d1'', f_Signature = [], f_TargetID = ''42'', f_Body = ''{}''\<rparr>
      else Inl (Error False ''invalid character''))"

definition example_relay :: "nat option \<Rightarrow> relay" where
  "example_relay n =
     \<lparr>rl_cancelled = (\<lambda>log. case n of None \<Rightarrow> False | Some n \<Rightarrow> n \<le> dials log),
      rl_NewRequest = (\<lambda>u. None),
      rl_Do = (\<lambda>log u. if dials log < 2 then Inr (502, \<lparr>ss_bytes = [], ss_err = None\<rparr>)
         else Inr (200, \<lparr>ss_bytes = encode_sse example_items, ss_err = None\<rparr>)),
      rl_cut = (\<lambda>log d. False), rl_rand = (\<lambda>log n. n - 1), rl_decode = decode_example\<rparr>"

text \<open>A handler that keeps the bodies it is given, with their delivery IDs.\<close>

definition keep_frames :: "(string \<times> string) list frame_handler" where
  "keep_frames seen h body = (None, seen @ [(h ''X-GitHub-Delivery'', body)])"

definition example_client :: "(string \<times> string) list tunnelClient" where
  "example_client = NewTunnelClient []"

theorem readSSE_delivers_frames_witness:
  "let (err, c) = readSSE (example_relay None) keep_frames \<lparr>ss_bytes = encode_sse example_items, ss_err = None\<rparr> example_client
   in err = None \<and> tc_handler c = [(''d1'', ''{}'')]"
proof -
  obtain err c where run: "readSSE (example_relay None) keep_frames \<lparr>ss_bytes = encode_sse example_items, ss_err = None\<rparr>
      example_client = (err, c)" by (rule prod.exhaust)
  have "\<not> rl_cancelled (example_relay None) log" for log by (simp add: example_relay_def)
  moreover have "\<forall>i \<in> set example_items. item_ok i"
    by (simp add: example_items_def line_text_def newline_def maxLine_def)
  ultimately have "err = None \<and> tc_handler c = fold (deliver keep_frames) (concat (map (item_frames (example_relay None)) example_items)) []"
    using readSSE_delivers_frames [OF _ _ run] by (simp add: example_client_def NewTunnelClient_def)
  moreover have "fold (deliver keep_frames) (concat (map (item_frames (example_relay None)) example_items)) [] = [(''d1'', ''{}'')]"
    by code_simp
  ultimately show ?thesis by (simp add: run)
qed


text \<open>What this run does: two failures with their waits, then the stream.\<close>

lemma example_run:
  "map_option (\<lambda>c. (filter (\<lambda>e. case e of Waited _ _ \<Rightarrow> True | Dialled _ \<Rightarrow> True | _ \<Rightarrow> False) (tc_log c), Connected c))
     (Start (example_relay (Some 3)) keep_frames ''app'' ''u'' example_client)
   = Some ([Dialled False, Waited 499999999 False, Dialled False, Waited 999999999 False, Dialled True], False)"
  by code_simp

text \<open>A stream that the relay closes ends without an error, and the client dials again at once: with a relay
  that accepts and closes, there is no wait between any two dials.\<close>

lemma closed_stream_redialled_at_once:
  "map_option tc_log (Start ((example_relay (Some 3))\<lparr>rl_Do := \<lambda>log u. Inr (200, \<lparr>ss_bytes = [], ss_err = None\<rparr>)\<rparr>)
     keep_frames ''app'' ''u'' example_client)
   = Some [Dialled True, Closed None, Dialled True, Closed None, Dialled True, Closed None]"
  by code_simp

end
