(* ===== verification/AppController.thy ===== *)
theory AppController
  imports Tunnel Memory_Cluster
begin

text \<open>
  The GitHubApp controller (\<open>internal/controller/githubapp_controller.go\<close>).

  \<^item> \<open>app_state\<close> is the state it shares with the rest of the program: the tunnel registry and the gauge
    \<open>TunnelConnected\<close> of \<open>webhook/metrics.go\<close>.
  \<^item> \<open>app_env\<close> is what it reads besides the cluster: the time, the environment variable \<open>POD_NAMESPACE\<close>, and
    whether a running client reports a connection.
  \<^item> What it relies on in the API server is \<open>app_laws\<close>: a status update that succeeds is what the next read
    returns (time stamps are not looked at), and \<open>SetStatusCondition\<close> leaves one condition of the type.
\<close>

section \<open>The code\<close>

definition GitHubAppConditionReady :: string where "GitHubAppConditionReady = ''Ready''"
definition GitHubAppReasonReconciled :: string where "GitHubAppReasonReconciled = ''Reconciled''"
definition GitHubAppReasonSecretMissing :: string where "GitHubAppReasonSecretMissing = ''SecretMissing''"
definition GitHubAppReasonTunnelURLMissing :: string where "GitHubAppReasonTunnelURLMissing = ''TunnelURLMissing''"

definition defaultPodNamespace :: string where "defaultPodNamespace = ''warmrunners-system''"

definition tunnelURLMissingRequeue :: duration where "tunnelURLMissingRequeue = 60 * second"
definition secretMissingRequeue :: duration where "secretMissingRequeue = 30 * second"
definition steadyStateRequeue :: duration where "steadyStateRequeue = 60 * second"

definition webhookHealthyWindow :: duration where "webhookHealthyWindow = 15 * minute"

record app_state =
  as_Tunnels :: TunnelRegistry
  as_TunnelConnected :: "string \<rightharpoonup> int"

record app_env =
  ae_now :: time
  ae_POD_NAMESPACE :: string
  ae_connected :: "nat \<Rightarrow> bool"

definition podNamespace :: "app_env \<Rightarrow> string" where
  "podNamespace E = (if ae_POD_NAMESPACE E \<noteq> [] then ae_POD_NAMESPACE E else defaultPodNamespace)"

definition checkSecret :: "('w, 'o) kube \<Rightarrow> app_env \<Rightarrow> 'w \<Rightarrow> SecretKeyRef \<Rightarrow> error option" where
  "checkSecret k E w ref =
     (let ns = (if skr_Namespace ref = [] then podNamespace E else skr_Namespace ref)
      in case get_secret k w \<lparr>nn_Name = skr_Name ref, nn_Namespace = ns\<rparr> of Inl e \<Rightarrow> Some e | Inr _ \<Rightarrow> None)"

definition setGitHubAppCondition ::
  "('w, 'o) kube \<Rightarrow> app_env \<Rightarrow> GitHubApp \<Rightarrow> bool \<Rightarrow> string \<Rightarrow> string \<Rightarrow> GitHubApp" where
  "setGitHubAppCondition k E app ok reason msg =
     app\<lparr>gha_Status := (gha_Status app)\<lparr>ast_Conditions :=
        SetStatusCondition k (ae_now E) (ast_Conditions (gha_Status app))
          \<lparr>cond_Type = GitHubAppConditionReady, cond_Status = ok, cond_Reason = reason, cond_Message = msg,
           cond_ObservedGeneration = gha_Generation app, cond_LastTransitionTime = 0\<rparr>\<rparr>\<rparr>"

text \<open>The end of each branch: the status update, and the requeue when it succeeds.\<close>

definition updateStatus :: "('w, 'o) kube \<Rightarrow> 'w \<Rightarrow> GitHubApp \<Rightarrow> duration \<Rightarrow> (Result \<times> error option) \<times> 'w" where
  "updateStatus k w app requeue =
     (case update_app_status k w app of
        (Some err, w) \<Rightarrow> ((\<lparr>res_RequeueAfter = 0\<rparr>, Some err), w)
      | (None, w) \<Rightarrow> ((\<lparr>res_RequeueAfter = requeue\<rparr>, None), w))"

text \<open>The second \<open>switch\<close>: the health of the webhook, and the gauge.\<close>

definition webhookHealth :: "app_env \<Rightarrow> GitHubApp \<Rightarrow> app_state \<Rightarrow> GitHubApp \<times> app_state" where
  "webhookHealth E app s =
     (let mode = ing_Mode (app_Ingress (gha_Spec app)) in
      if mode = IngressModeTunnel then
        (let connected = (case registry_Get (gha_Name app) (as_Tunnels s) of None \<Rightarrow> False | Some tc \<Rightarrow> ae_connected E tc)
         in (app\<lparr>gha_Status := (gha_Status app)\<lparr>ast_WebhookHealthy := connected\<rparr>\<rparr>,
             s\<lparr>as_TunnelConnected := (as_TunnelConnected s)(gha_Name app \<mapsto> (if connected then 1 else 0))\<rparr>))
      else if mode = IngressModeIngress then
        (app\<lparr>gha_Status := (gha_Status app)\<lparr>ast_WebhookHealthy :=
            (case ast_LastDelivery (gha_Status app) of
               None \<Rightarrow> False
             | Some t \<Rightarrow> time_sub (ae_now E) t < webhookHealthyWindow)\<rparr>\<rparr>,
         s\<lparr>as_TunnelConnected := (as_TunnelConnected s)(gha_Name app \<mapsto> 0)\<rparr>)
      else (app, s))"

text \<open>From the check of the secrets on.\<close>

definition reconcileReady ::
  "('w, 'o) kube \<Rightarrow> app_env \<Rightarrow> 'w \<Rightarrow> app_state \<Rightarrow> GitHubApp \<Rightarrow> (Result \<times> error option) \<times> 'w \<times> app_state" where
  "reconcileReady k E w s app =
     (case checkSecret k E w (app_PrivateKeyRef (gha_Spec app)) of
        Some err \<Rightarrow>
          (let (res, w) = updateStatus k w (setGitHubAppCondition k E app False GitHubAppReasonSecretMissing (err_text err))
                            secretMissingRequeue in (res, w, s))
      | None \<Rightarrow>
          (case checkSecret k E w (app_WebhookSecretRef (gha_Spec app)) of
             Some err \<Rightarrow>
               (let (res, w) = updateStatus k w (setGitHubAppCondition k E app False GitHubAppReasonSecretMissing (err_text err))
                                 secretMissingRequeue in (res, w, s))
           | None \<Rightarrow>
               (let (app, s) = webhookHealth E app s;
                    (res, w) = updateStatus k w (setGitHubAppCondition k E app True GitHubAppReasonReconciled []) steadyStateRequeue
                in (res, w, s))))"

definition GitHubApp_Reconcile ::
  "('w, 'o) kube \<Rightarrow> app_env \<Rightarrow> 'w \<Rightarrow> app_state \<Rightarrow> NamespacedName \<Rightarrow> (Result \<times> error option) \<times> 'w \<times> app_state" where
  "GitHubApp_Reconcile k E w s req =
     (case get_app k w req of
        Inl e \<Rightarrow> ((\<lparr>res_RequeueAfter = 0\<rparr>, if err_not_found e then None else Some e), w, s)
      | Inr app \<Rightarrow>
          (let ing = app_Ingress (gha_Spec app) in
           if ing_Mode ing = IngressModeTunnel then
             (case ing_Tunnel ing of
                None \<Rightarrow>
                  (let (res, w) = updateStatus k w (setGitHubAppCondition k E app False GitHubAppReasonTunnelURLMissing
                                    ''spec.ingress.tunnel.relayURL is required in tunnel mode'') tunnelURLMissingRequeue
                   in (res, w, s))
              | Some tun \<Rightarrow>
                  if tun_RelayURL tun = [] then
                    (let (res, w) = updateStatus k w (setGitHubAppCondition k E app False GitHubAppReasonTunnelURLMissing
                                      ''spec.ingress.tunnel.relayURL is required in tunnel mode'') tunnelURLMissingRequeue
                     in (res, w, s))
                  else
                    reconcileReady k E w
                      (s\<lparr>as_Tunnels := snd (Ensure (gha_Name app) (tun_RelayURL tun) (as_Tunnels s))\<rparr>) app)
           else if ing_Mode ing = IngressModeIngress then
             reconcileReady k E w (s\<lparr>as_Tunnels := Stop (gha_Name app) (as_Tunnels s)\<rparr>) app
           else reconcileReady k E w s app))"

section \<open>What it relies on\<close>

text \<open>A condition without its transition time.\<close>

definition timeless :: "Condition \<Rightarrow> Condition" where
  "timeless c = c\<lparr>cond_LastTransitionTime := 0\<rparr>"

definition app_laws :: "('w, 'o) kube \<Rightarrow> bool" where
  "app_laws k \<longleftrightarrow>
     (\<forall>w n app. get_app k w n = Inr app \<longrightarrow> n = \<lparr>nn_Name = gha_Name app, nn_Namespace = []\<rparr>)
     \<and> (\<forall>w n app old w'. get_app k w n = Inr old \<longrightarrow> gha_Name app = gha_Name old \<longrightarrow> update_app_status k w app = (None, w') \<longrightarrow>
        (\<exists>st. get_app k w' n = Inr (old\<lparr>gha_Status := st\<rparr>)
          \<and> ast_WebhookHealthy st = ast_WebhookHealthy (gha_Status app)
          \<and> map timeless (ast_Conditions st) = map timeless (ast_Conditions (gha_Status app))))
     \<and> (\<forall>now cs c. distinct (map cond_Type cs) \<longrightarrow>
        filter (\<lambda>x. cond_Type x = cond_Type c) (map timeless (SetStatusCondition k now cs c)) = [timeless c])"


lemma app_lawsD:
  assumes "app_laws k"
  shows "get_app k w n = Inr app \<Longrightarrow> n = \<lparr>nn_Name = gha_Name app, nn_Namespace = []\<rparr>"
    and "get_app k w n = Inr old \<Longrightarrow> gha_Name app = gha_Name old \<Longrightarrow> update_app_status k w app = (None, w') \<Longrightarrow>
      \<exists>st. get_app k w' n = Inr (old\<lparr>gha_Status := st\<rparr>)
        \<and> ast_WebhookHealthy st = ast_WebhookHealthy (gha_Status app)
        \<and> map timeless (ast_Conditions st) = map timeless (ast_Conditions (gha_Status app))"
    and "distinct (map cond_Type cs) \<Longrightarrow>
      filter (\<lambda>x. cond_Type x = cond_Type c) (map timeless (SetStatusCondition k now cs c)) = [timeless c]"
  using assms unfolding app_laws_def by blast+

section \<open>What it does\<close>

text \<open>What the specification asks for.\<close>

definition url_missing :: "GitHubApp \<Rightarrow> bool" where
  "url_missing app \<longleftrightarrow> ing_Mode (app_Ingress (gha_Spec app)) = IngressModeTunnel
     \<and> (case ing_Tunnel (app_Ingress (gha_Spec app)) of None \<Rightarrow> True | Some tun \<Rightarrow> tun_RelayURL tun = [])"

definition secrets_there :: "('w, 'o) kube \<Rightarrow> app_env \<Rightarrow> 'w \<Rightarrow> GitHubApp \<Rightarrow> bool" where
  "secrets_there k E w app \<longleftrightarrow> checkSecret k E w (app_PrivateKeyRef (gha_Spec app)) = None
     \<and> checkSecret k E w (app_WebhookSecretRef (gha_Spec app)) = None"

definition app_tunnels :: "GitHubApp \<Rightarrow> TunnelRegistry \<Rightarrow> TunnelRegistry" where
  "app_tunnels app r =
     (let ing = app_Ingress (gha_Spec app) in
      if ing_Mode ing = IngressModeTunnel \<and> \<not> url_missing app
      then snd (Ensure (gha_Name app) (tun_RelayURL (the (ing_Tunnel ing))) r)
      else if ing_Mode ing = IngressModeIngress then Stop (gha_Name app) r else r)"

lemma reconcileReady_tunnels: "reconcileReady k E w s app = (res, w', s') \<Longrightarrow> as_Tunnels s' = as_Tunnels s"
  by (auto simp: reconcileReady_def Let_def webhookHealth_def split: option.splits prod.splits if_splits)

lemma modes_differ: "IngressModeTunnel \<noteq> IngressModeIngress"
  by (simp add: IngressModeTunnel_def IngressModeIngress_def)

text \<open>The handler in three branches.\<close>

lemma GitHubApp_Reconcile_eq:
  assumes "get_app k w req = Inr app"
  shows "GitHubApp_Reconcile k E w s req =
    (if url_missing app
     then (let (res, w) = updateStatus k w (setGitHubAppCondition k E app False GitHubAppReasonTunnelURLMissing
             ''spec.ingress.tunnel.relayURL is required in tunnel mode'') tunnelURLMissingRequeue in (res, w, s))
     else reconcileReady k E w (s\<lparr>as_Tunnels := app_tunnels app (as_Tunnels s)\<rparr>) app)"
  using assms modes_differ
  by (simp add: GitHubApp_Reconcile_def url_missing_def app_tunnels_def Let_def split: option.splits)

lemma GitHubApp_Reconcile_tunnels:
  assumes "GitHubApp_Reconcile k E w s req = (res, w', s')"
  shows "as_Tunnels s' = (case get_app k w req of Inl _ \<Rightarrow> as_Tunnels s | Inr app \<Rightarrow> app_tunnels app (as_Tunnels s))"
proof (cases "get_app k w req")
  case (Inl e)
  then show ?thesis using assms by (simp add: GitHubApp_Reconcile_def)
next
  case (Inr app)
  show ?thesis
  proof (cases "url_missing app")
    case True
    then have "app_tunnels app (as_Tunnels s) = as_Tunnels s"
      using modes_differ by (auto simp: app_tunnels_def url_missing_def Let_def)
    then show ?thesis using assms Inr True by (auto simp: GitHubApp_Reconcile_eq split: prod.splits)
  next
    case False
    then show ?thesis using assms Inr by (simp add: GitHubApp_Reconcile_eq reconcileReady_tunnels)
  qed
qed


definition ready_conditions :: "GitHubApp \<Rightarrow> Condition list" where
  "ready_conditions app = filter (\<lambda>c. cond_Type c = GitHubAppConditionReady) (map timeless (ast_Conditions (gha_Status app)))"

definition ready_condition :: "GitHubApp \<Rightarrow> bool \<Rightarrow> string \<Rightarrow> string \<Rightarrow> Condition" where
  "ready_condition app ok reason msg =
     \<lparr>cond_Type = GitHubAppConditionReady, cond_Status = ok, cond_Reason = reason, cond_Message = msg,
      cond_ObservedGeneration = gha_Generation app, cond_LastTransitionTime = 0\<rparr>"

lemma updateStatus_stores:
  assumes "app_laws k" "get_app k w req = Inr app" "distinct (map cond_Type (ast_Conditions (gha_Status app)))"
    and same: "app1 = app\<lparr>gha_Status := (gha_Status app)\<lparr>ast_WebhookHealthy := healthy\<rparr>\<rparr>"
    and run: "updateStatus k w (setGitHubAppCondition k E app1 ok reason msg) d = ((res, None), w')"
  shows "res = \<lparr>res_RequeueAfter = d\<rparr> \<and> (\<exists>app'. get_app k w' req = Inr app' \<and> gha_Spec app' = gha_Spec app
    \<and> ready_conditions app' = [ready_condition app ok reason msg] \<and> ast_WebhookHealthy (gha_Status app') = healthy)"
proof -
  let ?app = "setGitHubAppCondition k E app1 ok reason msg"
  have up: "update_app_status k w ?app = (None, w')" "res = \<lparr>res_RequeueAfter = d\<rparr>"
    using run by (auto simp: updateStatus_def split: prod.splits option.splits)
  have "gha_Name ?app = gha_Name app" "ast_WebhookHealthy (gha_Status ?app) = healthy" by (simp_all add: setGitHubAppCondition_def same)
  with app_lawsD(2) [OF assms(1,2) _ up(1)] obtain st where st: "get_app k w' req = Inr (app\<lparr>gha_Status := st\<rparr>)"
      "ast_WebhookHealthy st = healthy" "map timeless (ast_Conditions st) = map timeless (ast_Conditions (gha_Status ?app))"
    by auto
  have "filter (\<lambda>c. cond_Type c = GitHubAppConditionReady) (map timeless (ast_Conditions (gha_Status ?app)))
      = [ready_condition app ok reason msg]"
    using app_lawsD(3) [OF assms(1,3), of "ready_condition app ok reason msg" "ae_now E"]
    by (simp add: setGitHubAppCondition_def same ready_condition_def timeless_def)
  then show ?thesis using st up(2) by (simp add: ready_conditions_def)
qed

text \<open>The health the status shows once the app is ready.\<close>

definition healthy_now :: "app_env \<Rightarrow> GitHubApp \<Rightarrow> TunnelRegistry \<Rightarrow> bool" where
  "healthy_now E app r =
     (let mode = ing_Mode (app_Ingress (gha_Spec app)) in
      if mode = IngressModeTunnel then (case registry_Get (gha_Name app) r of None \<Rightarrow> False | Some tc \<Rightarrow> ae_connected E tc)
      else if mode = IngressModeIngress
      then (case ast_LastDelivery (gha_Status app) of None \<Rightarrow> False | Some t \<Rightarrow> time_sub (ae_now E) t < 15 * minute)
      else ast_WebhookHealthy (gha_Status app))"

lemma webhookHealth_app:
  "webhookHealth E app s = (app1, s1) \<Longrightarrow>
    app1 = app\<lparr>gha_Status := (gha_Status app)\<lparr>ast_WebhookHealthy := healthy_now E app (as_Tunnels s)\<rparr>\<rparr> \<and> as_Tunnels s1 = as_Tunnels s"
  by (auto simp: webhookHealth_def healthy_now_def webhookHealthyWindow_def Let_def split: if_splits option.splits)

text \<open>C25. The status says what is. When \<open>Reconcile\<close> of an app that exists succeeds, the stored app has the same
  specification and exactly one \<open>Ready\<close> condition, for the generation that was read: true if the relay URL is
  given where the mode needs one and both secrets exist, false with the reason otherwise. It is looked at again
  after 60 seconds, or 30 when a secret is missing. The health flag is renewed only when the app is ready: from
  the connection of the registered tunnel, or from the age of the last delivery.\<close>

theorem app_status_reflects_cluster:
  assumes "app_laws k" "get_app k w req = Inr app" "distinct (map cond_Type (ast_Conditions (gha_Status app)))"
    and "GitHubApp_Reconcile k E w s req = ((res, None), w', s')"
  shows "\<exists>app'. get_app k w' req = Inr app' \<and> gha_Spec app' = gha_Spec app
    \<and> (\<exists>msg. ready_conditions app' = [ready_condition app (\<not> url_missing app \<and> secrets_there k E w app)
         (if url_missing app then GitHubAppReasonTunnelURLMissing
          else if secrets_there k E w app then GitHubAppReasonReconciled else GitHubAppReasonSecretMissing) msg])
    \<and> res_RequeueAfter res = (if url_missing app \<or> secrets_there k E w app then 60 * second else 30 * second)
    \<and> ast_WebhookHealthy (gha_Status app') = (if \<not> url_missing app \<and> secrets_there k E w app
         then healthy_now E app (as_Tunnels s') else ast_WebhookHealthy (gha_Status app))"
proof -
  let ?s = "s\<lparr>as_Tunnels := app_tunnels app (as_Tunnels s)\<rparr>"
  note stores = updateStatus_stores [OF assms(1-3)]
  have self: "app = app\<lparr>gha_Status := (gha_Status app)\<lparr>ast_WebhookHealthy := ast_WebhookHealthy (gha_Status app)\<rparr>\<rparr>" by simp
  consider (url) "url_missing app" | (secret) "\<not> url_missing app" "\<not> secrets_there k E w app"
    | (ready) "\<not> url_missing app" "secrets_there k E w app" by blast
  then show ?thesis
  proof cases
    case url
    then obtain msg where "updateStatus k w (setGitHubAppCondition k E app False GitHubAppReasonTunnelURLMissing msg)
        tunnelURLMissingRequeue = ((res, None), w')"
      using assms(2,4) by (auto simp: GitHubApp_Reconcile_eq split: prod.splits)
    from stores [OF self this] url show ?thesis by (auto simp: tunnelURLMissingRequeue_def)
  next
    case secret
    then obtain msg where "updateStatus k w (setGitHubAppCondition k E app False GitHubAppReasonSecretMissing msg)
        secretMissingRequeue = ((res, None), w')"
      using assms(2,4) by (auto simp: GitHubApp_Reconcile_eq reconcileReady_def secrets_there_def split: prod.splits option.splits)
    from stores [OF self this] secret show ?thesis by (auto simp: secretMissingRequeue_def)
  next
    case ready
    obtain app1 s1 where health: "webhookHealth E app ?s = (app1, s1)" by (rule prod.exhaust)
    then have up: "updateStatus k w (setGitHubAppCondition k E app1 True GitHubAppReasonReconciled [])
        steadyStateRequeue = ((res, None), w')" "s' = s1"
      using assms(2,4) ready by (auto simp: GitHubApp_Reconcile_eq reconcileReady_def secrets_there_def split: prod.splits)
    from stores [OF webhookHealth_app [OF health, THEN conjunct1] up(1)] webhookHealth_app [OF health] up(2) ready
    show ?thesis by (auto simp: steadyStateRequeue_def)
  qed
qed

definition tunnel_for :: "error + GitHubApp \<Rightarrow> (string \<rightharpoonup> string) \<Rightarrow> string \<rightharpoonup> string" where
  "tunnel_for a m =
     (case a of
        Inl _ \<Rightarrow> m
      | Inr app \<Rightarrow>
          (let ing = app_Ingress (gha_Spec app) in
           if ing_Mode ing = IngressModeIngress then m(gha_Name app := None)
           else if ing_Mode ing = IngressModeTunnel \<and> \<not> url_missing app
           then m(gha_Name app \<mapsto> tun_RelayURL (the (ing_Tunnel ing))) else m))"

lemma app_tunnels_invar: "registry_invar m r \<Longrightarrow> registry_invar (tunnel_for (Inr app) m) (app_tunnels app r)"
  using run_call_invar [of m r "CallEnsure (gha_Name app) (tun_RelayURL (the (ing_Tunnel (app_Ingress (gha_Spec app)))))"]
    run_call_invar [of m r "CallStop (gha_Name app)"] modes_differ
  by (auto simp: tunnel_for_def app_tunnels_def Let_def)

text \<open>C26. Tunnels follow the specification. Whatever else happens in it, a \<open>Reconcile\<close> leaves exactly one tunnel
  running for an app in tunnel mode with a relay URL, at that URL, and none for an app in ingress mode; the
  tunnels of all other apps, and of an app it cannot read or that lacks its URL, stay as they are.\<close>

theorem app_tunnels_follow_spec:
  assumes "registry_invar m (as_Tunnels s)" "GitHubApp_Reconcile k E w s req = (res, w', s')"
  shows "registry_invar (tunnel_for (get_app k w req) m) (as_Tunnels s')"
proof (cases "get_app k w req")
  case (Inl e)
  then show ?thesis using assms(1) GitHubApp_Reconcile_tunnels [OF assms(2)] by (simp add: tunnel_for_def)
next
  case (Inr app)
  then show ?thesis using app_tunnels_invar [OF assms(1)] GitHubApp_Reconcile_tunnels [OF assms(2)] by simp
qed


section \<open>On the small cluster\<close>

lemma set_condition_only:
  assumes "distinct (map cond_Type cs)"
  shows "filter (\<lambda>x. cond_Type x = cond_Type c) (map timeless (set_condition now cs c)) = [timeless c]"
proof (cases "\<exists>x \<in> set cs. cond_Type x = cond_Type c")
  case True
  have t [simp]: "cond_Type (timeless x) = cond_Type x" "timeless (x\<lparr>cond_LastTransitionTime := v\<rparr>) = timeless x" for x v
    by (simp_all add: timeless_def)
  have "filter (\<lambda>x. cond_Type x = cond_Type c) (map timeless (map (\<lambda>x. if cond_Type x = cond_Type c then c\<lparr>cond_LastTransitionTime := g x\<rparr> else x) cs))
      = map (\<lambda>x. timeless c) (filter (\<lambda>x. cond_Type x = cond_Type c) cs)" for g
    by (induction cs) auto
  moreover obtain xs y ys where cs: "cs = xs @ y # ys" "cond_Type y = cond_Type c"
    using True by (metis split_list)
  have "cond_Type c \<notin> cond_Type ` set xs" "cond_Type c \<notin> cond_Type ` set ys" using assms cs by auto
  then have "\<forall>x \<in> set xs. cond_Type x \<noteq> cond_Type c" "\<forall>x \<in> set ys. cond_Type x \<noteq> cond_Type c" by (metis imageI)+
  then have "filter (\<lambda>x. cond_Type x = cond_Type c) cs = [y]" using cs by (auto simp: filter_empty_conv)
  ultimately show ?thesis using True by (simp add: set_condition_def)
next
  case False
  then show ?thesis by (auto simp: set_condition_def timeless_def filter_empty_conv)
qed

lemma memory_apps: "app_laws memory"
proof -
  have "\<forall>now cs c. distinct (map cond_Type cs) \<longrightarrow>
      filter (\<lambda>x. cond_Type x = cond_Type c) (map timeless (SetStatusCondition memory now cs c)) = [timeless c]"
    using set_condition_only by (simp add: memory_def)
  moreover have "\<forall>w n app. get_app memory w n = Inr app \<longrightarrow> n = \<lparr>nn_Name = gha_Name app, nn_Namespace = []\<rparr>"
    by (auto simp: memory_def mem_get_def split: if_splits option.splits)
  moreover have "\<exists>st. get_app memory w' n = Inr (old\<lparr>gha_Status := st\<rparr>) \<and> ast_WebhookHealthy st = ast_WebhookHealthy (gha_Status app)
        \<and> map timeless (ast_Conditions st) = map timeless (ast_Conditions (gha_Status app))"
    if "get_app memory w n = Inr old" "gha_Name app = gha_Name old" "update_app_status memory w app = (None, w')" for w n app old w'
    using that by (cases n) (auto simp: memory_def mem_get_def update_conv' intro!: exI [of _ "gha_Status app"]
      split: if_splits option.splits)
  ultimately show ?thesis unfolding app_laws_def by blast
qed

definition tunnel_app :: GitHubApp where
  "tunnel_app =
     \<lparr>gha_Name = ''app'', gha_Generation = 3,
      gha_Spec = \<lparr>app_AppID = 42,
        app_PrivateKeyRef = \<lparr>skr_Name = ''s'', skr_Key = ''pem'', skr_Namespace = []\<rparr>,
        app_WebhookSecretRef = \<lparr>skr_Name = ''s'', skr_Key = ''hook'', skr_Namespace = []\<rparr>,
        app_Ingress = \<lparr>ing_Mode = ''tunnel'', ing_Hostname = [], ing_Tunnel = Some \<lparr>tun_RelayURL = ''https://smee.io/x''\<rparr>\<rparr>\<rparr>,
      gha_Status = \<lparr>ast_Installations = [], ast_WebhookHealthy = False, ast_LastDelivery = None, ast_Conditions = []\<rparr>\<rparr>"

definition app_cluster :: cluster where
  "app_cluster =
     \<lparr>cl_objects = [], cl_policies = [],
      cl_secrets = [(\<lparr>nn_Name = ''s'', nn_Namespace = ''warmrunners-system''\<rparr>, [''hook'' \<mapsto> ''hush''])],
      cl_apps = [(\<lparr>nn_Name = ''app'', nn_Namespace = []\<rparr>, tunnel_app)]\<rparr>"

definition app_req :: NamespacedName where "app_req = \<lparr>nn_Name = ''app'', nn_Namespace = []\<rparr>"

definition new_apps :: app_state where
  "new_apps = \<lparr>as_Tunnels = NewTunnelRegistry, as_TunnelConnected = Map.empty\<rparr>"

definition all_connected :: app_env where
  "all_connected = \<lparr>ae_now = 0, ae_POD_NAMESPACE = [], ae_connected = (\<lambda>_. True)\<rparr>"

lemma app_read: "get_app memory app_cluster app_req = Inr tunnel_app"
  by (simp add: memory_def mem_get_def app_cluster_def app_req_def tunnel_app_def)

lemma new_registry_invar: "registry_invar Map.empty NewTunnelRegistry"
  by (simp add: registry_invar_def NewTunnelRegistry_def running_def registered_def)

theorem app_status_reflects_cluster_witness:
  "\<exists>app'. get_app memory (fst (snd (GitHubApp_Reconcile memory all_connected app_cluster new_apps app_req))) app_req = Inr app'
     \<and> ast_WebhookHealthy (gha_Status app') \<and> map cond_Status (ready_conditions app') = [True]"
proof -
  obtain res err w' s' where run: "GitHubApp_Reconcile memory all_connected app_cluster new_apps app_req = ((res, err), w', s')"
    by (metis prod.collapse)
  have "snd (fst (GitHubApp_Reconcile memory all_connected app_cluster new_apps app_req)) = None
      \<and> healthy_now all_connected tunnel_app (as_Tunnels (snd (snd (GitHubApp_Reconcile memory all_connected app_cluster new_apps app_req))))"
    by code_simp
  then have "err = None" "healthy_now all_connected tunnel_app (as_Tunnels s')" by (simp_all add: run)
  moreover have "\<not> url_missing tunnel_app" "secrets_there memory all_connected app_cluster tunnel_app"
    by (simp_all add: url_missing_def secrets_there_def tunnel_app_def checkSecret_def memory_def mem_get_def app_cluster_def
        podNamespace_def defaultPodNamespace_def all_connected_def)
  moreover have "distinct (map cond_Type (ast_Conditions (gha_Status tunnel_app)))" by (simp add: tunnel_app_def)
  ultimately show ?thesis
    using app_status_reflects_cluster [OF memory_apps app_read _ run [unfolded \<open>err = None\<close>]]
    by (auto simp: run ready_condition_def)
qed

theorem app_tunnels_follow_spec_witness:
  "registry_invar [''app'' \<mapsto> ''https://smee.io/x'']
     (as_Tunnels (snd (snd (GitHubApp_Reconcile memory all_connected app_cluster new_apps app_req))))"
proof -
  obtain res w' s' where run: "GitHubApp_Reconcile memory all_connected app_cluster new_apps app_req = (res, w', s')"
    by (rule prod_cases3)
  have "registry_invar Map.empty (as_Tunnels new_apps)" by (simp add: new_apps_def new_registry_invar)
  from app_tunnels_follow_spec [OF this run]
  have "registry_invar (tunnel_for (Inr tunnel_app) Map.empty) (as_Tunnels s')" unfolding app_read .
  moreover have "tunnel_for (Inr tunnel_app) Map.empty = [''app'' \<mapsto> ''https://smee.io/x'']"
    by (simp add: tunnel_for_def tunnel_app_def url_missing_def IngressModeTunnel_def IngressModeIngress_def)
  ultimately show ?thesis unfolding run by simp
qed

text \<open>The third clause of the second property is what the code does: when the app is deleted, its tunnel runs
  on, and deliveries through it are still taken.\<close>

lemma deleted_app_keeps_tunnel:
  "(0, ''app'', ''https://smee.io/x'') \<in> running (as_Tunnels
     (snd (snd (GitHubApp_Reconcile memory all_connected (app_cluster\<lparr>cl_apps := []\<rparr>)
       (snd (snd (GitHubApp_Reconcile memory all_connected app_cluster new_apps app_req))) app_req))))"
proof -
  have "get_app memory (app_cluster\<lparr>cl_apps := []\<rparr>) app_req = Inl not_found"
    by (simp add: memory_def mem_get_def app_req_def)
  then have "snd (snd (GitHubApp_Reconcile memory all_connected (app_cluster\<lparr>cl_apps := []\<rparr>) s app_req)) = s" for s
    by (simp add: GitHubApp_Reconcile_def)
  moreover have "as_Tunnels (snd (snd (GitHubApp_Reconcile memory all_connected app_cluster new_apps app_req)))
      = app_tunnels tunnel_app NewTunnelRegistry"
    using GitHubApp_Reconcile_tunnels [of memory all_connected app_cluster new_apps app_req] app_read
    by (simp add: new_apps_def) (metis prod.collapse)
  ultimately show ?thesis
    by (simp add: app_tunnels_def tunnel_app_def url_missing_def IngressModeTunnel_def Ensure_def startLocked_def
        NewTunnelRegistry_def running_def Let_def)
qed

end
