(* ===== verification/Operator.thy ===== *)
theory Operator
  imports Cooldown Gauges Deliveries Availability AppController
begin

text \<open>
  The process that \<open>cmd/main.go\<close> assembles: one workflow fetcher that the predictor and the activity sampler
  share, one event feed that the webhook receiver writes and the policy controller reads, one replay
  guard behind both ways a delivery comes in, one tunnel registry, and the counters the hooks feed.

  \<^item> \<open>operator_env\<close> is what lies outside: GitHub and the clock, the decoders, the YAML parser, the time zones,
    the pod's namespace. \<open>process\<close> is the state between steps.
  \<^item> \<open>process_Predict\<close>, \<open>process_Sample\<close> and \<open>process_CurrentDemand\<close> are the three calls of a reconcile on the
    shared state. The poller is built anew for every reconcile, as \<open>demandSource\<close> does.
  \<^item> \<open>Process_Reconcile\<close> is \<open>Reconcile\<close> on that state: it makes the calls in the order and under the conditions
    of the code, each on the state the one before left, and hands the answers to \<open>Reconcile\<close>. It is \<open>None\<close>
    when the poll does not end.
  \<^item> \<open>reached\<close> are the states the process can get to, with the events recorded so far: reconciles of both
    controllers, requests to the receiver, frames from tunnels, and anything other actors do to the
    cluster, in any order.
\<close>

section \<open>State\<close>

record operator_env =
  oe_out :: outside
  oe_version :: string
  oe_actionlint :: "string \<Rightarrow> al_workflow option \<times> string list"
  oe_poll_runs :: "string \<Rightarrow> error + runsResp"
  oe_poll_jobs :: "string \<Rightarrow> error + jobsResp"
  oe_graph_runs :: "string \<Rightarrow> error + runRef list"
  oe_graph_jobs :: "string \<Rightarrow> error + jobRef list"
  oe_sample_runs :: "string \<Rightarrow> error + workflowRun list"
  oe_zones :: tzdb
  oe_podNamespace :: string
  oe_json :: webhook_json

record process =
  pr_policy :: rstate
  pr_fetcher :: workflowFetcher
  pr_listCache :: "string \<rightharpoonup> listCacheEntry"
  pr_api :: api
  pr_workflowYAMLFetch :: "string \<Rightarrow> nat"
  pr_activityBotFiltered :: "string \<Rightarrow> nat"
  pr_receiver :: receiver
  pr_apps :: app_state

definition githubBaseURL :: string where "githubBaseURL = ''https://api.github.com''"

definition graph_env_of :: "operator_env \<Rightarrow> workflowFetcher graph_env" where
  "graph_env_of E =
     \<lparr>ge_out = oe_out E, ge_fetch = Fetch (oe_out E), ge_actionlint = oe_actionlint E,
      ge_runs = oe_graph_runs E, ge_jobs = oe_graph_jobs E\<rparr>"

definition sampler_env_of :: "operator_env \<Rightarrow> workflowFetcher sampler_env" where
  "sampler_env_of E =
     \<lparr>se_out = oe_out E, se_fetch = Fetch (oe_out E), se_actionlint = oe_actionlint E,
      se_runs = oe_sample_runs E\<rparr>"

definition poll_env_of :: "operator_env \<Rightarrow> poll_env" where
  "poll_env_of E =
     \<lparr>pe_out = oe_out E, pe_version = oe_version E, pe_runs = oe_poll_runs E, pe_jobs = oe_poll_jobs E\<rparr>"

section \<open>The start\<close>

definition predictorImpl :: WorkflowNeedsGraph where
  "predictorImpl = NewWorkflowNeedsGraph 0"

definition activityImpl :: "operator_env \<Rightarrow> WorkflowRunsSampler" where
  "activityImpl E = NewWorkflowRunsSampler (oe_version E) 0"

text \<open>The receiver with its guard, its feed and its counters.\<close>

definition main_receiver :: receiver where
  "main_receiver = new_receiver 10000 (24 * 60 * minute)"

definition new_process :: "operator_env \<Rightarrow> process" where
  "new_process E =
     \<lparr>pr_policy = zero_rstate, pr_fetcher = NewWorkflowFetcher (oe_version E) [], pr_listCache = Map.empty,
      pr_api = new_api, pr_workflowYAMLFetch = (\<lambda>_. 0), pr_activityBotFiltered = (\<lambda>_. 0),
      pr_receiver = main_receiver,
      pr_apps = \<lparr>as_Tunnels = NewTunnelRegistry, as_TunnelConnected = Map.empty\<rparr>\<rparr>"

section \<open>Hooks\<close>

definition RecordWorkflowYAMLFetch :: "string \<Rightarrow> process \<Rightarrow> process" where
  "RecordWorkflowYAMLFetch result P =
     P\<lparr>pr_workflowYAMLFetch := (pr_workflowYAMLFetch P)(result := Suc (pr_workflowYAMLFetch P result))\<rparr>"

definition IncActivityBotFiltered :: "string \<Rightarrow> process \<Rightarrow> process" where
  "IncActivityBotFiltered reason P =
     P\<lparr>pr_activityBotFiltered := (pr_activityBotFiltered P)(reason := Suc (pr_activityBotFiltered P reason))\<rparr>"

definition predictorHooks :: "hook \<Rightarrow> process \<Rightarrow> process" where
  "predictorHooks h P =
     (case h of
        OnYAMLFetch result \<Rightarrow> RecordWorkflowYAMLFetch result P
      | OnDynamicSkipped _ \<Rightarrow> RecordWorkflowYAMLFetch ''dynamic_skipped'' P)"

definition activityHooks :: "sampler_hook \<Rightarrow> process \<Rightarrow> process" where
  "activityHooks h P =
     (case h of
        OnBotFiltered reason \<Rightarrow> IncActivityBotFiltered reason P
      | SampleYAMLFetch result \<Rightarrow> RecordWorkflowYAMLFetch result P
      | SampleDynamicSkipped _ \<Rightarrow> RecordWorkflowYAMLFetch ''dynamic_skipped'' P
      | OnEventFiltered _ \<Rightarrow> P)"

section \<open>The calls of a reconcile\<close>

definition process_graph :: "process \<Rightarrow> workflowFetcher graph" where
  "process_graph P =
     \<lparr>gr_listCache = pr_listCache P, gr_fetcher = pr_fetcher P, gr_api = pr_api P, gr_hooks = []\<rparr>"

definition process_Predict ::
  "operator_env \<Rightarrow> string \<Rightarrow> string \<Rightarrow> string \<Rightarrow> process \<Rightarrow> (error + per_label_set) \<times> process" where
  "process_Predict E owner repo token P =
     (let (r, g) = Predict (graph_env_of E) predictorImpl owner repo token (process_graph P) in
      (r, fold predictorHooks (gr_hooks g)
            (P\<lparr>pr_listCache := gr_listCache g, pr_fetcher := gr_fetcher g, pr_api := gr_api g\<rparr>)))"

definition process_sampler :: "process \<Rightarrow> workflowFetcher sampler" where
  "process_sampler P = \<lparr>sa_fetcher = pr_fetcher P, sa_api = pr_api P, sa_hooks = []\<rparr>"

definition process_Sample ::
  "operator_env \<Rightarrow> string \<Rightarrow> string \<Rightarrow> string \<Rightarrow> duration \<Rightarrow> string list \<Rightarrow> process \<Rightarrow>
    (error + per_label_set) \<times> process" where
  "process_Sample E owner repo token window denylist P =
     (let (r, s) = Sample (sampler_env_of E) (activityImpl E) owner repo token window denylist (process_sampler P) in
      (r, fold activityHooks (sa_hooks s) (P\<lparr>pr_fetcher := sa_fetcher s, pr_api := sa_api s\<rparr>)))"

definition process_CurrentDemand ::
  "operator_env \<Rightarrow> string \<Rightarrow> string \<Rightarrow> string \<Rightarrow> string list \<Rightarrow> process \<Rightarrow>
    ((Snapshot \<times> error option) \<times> process) option" where
  "process_CurrentDemand E token owner repo labels P =
     (case CurrentDemand (poll_env_of E) owner repo labels (NewGitHubRESTPoller githubBaseURL token, pr_api P) of
        None \<Rightarrow> None
      | Some (r, p, s) \<Rightarrow>
          Some (case r of
                  Inl err \<Rightarrow> (\<lparr>snap_Queued = 0, snap_Running = 0\<rparr>, Some err)
                | Inr (q, n) \<Rightarrow> (\<lparr>snap_Queued = q, snap_Running = n\<rparr>, None),
                P\<lparr>pr_api := s\<rparr>))"

text \<open>The reconciler with the answers of the three calls: demand is the given answer, the prediction is
  asked on the state \<open>P1\<close> and the sample on \<open>P2\<close>.\<close>

definition process_reconciler ::
  "operator_env \<Rightarrow> Snapshot \<times> error option \<Rightarrow> process \<Rightarrow> process \<Rightarrow> 'w reconciler" where
  "process_reconciler E d P1 P2 =
     \<lparr>rec_Scheduler = Decide (oe_zones E),
      rec_Demand = None,
      rec_NewPoller = (\<lambda>token owner repo labels. d),
      rec_AdapterFunc = None,
      rec_Predictor = Some (\<lambda>owner repo token. fst (process_Predict E owner repo token P1)),
      rec_Activity = Some (\<lambda>owner repo token window denylist. fst (process_Sample E owner repo token window denylist P2)),
      rec_EventFeed = Some (EventFeed.Snapshot (rcv_feed (pr_receiver P1)))\<rparr>"

text \<open>The state after \<open>computePredicted\<close>: the predictor is called unless the policy turns it off.\<close>

definition after_predict :: "operator_env \<Rightarrow> WarmRunnerPolicy \<Rightarrow> string \<Rightarrow> process \<Rightarrow> process" where
  "after_predict E pol token P =
     (if (case spec_Predictor (pol_Spec pol) of None \<Rightarrow> False | Some c \<Rightarrow> \<not> pc_Enabled c) then P
      else snd (process_Predict E (gh_Owner (spec_GitHub (pol_Spec pol)))
             (gh_Repository (spec_GitHub (pol_Spec pol))) token P))"

text \<open>The state after \<open>computeActivity\<close>: the sampler is called unless the feed is used or the policy turns
  it off.\<close>

definition feed_is_used :: "clock \<Rightarrow> WarmRunnerPolicy \<Rightarrow> process \<Rightarrow> bool" where
  "feed_is_used clk pol P \<longleftrightarrow>
     spec_GitHubAppRef (pol_Spec pol) \<noteq> None
     \<and> fst (snd (snd (snd (computeActivityFromFeed (EventFeed.Snapshot (rcv_feed (pr_receiver P))) clk pol))))
         = LastEventSourceWebhook"

definition after_sample :: "operator_env \<Rightarrow> clock \<Rightarrow> WarmRunnerPolicy \<Rightarrow> string \<Rightarrow> process \<Rightarrow> process" where
  "after_sample E clk pol token P =
     (if feed_is_used clk pol P \<or> (case spec_Activity (pol_Spec pol) of None \<Rightarrow> False | Some c \<Rightarrow> \<not> ac_Enabled c) then P
      else
        let window = (case spec_Activity (pol_Spec pol) of
                        None \<Rightarrow> activityWindowDefault
                      | Some c \<Rightarrow> if ac_WindowSeconds c > 0 then ac_WindowSeconds c * second else activityWindowDefault);
            denylist = BuiltinDenylist @ (case spec_Activity (pol_Spec pol) of None \<Rightarrow> [] | Some c \<Rightarrow> ac_BotLoginDenylist c)
        in snd (process_Sample E (gh_Owner (spec_GitHub (pol_Spec pol))) (gh_Repository (spec_GitHub (pol_Spec pol)))
                 token window denylist P))"

text \<open>What the calls of one reconcile give: the answer about demand, and the states after the poll, after
  the prediction and after the sample. No call is made when there is no policy, no backend or no token.\<close>

definition reconcile_calls ::
  "operator_env \<Rightarrow> ('w, 'o) kube \<Rightarrow> clock \<Rightarrow> 'w \<Rightarrow> NamespacedName \<Rightarrow> process \<Rightarrow>
    ((Snapshot \<times> error option) \<times> process \<times> process \<times> process) option" where
  "reconcile_calls E k clk w req P =
     (let none = ((\<lparr>snap_Queued = 0, snap_Running = 0\<rparr>, None), P, P, P) in
      case get_policy k w req of
        Inl _ \<Rightarrow> Some none
      | Inr pol \<Rightarrow>
          if adapterFor k (process_reconciler E (fst none) P P) (spec_Target (pol_Spec pol)) = None then Some none
          else
            (case resolveAuthToken k w pol of
               Inl _ \<Rightarrow> Some none
             | Inr token \<Rightarrow>
                 (let gh = spec_GitHub (pol_Spec pol) in
                  case process_CurrentDemand E token (gh_Owner gh) (gh_Repository gh) (gh_Labels gh) P of
                    None \<Rightarrow> None
                  | Some (d, P1) \<Rightarrow>
                      (let P2 = after_predict E pol token P1 in Some (d, P1, P2, after_sample E clk pol token P2)))))"

definition Process_Reconcile ::
  "operator_env \<Rightarrow> ('w, 'o) kube \<Rightarrow> clock \<Rightarrow> NamespacedName \<Rightarrow> 'w \<Rightarrow> process \<Rightarrow>
    ((Result \<times> error option) \<times> 'w \<times> process) option" where
  "Process_Reconcile E k clk req w P =
     (case reconcile_calls E k clk w req P of
        None \<Rightarrow> None
      | Some (d, P1, P2, P3) \<Rightarrow>
          (let (res, w, rs) = Reconcile k (process_reconciler E d P1 P2) clk w (pr_policy P) req
           in Some (res, w, P3\<lparr>pr_policy := rs\<rparr>)))"

section \<open>Steps\<close>

text \<open>The events a request and a frame put into the feed.\<close>

definition request_events ::
  "('w, 'o) kube \<Rightarrow> operator_env \<Rightarrow> 'w \<Rightarrow> rclock \<Rightarrow> http_request \<Rightarrow> receiver \<Rightarrow> feed_event list" where
  "request_events k E w clk q r = let_through k (oe_podNamespace E) (oe_json E) (rcv_guard r) [(w, clk, q)]"

definition frame_events ::
  "('w, 'o) kube \<Rightarrow> operator_env \<Rightarrow> 'w \<Rightarrow> rclock \<Rightarrow> (string \<Rightarrow> string) \<Rightarrow> string \<Rightarrow> receiver \<Rightarrow> feed_event list" where
  "frame_events k E w clk headers body r =
     (let ev = headers ''X-GitHub-Event''; did = headers ''X-GitHub-Delivery'';
          target = headers ''X-GitHub-Hook-Installation-Target-ID''
      in if ev = [] \<or> did = [] \<or> target = [] then []
         else case Resolve k (oe_podNamespace E) w target of
           Inl _ \<Rightarrow> []
         | Inr _ \<Rightarrow> if fst (Seen (rcv_guard r) (rc_guard clk) did) then []
                   else (case event_of (oe_json E) (rc_feed clk) ev body of None \<Rightarrow> [] | Some e \<Rightarrow> [e]))"

inductive reached ::
  "operator_env \<Rightarrow> ('w, 'o) kube \<Rightarrow> 'w \<Rightarrow> process \<Rightarrow> feed_event list \<Rightarrow> bool"
  for E :: operator_env and k :: "('w, 'o) kube" where
  start: "reached E k w (new_process E) []"
| policy: "reached E k w P es \<Longrightarrow> Process_Reconcile E k clk req w P = Some (res, w', P') \<Longrightarrow> reached E k w' P' es"
| app: "reached E k w P es \<Longrightarrow> GitHubApp_Reconcile k ae w (pr_apps P) req = (res, w', s) \<Longrightarrow>
    reached E k w' (P\<lparr>pr_apps := s\<rparr>) es"
| request: "reached E k w P es \<Longrightarrow>
    ServeHTTP k (oe_podNamespace E) (oe_json E) w rclk (pr_receiver P) q = (status, r) \<Longrightarrow>
    reached E k w (P\<lparr>pr_receiver := r\<rparr>) (es @ request_events k E w rclk q (pr_receiver P))"
| frame: "reached E k w P es \<Longrightarrow>
    HandleFrame k (oe_podNamespace E) (oe_json E) w rclk (pr_receiver P) headers body = (err, r) \<Longrightarrow>
    reached E k w (P\<lparr>pr_receiver := r\<rparr>) (es @ frame_events k E w rclk headers body (pr_receiver P))"
| others: "reached E k w P es \<Longrightarrow> reached E k w' P es"

section \<open>Only the calls that are made matter\<close>

text \<open>\<open>after_predict\<close> and \<open>after_sample\<close> skip a call exactly where its answer makes no difference to the legs.\<close>

lemma unasked_predictor:
  assumes "case spec_Predictor (pol_Spec pol) of None \<Rightarrow> False | Some c \<Rightarrow> \<not> pc_Enabled c"
  shows "signalLegs k (r\<lparr>rec_Predictor := Some f\<rparr>) clk w rs pol snap current
    = signalLegs k (r\<lparr>rec_Predictor := Some g\<rparr>) clk w rs pol snap current"
proof -
  have 1: "computePredicted k (r\<lparr>rec_Predictor := Some h\<rparr>) w pol = (0, [], [], None)" for h
    using assms by (simp add: computePredicted_def)
  have token: "predictorToken k (r\<lparr>rec_Predictor := h\<rparr>) w p = predictorToken k r w p" for h p
    by (simp add: predictorToken_def)
  have poll: "computeActivityPoll k (r\<lparr>rec_Predictor := h\<rparr>) clk w p = computeActivityPoll k r clk w p" for h p
    unfolding computeActivityPoll_def token by simp
  have 2: "computeActivity k (r\<lparr>rec_Predictor := h\<rparr>) clk w p rs = computeActivity k r clk w p rs" for h p rs
    unfolding computeActivity_def poll by simp
  have 3: "predictorEnabled (r\<lparr>rec_Predictor := Some h\<rparr>) p = predictorEnabled (r\<lparr>rec_Predictor := Some f\<rparr>) p" for h p
    by (simp add: predictorEnabled_def)
  have 4: "activityEnabled (r\<lparr>rec_Predictor := h\<rparr>) p = activityEnabled r p" for h p
    by (simp add: activityEnabled_def)
  show ?thesis unfolding signalLegs_def 1 2 3 [of g] 4 by simp
qed

lemma unasked_sampler:
  assumes "rec_EventFeed r = Some (EventFeed.Snapshot (rcv_feed (pr_receiver P)))"
    and "feed_is_used clk pol P \<or> (case spec_Activity (pol_Spec pol) of None \<Rightarrow> False | Some c \<Rightarrow> \<not> ac_Enabled c)"
  shows "computeActivity k (r\<lparr>rec_Activity := Some f\<rparr>) clk w pol rs = computeActivity k (r\<lparr>rec_Activity := Some g\<rparr>) clk w pol rs"
  using assms(2)
proof
  assume "feed_is_used clk pol P"
  then show ?thesis
    using assms(1) by (auto simp: feed_is_used_def computeActivity_def Let_def split: prod.splits option.splits)
next
  assume "case spec_Activity (pol_Spec pol) of None \<Rightarrow> False | Some c \<Rightarrow> \<not> ac_Enabled c"
  then have off: "computeActivityPoll k (r\<lparr>rec_Activity := Some h\<rparr>) clk w pol = ((0, [], [], None), pol)" for h
    by (simp add: computeActivityPoll_def)
  show ?thesis unfolding computeActivity_def off by simp
qed

end
