(* ===== verification/System.thy ===== *)
theory System
  imports Operator
begin

text \<open>
  The whole operator. \<open>answers_from\<close> says that GitHub answers from one state of its repositories, and
  \<open>process_ok\<close> is what every reachable state of the process satisfies then. On that rest two properties from
  one end to the other: the jobs that are about to start, and the jobs that deliveries announce, are
  covered by the floor a reconcile leaves in the backend.
\<close>

section \<open>GitHub\<close>

record github_state =
  gs_file :: "string \<Rightarrow> string"
  gs_active :: "string \<Rightarrow> string \<Rightarrow> string \<Rightarrow> runRef list"
  gs_created :: "string \<Rightarrow> string \<Rightarrow> int64 \<Rightarrow> string list"
  gs_hosted :: "string \<Rightarrow> string \<Rightarrow> hosted"

text \<open>The bodies a URL may be answered with.\<close>

definition given :: "operator_env \<Rightarrow> string \<Rightarrow> string \<Rightarrow> bool" where
  "given E u body \<longleftrightarrow> (\<exists>log req. rq_URL req = u \<and> readable_ok (out_Do (oe_out E) log req) = Some body)"

definition answers_from :: "operator_env \<Rightarrow> github_state \<Rightarrow> bool" where
  "answers_from E G \<longleftrightarrow>
     rand_ok (oe_out E) \<and> parser_ok (graph_env_of E)
     \<and> Fetcher.serves (oe_out E) (gs_file G) (NewWorkflowFetcher (oe_version E) [])
     \<and> (\<forall>owner repo status body. given E (runsURL predictorImpl owner repo status) body \<longrightarrow>
          oe_graph_runs E body = Inr (gs_active G owner repo status))
     \<and> (\<forall>owner repo. jobs_listed (graph_env_of E) (given E) predictorImpl owner repo (gs_created G owner repo))
     \<and> (\<forall>owner repo token. h_owner (gs_hosted G owner repo) = owner \<and> h_repo (gs_hosted G owner repo) = repo
          \<and> truthful (poll_env_of E) (NewGitHubRESTPoller githubBaseURL token) (gs_hosted G owner repo))"

text \<open>Every page of every poll is answered and decodes.\<close>

definition polls_answered :: "operator_env \<Rightarrow> github_state \<Rightarrow> bool" where
  "polls_answered E G \<longleftrightarrow> (\<forall>owner repo token.
     reliable (poll_env_of E) (NewGitHubRESTPoller githubBaseURL token) (gs_hosted G owner repo))"

section \<open>The invariant\<close>

definition process_ok :: "operator_env \<Rightarrow> github_state \<Rightarrow> process \<Rightarrow> bool" where
  "process_ok E G P \<longleftrightarrow>
     fetcher_usable (oe_out E) (gs_file G) (pr_fetcher P) \<and> lists_ok (given E) (process_graph P)
     \<and> guard_invar (rcv_guard (pr_receiver P)) \<and> guard_size (rcv_guard (pr_receiver P)) = 10000
     \<and> feed_invar (rcv_feed (pr_receiver P)) \<and> gauges_pruned (pr_policy P)
     \<and> (\<exists>m. registry_invar m (as_Tunnels (pr_apps P)))"

lemma hooks_keep:
  "pr_fetcher (fold predictorHooks hs P) = pr_fetcher P \<and> pr_listCache (fold predictorHooks hs P) = pr_listCache P
    \<and> pr_receiver (fold predictorHooks hs P) = pr_receiver P \<and> pr_policy (fold predictorHooks hs P) = pr_policy P
    \<and> pr_apps (fold predictorHooks hs P) = pr_apps P"
  by (induction hs arbitrary: P) (auto simp: predictorHooks_def RecordWorkflowYAMLFetch_def split: hook.split)

lemma activity_hooks_keep:
  "pr_fetcher (fold activityHooks hs P) = pr_fetcher P \<and> pr_listCache (fold activityHooks hs P) = pr_listCache P
    \<and> pr_receiver (fold activityHooks hs P) = pr_receiver P \<and> pr_policy (fold activityHooks hs P) = pr_policy P
    \<and> pr_apps (fold activityHooks hs P) = pr_apps P"
  by (induction hs arbitrary: P)
    (auto simp: activityHooks_def RecordWorkflowYAMLFetch_def IncActivityBotFiltered_def split: sampler_hook.split)

text \<open>Two processes that differ at most in the API log, the counters, the files and the listings.\<close>

definition same_rest :: "process \<Rightarrow> process \<Rightarrow> bool" where
  "same_rest P Q \<longleftrightarrow> pr_receiver P = pr_receiver Q \<and> pr_policy P = pr_policy Q \<and> pr_apps P = pr_apps Q"

lemma predictor_ready_process:
  assumes "answers_from E G" "process_ok E G P"
  shows "predictor_ready (oe_out E) (gs_file G) (given E) (graph_env_of E) (process_graph P)"
  using assms
  by (auto simp: predictor_ready_def answers_from_def process_ok_def graph_env_of_def answers_def given_def process_graph_def)

lemma runsCap_pos: "0 < g_runsCap predictorImpl"
  by (simp add: predictorImpl_def NewWorkflowNeedsGraph_def Predictor.DefaultRunsCap_def)

lemma process_Predict_keeps:
  assumes G: "answers_from E G" and ok: "process_ok E G P" and run: "process_Predict E owner repo token P = (r, P')"
  shows "process_ok E G P' \<and> same_rest P' P"
proof -
  obtain r' g where p: "Predict (graph_env_of E) predictorImpl owner repo token (process_graph P) = (r', g)" by force
  have "jobs_listed (graph_env_of E) (given E) predictorImpl owner repo (gs_created G owner repo)"
    using G by (simp add: answers_from_def)
  note keep = Predict_keeps [OF predictor_ready_process [OF G ok] this runsCap_pos p]
  have P': "P' = fold predictorHooks (gr_hooks g)
      (P\<lparr>pr_listCache := gr_listCache g, pr_fetcher := gr_fetcher g, pr_api := gr_api g\<rparr>)"
    using run p by (simp add: process_Predict_def)
  show ?thesis using keep ok by (simp add: P' process_ok_def same_rest_def hooks_keep process_graph_def lists_ok_def)
qed

lemma process_Sample_keeps:
  assumes ok: "process_ok E G P" and run: "process_Sample E owner repo token window denylist P = (r, P')"
  shows "process_ok E G P' \<and> same_rest P' P"
proof -
  obtain r' s where p: "Sample (sampler_env_of E) (activityImpl E) owner repo token window denylist (process_sampler P) = (r', s)"
    by force
  have "fetcher_usable (oe_out E) (gs_file G) (sa_fetcher s)"
    by (rule Sample_keeps [OF _ _ p]) (use ok in \<open>simp_all add: sampler_env_of_def process_sampler_def process_ok_def\<close>)
  moreover have P': "P' = fold activityHooks (sa_hooks s) (P\<lparr>pr_fetcher := sa_fetcher s, pr_api := sa_api s\<rparr>)"
    using run p by (simp add: process_Sample_def)
  ultimately show ?thesis
    using ok by (simp add: P' process_ok_def same_rest_def activity_hooks_keep process_graph_def lists_ok_def)
qed

lemma process_CurrentDemand_keeps:
  assumes "process_ok E G P" "process_CurrentDemand E token owner repo labels P = Some (d, P')"
  shows "process_ok E G P' \<and> same_rest P' P"
  using assms by (auto simp: process_CurrentDemand_def process_ok_def same_rest_def process_graph_def lists_ok_def
      split: option.splits)

lemma same_rest_refl [simp]: "same_rest P P"
  by (simp add: same_rest_def)

lemma same_rest_trans: "same_rest P Q \<Longrightarrow> same_rest Q R \<Longrightarrow> same_rest P R"
  by (simp add: same_rest_def)

lemma after_predict_keeps:
  assumes "answers_from E G" "process_ok E G P"
  shows "process_ok E G (after_predict E pol token P) \<and> same_rest (after_predict E pol token P) P"
  using process_Predict_keeps [OF assms prod.collapse [symmetric]] assms(2) by (simp add: after_predict_def)

lemma after_sample_keeps:
  assumes "process_ok E G P"
  shows "process_ok E G (after_sample E clk pol token P) \<and> same_rest (after_sample E clk pol token P) P"
  using process_Sample_keeps [OF assms prod.collapse [symmetric]] assms by (simp add: after_sample_def Let_def)

lemma reconcile_calls_keep:
  assumes "answers_from E G" "process_ok E G P" "reconcile_calls E k clk w req P = Some (d, P1, P2, P3)"
  shows "process_ok E G P3 \<and> same_rest P3 P"
proof (cases "P3 = P")
  case False
  then obtain pol token where c: "process_CurrentDemand E token (gh_Owner (spec_GitHub (pol_Spec pol)))
      (gh_Repository (spec_GitHub (pol_Spec pol))) (gh_Labels (spec_GitHub (pol_Spec pol))) P = Some (d, P1)"
      "P2 = after_predict E pol token P1" "P3 = after_sample E clk pol token P2"
    using assms(3) by (auto simp: reconcile_calls_def Let_def split: sum.splits if_splits option.splits)
  show ?thesis
    unfolding c(2,3) using process_CurrentDemand_keeps [OF assms(2) c(1)] after_predict_keeps [OF assms(1)]
      after_sample_keeps same_rest_trans by meson
qed (use assms(2) in simp)

lemma Process_Reconcile_ok:
  assumes "answers_from E G" "process_ok E G P" "Process_Reconcile E k clk req w P = Some (res, w', P')"
  shows "process_ok E G P' \<and> pr_receiver P' = pr_receiver P"
proof -
  obtain d P1 P2 P3 where c: "reconcile_calls E k clk w req P = Some (d, P1, P2, P3)"
    using assms(3) by (auto simp: Process_Reconcile_def split: option.splits)
  obtain res' w1 rs where r: "Reconcile k (process_reconciler E d P1 P2) clk w (pr_policy P) req = (res', w1, rs)"
    by (metis surj_pair)
  have "P' = P3\<lparr>pr_policy := rs\<rparr>" using assms(3) c r by (simp add: Process_Reconcile_def)
  moreover have "gauges_pruned rs" using Reconcile_pruned [OF _ r] assms(2) by (simp add: process_ok_def)
  ultimately show ?thesis
    using reconcile_calls_keep [OF assms(1,2) c] by (auto simp: process_ok_def same_rest_def process_graph_def lists_ok_def)
qed

lemma process_ok_apps:
  "process_ok E G P \<Longrightarrow> registry_invar m (as_Tunnels s) \<Longrightarrow> process_ok E G (P\<lparr>pr_apps := s\<rparr>)"
  by (auto simp: process_ok_def process_graph_def lists_ok_def)

lemma process_ok_receiver:
  "process_ok E G P \<Longrightarrow> guard_invar (rcv_guard r) \<Longrightarrow> guard_size (rcv_guard r) = 10000 \<Longrightarrow> feed_invar (rcv_feed r) \<Longrightarrow>
    process_ok E G (P\<lparr>pr_receiver := r\<rparr>)"
  by (simp add: process_ok_def process_graph_def lists_ok_def)

text \<open>A frame does to guard and feed what \<open>frame_events\<close> says.\<close>

lemma HandleFrame_effect:
  assumes "HandleFrame k (oe_podNamespace E) (oe_json E) w clk r headers body = (err, r')"
  shows "rcv_feed r' = run_events RecordPush RecordJob (frame_events k E w clk headers body r) (rcv_feed r)"
    and "rcv_guard r' = rcv_guard r \<or> rcv_guard r' = snd (Seen (rcv_guard r) (rc_guard clk) (headers ''X-GitHub-Delivery''))"
  using assms
  by (auto simp: HandleFrame_def frame_events_def Let_def Handle_event split_beta split: if_splits sum.splits option.splits
      prod.splits dest!: arg_cong [of _ _ snd])

lemma ServeHTTP_effect:
  assumes "ServeHTTP k (oe_podNamespace E) (oe_json E) w clk r q = (status, r')"
  shows "rcv_feed r' = run_events RecordPush RecordJob (request_events k E w clk q r) (rcv_feed r)"
    and "rcv_guard r' = rcv_guard r \<or> rcv_guard r' = snd (Seen (rcv_guard r) (rc_guard clk) (delivery_id q))"
proof -
  have r': "r' = snd (ServeHTTP k (oe_podNamespace E) (oe_json E) w clk r q)" using assms by simp
  show "rcv_feed r' = run_events RecordPush RecordJob (request_events k E w clk q r) (rcv_feed r)"
    unfolding r' request_events_def
    using serve_all_feed [of k "oe_podNamespace E" "oe_json E" "[(w, clk, q)]" r] by simp
  show "rcv_guard r' = rcv_guard r \<or> rcv_guard r' = snd (Seen (rcv_guard r) (rc_guard clk) (delivery_id q))"
    unfolding r' serve_guard by simp
qed

lemma receiver_step:
  assumes "process_ok E G P" "rcv_feed (pr_receiver P) = run_events RecordPush RecordJob es NewInMemoryEventFeed"
    and "rcv_feed r = run_events RecordPush RecordJob es' (rcv_feed (pr_receiver P))"
    and "rcv_guard r = rcv_guard (pr_receiver P) \<or> rcv_guard r = snd (Seen (rcv_guard (pr_receiver P)) t did)"
  shows "process_ok E G (P\<lparr>pr_receiver := r\<rparr>) \<and> rcv_feed r = run_events RecordPush RecordJob (es @ es') NewInMemoryEventFeed"
proof -
  have g: "guard_invar (rcv_guard (pr_receiver P))" "guard_size (rcv_guard (pr_receiver P)) = 10000"
    using assms(1) by (simp_all add: process_ok_def)
  have "guard_invar (rcv_guard r) \<and> guard_size (rcv_guard r) = 10000"
    using assms(4) g guard.seen_invar [OF g(1) prod.collapse [symmetric], of t did]
      guard.seen_params [OF prod.collapse [symmetric], of "rcv_guard (pr_receiver P)" t did] by auto
  moreover have "feed_invar (rcv_feed r)" unfolding assms(3) by (rule feed.run_invar) (use assms(1) in \<open>simp add: process_ok_def\<close>)
  ultimately show ?thesis using process_ok_receiver [OF assms(1)] assms(2,3) by (simp add: run_events_append)
qed

lemma new_process_ok: "answers_from E G \<Longrightarrow> process_ok E G (new_process E)"
proof -
  assume G: "answers_from E G"
  let ?f = "NewWorkflowFetcher (oe_version E) []"
  have "fetcher_usable (oe_out E) (gs_file G) ?f"
    using G NewWorkflowFetcher_invar(1) [of "oe_version E" "[]"]
    by (simp add: fetcher_usable_def answers_from_def cache_holds_def sane_delays_def NewWorkflowFetcher_def
        fetcherDefaultBaseDelay_def fetcherMaxBackoff_def second_def)
  moreover have "guard_invar (NewReplayGuard 10000 (24 * 60 * minute))"
    by (simp add: guard_invar_def NewReplayGuard_def)
  moreover have "gauges_pruned zero_rstate" by (simp add: gauges_pruned_def zero_rstate_def zero_metrics_def)
  ultimately show ?thesis
    using new_registry_invar feed.new_invar
    by (auto simp: process_ok_def new_process_def main_receiver_def new_receiver_def process_graph_def lists_ok_def
        NewReplayGuard_def)
qed

lemma reached_keeps:
  assumes "answers_from E G" "reached E k w P es"
  shows "process_ok E G P \<and> rcv_feed (pr_receiver P) = run_events RecordPush RecordJob es NewInMemoryEventFeed"
  using assms(2)
proof induction
  case (start w)
  then show ?case using new_process_ok [OF assms(1)] by (simp add: new_process_def main_receiver_def new_receiver_def)
next
  case (policy w P es clk req res w' P')
  then show ?case using Process_Reconcile_ok [OF assms(1)] by metis
next
  case (app w P es ae req res w' s)
  then obtain m where "registry_invar m (as_Tunnels (pr_apps P))" by (auto simp: process_ok_def)
  then have "\<exists>m. registry_invar m (as_Tunnels s)"
    using GitHubApp_Reconcile_tunnels [OF app(2)] app_tunnels_invar by (cases "get_app k w req") auto
  then show ?case using app process_ok_apps by auto
next
  case (request w P es rclk q status r)
  show ?case using receiver_step [OF _ _ ServeHTTP_effect [OF request(2)], of E G es] request.IH by simp
next
  case (frame w P es rclk headers body err r)
  show ?case using receiver_step [OF _ _ HandleFrame_effect [OF frame(2)], of E G es] frame.IH by simp
qed

section \<open>Jobs by label\<close>

definition key_serves :: "string list \<Rightarrow> string \<Rightarrow> bool" where
  "key_serves want key \<longleftrightarrow> set want \<subseteq> set (splitLabelSetKey key)"

text \<open>If the counts of a snapshot add up the weights of some things by their keys, then what it has for a
  policy is the weight of the things whose keys serve the policy.\<close>

lemma count_of_key: "distinct (keys m) \<Longrightarrow> (key, n) \<in> set m \<Longrightarrow> count_of m key = n"
  by (simp add: count_of_def keys_def)

lemma demand_for_keys:
  "distinct (keys m) \<Longrightarrow> demand_for want m = (\<Sum>key \<in> {key \<in> set (keys m). key_serves want key}. count_of m key)"
proof (induction m)
  case (Cons kv m)
  obtain key n where kv: "kv = (key, n)" by force
  have d: "distinct (keys m)" "key \<notin> set (keys m)" using Cons.prems by (simp_all add: kv keys_def)
  have same: "(\<Sum>j \<in> {j \<in> set (keys m). key_serves want j}. count_of (kv # m) j)
      = (\<Sum>j \<in> {j \<in> set (keys m). key_serves want j}. count_of m j)"
    by (rule sum.cong) (use d(2) in \<open>auto simp: count_of_def kv\<close>)
  have set: "{j \<in> set (keys (kv # m)). key_serves want j} =
      (if key_serves want key then insert key {j \<in> set (keys m). key_serves want j} else {j \<in> set (keys m). key_serves want j})"
    by (auto simp: kv keys_def)
  show ?case
    unfolding set using Cons.IH [OF d(1)] same d(2)
    by (simp add: kv demand_for_def Signals.serves_def key_serves_def count_of_def)
qed (simp add: demand_for_def keys_def)

lemma demand_for_weights:
  fixes weight :: "'x \<Rightarrow> int"
  assumes "distinct (keys m)" "\<And>key. count_of m key = (\<Sum>x \<leftarrow> xs. if key_of x = key then weight x else 0)"
    and "\<And>x. x \<in> set xs \<Longrightarrow> 0 < weight x"
  shows "demand_for want m = (\<Sum>x \<leftarrow> xs. if key_serves want (key_of x) then weight x else 0)"
proof -
  let ?K = "{key \<in> set (keys m). key_serves want key}"
  have "key_of x \<in> set (keys m)" if "x \<in> set xs" for x
  proof -
    have "0 \<le> (if key_of y = key_of x then weight y else 0)" if "y \<in> set xs" for y
      using assms(3) [OF that] by simp
    then have "weight x \<le> count_of m (key_of x)"
      unfolding assms(2) using member_le_sum_list [of "weight x" "map (\<lambda>y. if key_of y = key_of x then weight y else 0) xs"] that
      by force
    then show ?thesis using assms(3) [OF that] by (auto simp: count_of_def set_keys split: option.splits)
  qed
  moreover have "(\<Sum>key \<in> ?K. \<Sum>x \<leftarrow> ys. if key_of x = key then weight x else 0)
      = (\<Sum>x \<leftarrow> ys. if key_of x \<in> ?K then weight x else 0)" for ys
    by (induction ys) (simp_all add: sum.distrib)
  ultimately show ?thesis
    unfolding demand_for_keys [OF assms(1)] assms(2) by (auto intro!: arg_cong [of _ _ sum_list] map_cong)
qed

text \<open>The jobs of a set of chains that serve a policy, each as large as its matrix.\<close>

definition imminent_for :: "string list \<Rightarrow> (string list \<times> Job) set \<Rightarrow> int" where
  "imminent_for want S = (\<Sum>(js, job) \<in> S. if key_serves want (job_key job) then job_weight job else 0)"

lemma demand_for_chains:
  assumes "distinct (keys m)" "\<And>rn. finite (S rn)" "\<And>key. count_of m key = (\<Sum>rn \<leftarrow> runs. weigh key (S rn))"
  shows "demand_for want m = (\<Sum>rn \<leftarrow> runs. imminent_for want (S rn))"
proof -
  obtain enum where enum: "\<And>rn. set (enum rn) = S rn" "\<And>rn. distinct (enum rn)"
    using finite_distinct_list [OF assms(2)] by metis
  have flat: "(\<Sum>x \<leftarrow> concat (map enum runs). f x) = (\<Sum>rn \<leftarrow> runs. \<Sum>x \<in> S rn. f x)" for f :: "string list \<times> Job \<Rightarrow> int"
    by (induction runs) (simp_all add: sum_list_distinct_conv_sum_set [OF enum(2)] enum(1))
  have "demand_for want m = (\<Sum>x \<leftarrow> concat (map enum runs). if key_serves want (job_key (snd x)) then job_weight (snd x) else 0)"
  proof (rule demand_for_weights [OF assms(1)])
    show "count_of m key = (\<Sum>x \<leftarrow> concat (map enum runs). if job_key (snd x) = key then job_weight (snd x) else 0)" for key
      unfolding assms(3) flat weigh_def by (simp add: case_prod_beta)
  qed (simp add: job_weight_def)
  then show ?thesis unfolding flat imminent_for_def by (simp add: case_prod_beta)
qed

text \<open>The jobs among events that serve a policy.\<close>

definition job_for :: "string list \<Rightarrow> string \<Rightarrow> feed_event \<Rightarrow> bool" where
  "job_for want repo e \<longleftrightarrow> (\<exists>key. recorded_job repo key e \<and> key_serves want key)"

lemma demand_for_events:
  assumes "distinct (keys m)" "\<And>key. count_of m key = jobs_recorded es repo key"
  shows "demand_for want m = int (length (filter (job_for want repo) es))"
proof -
  define key_of where "key_of e = (case e of Job _ _ (Some ls) \<Rightarrow> LabelSetKey ls | _ \<Rightarrow> [])" for e
  define jobs where "jobs = filter (\<lambda>e. \<exists>key. recorded_job repo key e) es"
  have key: "recorded_job repo key e \<longleftrightarrow> key_of e = key" if "\<exists>key. recorded_job repo key e" for e key
    using that by (auto simp: recorded_job_def key_of_def split: feed_event.splits option.splits)
  have "demand_for want m = (\<Sum>e \<leftarrow> jobs. if key_serves want (key_of e) then 1 else 0)"
  proof (rule demand_for_weights [OF assms(1)])
    show "count_of m key = (\<Sum>e \<leftarrow> jobs. if key_of e = key then 1 else 0)" for key
      unfolding assms(2) jobs_recorded_def jobs_def using key by (induction es) auto
  qed simp
  moreover have "(\<Sum>e \<leftarrow> jobs. if key_serves want (key_of e) then 1 else 0) = int (length (filter (job_for want repo) es))"
    unfolding jobs_def job_for_def using key by (induction es) auto
  ultimately show ?thesis by simp
qed

section \<open>A reconcile of the process\<close>

text \<open>A policy that can be served: it is read, its target is a backend that takes writes, its range is valid,
  it is live, and its token is there.\<close>

definition serviceable ::
  "('w, 'o) kube \<Rightarrow> 'w \<Rightarrow> NamespacedName \<Rightarrow> WarmRunnerPolicy \<Rightarrow> 'w adapter \<Rightarrow> Ref \<Rightarrow> string \<Rightarrow> bool" where
  "serviceable k w req pol ad ref token \<longleftrightarrow>
     get_policy k w req = Inr pol
     \<and> (\<forall>r. rec_AdapterFunc r = None \<longrightarrow> adapterFor k r (spec_Target (pol_Spec pol)) = Some (ad, ref))
     \<and> (\<forall>f. fst (SetFloor ad w ref f) = None)
     \<and> valid_floor (spec_Floor (pol_Spec pol)) \<and> \<not> spec_DryRun (pol_Spec pol)
     \<and> resolveAuthToken k w pol = Inr token"

lemma process_production: "production (oe_zones E) (process_reconciler E d P1 P2)"
  by (simp add: production_def process_reconciler_def)

lemma poll_answers:
  assumes "answers_from E G" "polls_answered E G"
  obtains snap P1 where "process_CurrentDemand E token owner repo labels P = Some ((snap, None), P1)"
proof -
  let ?p = "NewGitHubRESTPoller githubBaseURL token" and ?H = "gs_hosted G owner repo"
  have H: "h_owner ?H = owner" "h_repo ?H = repo" "truthful (poll_env_of E) ?p ?H" "reliable (poll_env_of E) ?p ?H"
    using assms by (simp_all add: answers_from_def polls_answered_def)
  then have ok: "poll_ok (poll_env_of E) ?p ?H (?p, pr_api P)" by (simp add: poll_ok_def NewGitHubRESTPoller_def)
  obtain r p' s where "countStatuses (poll_env_of E) (h_owner ?H) (h_repo ?H) labels pollStatuses (0, 0) (?p, pr_api P) = Some (r, p', s)"
      "delivers True (tally labels (concat (map (h_jobs ?H) (h_all_runs ?H)))) r"
    using countStatuses_ok [OF ok, of pollStatuses "(0, 0)" labels "[]"] H(4) by (auto simp: h_all_runs_def tally_Nil)
  moreover obtain q n where "tally labels (concat (map (h_jobs ?H) (h_all_runs ?H))) = (q, n)" by force
  ultimately have "CurrentDemand (poll_env_of E) owner repo labels (?p, pr_api P) = Some (Inr (q, n), p', s)"
    using H(1,2) unfolding CurrentDemand_def pollStatuses_def [symmetric] by (cases r) simp_all
  then show thesis using that by (simp add: process_CurrentDemand_def)
qed

lemma process_floor:
  assumes laws: "cluster_laws k" and pol: "serviceable k w req pol ad ref token"
    and d: "process_CurrentDemand E token (gh_Owner (spec_GitHub (pol_Spec pol)))
      (gh_Repository (spec_GitHub (pol_Spec pol))) (gh_Labels (spec_GitHub (pol_Spec pol))) P = Some ((snap, None), P1)"
  defines "r \<equiv> process_reconciler E (snap, None) P1 (after_predict E pol token P1)"
  obtains res w' P' where "Process_Reconcile E k clk req w P = Some (res, w', P')"
    "fst (GetFloor ad w' ref) = promised_floor (oe_zones E) k r clk w (pr_policy P) pol ad ref"
proof -
  have p: "get_policy k w req = Inr pol" "valid_floor (spec_Floor (pol_Spec pol))" "\<not> spec_DryRun (pol_Spec pol)"
    "resolveAuthToken k w pol = Inr token" "\<And>f. fst (SetFloor ad w ref f) = None"
    using pol by (simp_all add: serviceable_def)
  have prod: "production (oe_zones E) r" unfolding r_def by (rule process_production)
  have ad: "adapterFor k (process_reconciler E x A B) (spec_Target (pol_Spec pol)) = Some (ad, ref)" for x A B
    using pol by (simp add: serviceable_def process_reconciler_def)
  have src: "demandSource k r w pol = Inr (rec_NewPoller r token)" by (simp add: r_def demandSource_def process_reconciler_def p(4))
  have calls: "reconcile_calls E k clk w req P = Some ((snap, None), P1, after_predict E pol token P1,
      after_sample E clk pol token (after_predict E pol token P1))"
    by (simp add: reconcile_calls_def p(1,4) ad d Let_def)
  obtain res w' rs where run: "applyPlan k clk w ad ref (planFloor k r clk w (pr_policy P) pol ad ref (rec_NewPoller r token)) = (res, w', rs)"
    by (metis surj_pair)
  have rec: "Reconcile k r clk w (pr_policy P) req = (res, w', rs)"
    using Reconcile_plan [OF p(1) ad [of "(snap, None)" P1 "after_predict E pol token P1", folded r_def] src] run by simp
  have "rec_NewPoller r token a b c = (snap, None)" for a b c by (simp add: r_def process_reconciler_def)
  then have "fst (GetFloor ad w' ref) = promised_floor (oe_zones E) k r clk w (pr_policy P) pol ad ref"
    using applyPlan_backend(2) [OF run laws adapterFor_cases [OF prod ad [of "(snap, None)" P1 "after_predict E pol token P1", folded r_def]]
        planFloor_int32 [OF prod ad [of "(snap, None)" P1 "after_predict E pol token P1", folded r_def] p(2)]] p(3,5)
    unfolding wants_patch_def planFloor_simps(1,2) planFloor_dry planFloor_promised [OF productionD(1) [OF prod]]
    by (auto split: if_splits)
  then show thesis using that calls rec [unfolded r_def] by (simp add: Process_Reconcile_def)
qed

lemma clampFloor_mono: "x \<le> y \<Longrightarrow> clampFloor fr b x \<le> clampFloor fr b y"
  by (cases b) (auto simp: clampFloor_def Let_def)

lemma promised_clamped:
  obtains kept where "promised_floor tz k r clk w rs pol ad ref = clampFloor (spec_Floor (pol_Spec pol)) (GetMax ad w ref)
    (max kept (max (leg_floor (computePredicted k r w pol)) (leg_floor (fst (computeActivity k r clk w pol rs)))))"
  by (rule that) (unfold promised_floor_def clampFloor_eq Let_def, rule refl)

lemma promised_covers:
  "clampFloor (spec_Floor (pol_Spec pol)) (GetMax ad w ref) (leg_floor (computePredicted k r w pol))
     \<le> promised_floor tz k r clk w rs pol ad ref"
  "clampFloor (spec_Floor (pol_Spec pol)) (GetMax ad w ref) (leg_floor (fst (computeActivity k r clk w pol rs)))
     \<le> promised_floor tz k r clk w rs pol ad ref"
  "promised_floor tz k r clk w rs pol ad ref \<le> floor_Max (spec_Floor (pol_Spec pol))"
  by (rule promised_clamped [of tz k r clk w rs pol ad ref]; simp add: clampFloor_mono clampFloor_le)+

section \<open>The legs\<close>

definition predictor_on :: "WarmRunnerPolicy \<Rightarrow> bool" where
  "predictor_on pol \<longleftrightarrow> (case spec_Predictor (pol_Spec pol) of None \<Rightarrow> True | Some c \<Rightarrow> pc_Enabled c)"

lemma predicted_leg:
  assumes "rec_Predictor r = Some predict" "predictor_on pol" "predictorToken k r w pol = Inr token"
    and "predict (gh_Owner (spec_GitHub (pol_Spec pol))) (gh_Repository (spec_GitHub (pol_Spec pol))) token = Inr m"
  shows "leg_floor (computePredicted k r w pol) = to_int32 (demand_for (gh_Labels (spec_GitHub (pol_Spec pol))) m)"
  using assms by (auto simp: computePredicted_def predictor_on_def contribLoop_eq leg_floor_def Let_def split: option.splits)

definition active_window :: "WarmRunnerPolicy \<Rightarrow> duration" where
  "active_window pol = (case spec_ActiveWindowSeconds (pol_Spec pol) of
     None \<Rightarrow> defaultActiveWindow | Some s \<Rightarrow> if s > 0 then s * second else defaultActiveWindow)"

lemma feed_leg:
  assumes "rec_EventFeed r = Some snapshot" "spec_GitHubAppRef (pol_Spec pol) \<noteq> None"
    and "snapshot (repoName pol) = (per, t)" "t \<noteq> 0" "time_sub (clk_feed clk) t \<le> active_window pol"
  shows "leg_floor (fst (computeActivity k r clk w pol rs)) = to_int32 (demand_for (gh_Labels (spec_GitHub (pol_Spec pol))) per)"
  using assms
  by (auto simp: computeActivity_def computeActivityFromFeed_def contribLoop_eq leg_floor_def active_window_def Let_def)

text \<open>The jobs that are about to start in a repository and serve a policy.\<close>

definition imminent_jobs :: "operator_env \<Rightarrow> github_state \<Rightarrow> string \<Rightarrow> string \<Rightarrow> string list \<Rightarrow> int" where
  "imminent_jobs E G owner repo want =
     (\<Sum>rn \<leftarrow> active_runs (g_runsCap predictorImpl) (gs_active G owner repo).
        imminent_for want (run_chains (graph_env_of E) (\<lambda>ow re pa rf. gs_file G (cacheKey ow re pa rf)) owner repo
          (gs_created G owner repo (run_ID rn)) rn))"

lemma finite_run_chains: "finite (run_chains E contents owner repo mat rn)"
  by (simp add: run_chains_def finite_chains Let_def split: option.split)

lemma process_prediction:
  assumes G: "answers_from E G" and up: "up (oe_out E)" and ok: "process_ok E G P"
  obtains m P' where "process_Predict E owner repo token P = (Inr m, P')" "demand_for want m = imminent_jobs E G owner repo want"
proof -
  have jobs: "jobs_listed (graph_env_of E) (given E) predictorImpl owner repo (gs_created G owner repo)"
    and runs: "\<And>status body. given E (runsURL predictorImpl owner repo status) body \<Longrightarrow>
      ge_runs (graph_env_of E) body = Inr (gs_active G owner repo status)"
    using G by (simp_all add: answers_from_def graph_env_of_def)
  show thesis
  proof (rule Predict_up [OF predictor_ready_process [OF G ok] jobs runsCap_pos up runs, where token = token])
    fix m g
    assume p: "Predict (graph_env_of E) predictorImpl owner repo token (process_graph P) = (Inr m, g)" "distinct (keys m)"
      "\<And>key. count_of m key = (\<Sum>rn \<leftarrow> active_runs (g_runsCap predictorImpl) (gs_active G owner repo).
        weigh key (run_chains (graph_env_of E) (\<lambda>ow re pa rf. gs_file G (cacheKey ow re pa rf)) owner repo
          (gs_created G owner repo (run_ID rn)) rn))"
    have "demand_for want m = imminent_jobs E G owner repo want"
      unfolding imminent_jobs_def by (rule demand_for_chains [OF p(2) finite_run_chains p(3)])
    then show thesis using that p(1) by (simp add: process_Predict_def)
  qed
qed

section \<open>Properties\<close>




section \<open>An example\<close>

text \<open>The repository of theory Prediction, with no jobs that wait, and the cluster with one policy for it.\<close>

definition example_operator :: operator_env where
  "example_operator =
     \<lparr>oe_out = example_out, oe_version = ''dev'', oe_actionlint = example_lint,
      oe_poll_runs = (\<lambda>body. Inr \<lparr>rr_TotalCount = 0, rr_WorkflowRuns = []\<rparr>),
      oe_poll_jobs = (\<lambda>body. Inr \<lparr>js_TotalCount = 0, js_Jobs = []\<rparr>),
      oe_graph_runs = decode_runs, oe_graph_jobs = decode_jobs, oe_sample_runs = decode_sample,
      oe_zones = utc, oe_podNamespace = [], oe_json = example_json\<rparr>"

definition example_github :: github_state where
  "example_github =
     \<lparr>gs_file = (\<lambda>key. ''text''), gs_active = (\<lambda>owner repo status. [example_run]),
      gs_created = (\<lambda>owner repo. example_jobs),
      gs_hosted = (\<lambda>owner repo. \<lparr>h_owner = owner, h_repo = repo, h_runs = (\<lambda>status. []), h_jobs = (\<lambda>i. [])\<rparr>)\<rparr>"

definition linux_policy :: WarmRunnerPolicy where
  "linux_policy = example_policy\<lparr>pol_Spec := example_spec\<lparr>spec_GitHub := (spec_GitHub example_spec)\<lparr>gh_Labels := [''linux'']\<rparr>\<rparr>\<rparr>"

definition app_policy :: WarmRunnerPolicy where
  "app_policy = example_policy\<lparr>pol_Spec := example_spec\<lparr>spec_GitHubAppRef := Some \<lparr>lref_Name = ''app''\<rparr>\<rparr>\<rparr>"

definition system_cluster :: "WarmRunnerPolicy \<Rightarrow> cluster" where
  "system_cluster pol = (example_cluster pol 1)
     \<lparr>cl_secrets := [(\<lparr>nn_Name = ''s'', nn_Namespace = ''ns''\<rparr>, [''token'' \<mapsto> ''t''])]\<rparr>"

lemma example_up: "up example_out" "rand_ok example_out"
  by (simp_all add: up_def rand_ok_def example_out_def example_Do_def answer_def readable_ok_def)

lemma example_answers: "answers_from example_operator example_github" "polls_answered example_operator example_github"
proof -
  let ?E = example_operator and ?G = example_github
  have env: "graph_env_of ?E = example_env" by (simp add: graph_env_of_def example_operator_def example_env_def)
  have ok: "readable_ok (out_Do example_out log q) = Some ''text''" for log q
    by (simp add: readable_ok_def example_out_def example_Do_def answer_def)
  have pages: "true_page p (gs_hosted ?G owner repo) u (ParsedRuns \<lparr>rr_TotalCount = 0, rr_WorkflowRuns = []\<rparr>)"
      "true_page p (gs_hosted ?G owner repo) u (ParsedJobs \<lparr>js_TotalCount = 0, js_Jobs = []\<rparr>)" for p owner repo u
    by (auto simp: true_page_def runs_pages_def jobs_pages_def h_all_runs_def page_of_def example_github_def pollStatuses_def)
  then have "truthful (poll_env_of ?E) p (gs_hosted ?G owner repo)" for p owner repo
    by (auto simp: truthful_def poll_env_of_def example_operator_def)
  moreover have "parser_ok (graph_env_of ?E)" using example_ready(1) by (simp add: env predictor_ready_def)
  moreover have "Fetcher.serves example_out (gs_file ?G) (NewWorkflowFetcher ''dev'' [])"
    by (auto simp: Fetcher.serves_def example_out_def example_Do_def answer_def example_github_def)
  moreover have "jobs_listed (graph_env_of ?E) (given ?E) predictorImpl owner repo (gs_created ?G owner repo)" for owner repo
    by (simp add: jobs_listed_def env example_env_def decode_jobs_def example_github_def example_jobs_def)
  ultimately show "answers_from ?E ?G"
    using example_up(2) by (simp add: answers_from_def example_operator_def example_github_def decode_runs_def)
  show "polls_answered ?E ?G"
    by (simp add: polls_answered_def reliable_def poll_env_of_def example_operator_def ok) (simp add: example_out_def)
qed

lemma system_serviceable:
  assumes "pol \<in> {linux_policy, app_policy}"
  shows "serviceable memory (system_cluster pol) example_req pol (NewArcAdapter memory) example_ref ''t''"
proof -
  have pol: "pol_Name pol = ''p''" "pol_Namespace pol = ''ns''" "spec_Target (pol_Spec pol) = spec_Target example_spec"
    "spec_Floor (pol_Spec pol) = spec_Floor example_spec" "\<not> spec_DryRun (pol_Spec pol)"
    "gh_Auth (spec_GitHub (pol_Spec pol)) = gh_Auth (spec_GitHub example_spec)"
    using assms by (auto simp: linux_policy_def app_policy_def example_policy_def example_spec_def)
  have "get_policy memory (system_cluster pol) example_req = Inr pol"
    using pol(1,2) by (simp add: memory_def mem_get_def system_cluster_def example_cluster_def example_req_def)
  moreover have "adapterFor memory r (spec_Target (pol_Spec pol)) = Some (NewArcAdapter memory, example_ref)"
    if "rec_AdapterFunc r = None" for r
    using that by (simp add: adapterFor_def pol(3) example_spec_def Kind_def example_ref_def)
  moreover have "fst (SetFloor (NewArcAdapter memory) (system_cluster pol) example_ref f) = None" for f
    by (simp add: NewArcAdapter_def arc_SetFloor_def memory_def mem_get_def system_cluster_def example_cluster_def)
  moreover have "resolveAuthToken memory (system_cluster pol) pol = Inr ''t''"
    by (simp add: resolveAuthToken_def pol example_spec_def memory_def mem_get_def system_cluster_def Let_def)
  moreover have "valid_floor (spec_Floor (pol_Spec pol))" using example_valid by (simp add: pol(4) example_policy_def)
  ultimately show ?thesis using pol(5) by (simp add: serviceable_def)
qed

text \<open>A frame announces a queued job before the policy is there.\<close>

definition job_headers :: "string \<Rightarrow> string" where
  "job_headers h = (if h = ''X-GitHub-Event'' then ''workflow_job'' else if h = ''X-GitHub-Delivery'' then ''d1''
     else if h = ''X-GitHub-Hook-Installation-Target-ID'' then ''42'' else [])"

definition after_frame :: process where
  "after_frame = (new_process example_operator)\<lparr>pr_receiver :=
     snd (HandleFrame memory [] example_json webhook_cluster (at 5) main_receiver job_headers ''{}'')\<rparr>"

lemma frame_reached: "reached example_operator memory w after_frame [Job 5 ''o/r'' (Some [''gpu''])]"
proof -
  let ?E = example_operator and ?P = "new_process example_operator"
  have E: "oe_podNamespace ?E = []" "oe_json ?E = example_json" "pr_receiver ?P = main_receiver"
    by (simp_all add: example_operator_def new_process_def)
  have "frame_events memory ?E webhook_cluster (at 5) job_headers ''{}'' main_receiver = [Job 5 ''o/r'' (Some [''gpu''])]"
    by code_simp
  then have "reached ?E memory webhook_cluster (?P\<lparr>pr_receiver :=
      snd (HandleFrame memory [] example_json webhook_cluster (at 5) main_receiver job_headers ''{}'')\<rparr>)
      ([] @ [Job 5 ''o/r'' (Some [''gpu''])])"
    using reached.frame [OF reached.start prod.collapse [symmetric], of ?E memory webhook_cluster "at 5" job_headers "''{}''"]
    by (simp add: E)
  then show ?thesis unfolding after_frame_def using reached.others by simp
qed


lemma example_imminent: "imminent_jobs example_operator example_github ''o'' ''r'' [''linux''] = 6"
proof -
  have up: "up example_out" by (rule example_up(1))
  have runs: "ge_runs example_env body = Inr [example_run]" for body by (simp add: example_env_def decode_runs_def)
  have cap: "0 < g_runsCap example_cfg" by code_simp
  have env: "graph_env_of example_operator = example_env"
    by (simp add: graph_env_of_def example_operator_def example_env_def)
  let ?S = "\<lambda>rn. run_chains example_env (\<lambda>ow re pa rf. ''text'') ''o'' ''r'' (example_jobs (run_ID rn)) rn"
  have "demand_for [''linux''] [(''linux'', 6)] = (\<Sum>rn \<leftarrow> active_runs (g_runsCap example_cfg) (\<lambda>status. [example_run]). imminent_for [''linux''] (?S rn))"
  proof (rule Predict_up [OF example_ready(1,2) cap up runs, where owner = "''o''" and repo = "''r''" and token = "[]"])
    fix m g
    assume p: "Predict example_env example_cfg ''o'' ''r'' [] example_graph = (Inr m, g)" "distinct (keys m)"
      "\<And>key. count_of m key = (\<Sum>rn \<leftarrow> active_runs (g_runsCap example_cfg) (\<lambda>status. [example_run]). weigh key (?S rn))"
    have "m = [(''linux'', 6)]" using example_prediction p(1) by simp
    with demand_for_chains [OF p(2) finite_run_chains p(3), of "[''linux'']"] show ?thesis by simp
  qed
  moreover have "active_runs (g_runsCap example_cfg) (\<lambda>status. [example_run]) = [example_run]"
    "active_runs (g_runsCap predictorImpl) (\<lambda>status. [example_run]) = [example_run]"
    "demand_for [''linux''] [(''linux'', 6)] = 6" by code_simp+
  ultimately show ?thesis by (simp add: imminent_jobs_def env example_github_def)
qed



end
