(* ===== verification/Manager.thy ===== *)
theory Manager
  imports Prelude
begin

text \<open>
  The start of the process (\<open>cmd/main.go\<close>, function \<open>main\<close> and \<open>parseLogLevel\<close>): the flags, the options of the
  two servers and of the manager, and the order in which things are registered before the manager starts.

  \<open>flags\<close> has one field per command-line flag, after parsing. A TLS option is a function on the TLS
  configuration, of which the code sets one field. The manager itself is controller-runtime's: \<open>runtime\<close>
  says which of the calls on it fail. \<open>main\<close> returns the exit code, if the process ends, and the calls it
  made. What is constructed between the calls is the subject of theory Operator.
\<close>

section \<open>The code\<close>

datatype Level = DebugLevel | InfoLevel | WarnLevel | ErrorLevel

definition parseLogLevel :: "string \<Rightarrow> Level \<times> error option" where
  "parseLogLevel s =
     (if s = ''debug'' then (DebugLevel, None)
      else if s = ''info'' then (InfoLevel, None)
      else if s = ''warn'' then (WarnLevel, None)
      else if s = ''error'' then (ErrorLevel, None)
      else (InfoLevel, Some (Error False (''invalid --log-level '' @ quoted s @ '': want one of debug|info|warn|error''))))"

record flags =
  metricsAddr :: string
  probeAddr :: string
  enableLeaderElection :: bool
  secureMetrics :: bool
  webhookCertPath :: string
  webhookCertName :: string
  webhookCertKey :: string
  metricsCertPath :: string
  metricsCertName :: string
  metricsCertKey :: string
  enableHTTP2 :: bool
  maxConcurrentReconciles :: int
  logLevel :: string
  githubHTTPTimeout :: duration

definition default_flags :: flags where
  "default_flags =
     \<lparr>metricsAddr = ''0'', probeAddr = '':8081'', enableLeaderElection = True, secureMetrics = True,
      webhookCertPath = [], webhookCertName = ''tls.crt'', webhookCertKey = ''tls.key'',
      metricsCertPath = [], metricsCertName = ''tls.crt'', metricsCertKey = ''tls.key'',
      enableHTTP2 = False, maxConcurrentReconciles = 1, logLevel = ''info'', githubHTTPTimeout = 10 * second\<rparr>"

record tls_config =
  NextProtos :: "string list"

definition disableHTTP2 :: "tls_config \<Rightarrow> tls_config" where
  "disableHTTP2 c = c\<lparr>NextProtos := [''http/1.1'']\<rparr>"

definition tlsOpts :: "flags \<Rightarrow> (tls_config \<Rightarrow> tls_config) list" where
  "tlsOpts fl = (if \<not> enableHTTP2 fl then [] @ [disableHTTP2] else [])"

record certificate =
  CertDir :: string
  CertName :: string
  KeyName :: string

record server_options =
  so_TLSOpts :: "(tls_config \<Rightarrow> tls_config) list"
  so_Cert :: certificate

definition no_certificate :: certificate where
  "no_certificate = \<lparr>CertDir = [], CertName = [], KeyName = []\<rparr>"

definition webhookServerOptions :: "flags \<Rightarrow> server_options" where
  "webhookServerOptions fl =
     (let opts = \<lparr>so_TLSOpts = tlsOpts fl, so_Cert = no_certificate\<rparr> in
      if length (webhookCertPath fl) > 0 then
        opts\<lparr>so_Cert := \<lparr>CertDir = webhookCertPath fl, CertName = webhookCertName fl, KeyName = webhookCertKey fl\<rparr>\<rparr>
      else opts)"

text \<open>\<open>FilterProvider\<close> is either unset or the provider that authenticates and authorises.\<close>

record metrics_options =
  mo_BindAddress :: string
  mo_SecureServing :: bool
  mo_TLSOpts :: "(tls_config \<Rightarrow> tls_config) list"
  mo_Authenticated :: bool
  mo_Cert :: certificate

definition metricsServerOptions :: "flags \<Rightarrow> metrics_options" where
  "metricsServerOptions fl =
     (let opts = \<lparr>mo_BindAddress = metricsAddr fl, mo_SecureServing = secureMetrics fl, mo_TLSOpts = tlsOpts fl,
                  mo_Authenticated = False, mo_Cert = no_certificate\<rparr>;
          opts = (if secureMetrics fl then opts\<lparr>mo_Authenticated := True\<rparr> else opts)
      in if length (metricsCertPath fl) > 0 then
           opts\<lparr>mo_Cert := \<lparr>CertDir = metricsCertPath fl, CertName = metricsCertName fl, KeyName = metricsCertKey fl\<rparr>\<rparr>
         else opts)"

record manager_options =
  mgr_Metrics :: metrics_options
  mgr_WebhookServer :: server_options
  mgr_HealthProbeBindAddress :: string
  mgr_LeaderElection :: bool
  mgr_LeaderElectionID :: string
  mgr_LeaderElectionReleaseOnCancel :: bool

definition managerOptions :: "flags \<Rightarrow> manager_options" where
  "managerOptions fl =
     \<lparr>mgr_Metrics = metricsServerOptions fl, mgr_WebhookServer = webhookServerOptions fl,
      mgr_HealthProbeBindAddress = probeAddr fl, mgr_LeaderElection = enableLeaderElection fl,
      mgr_LeaderElectionID = ''67406384.warmrunners.io'', mgr_LeaderElectionReleaseOnCancel = True\<rparr>"

text \<open>The calls on controller-runtime, in the order of \<open>main\<close>. The two controllers are registered with the
  options of their \<open>SetupWithManager\<close> methods: which resource, under which name, with how many workers
  (zero leaves the default), and whether only changes of the generation trigger a reconcile.\<close>

record registration =
  reg_For :: string
  reg_Named :: string
  reg_MaxConcurrentReconciles :: int
  reg_GenerationChanged :: bool

datatype setup_call =
    NewManager manager_options
  | AddMetricsServerExtraHandler string
  | SetupController registration
  | AddHealthzCheck string
  | AddReadyzCheck string
  | StartManager

definition GitHubApp_SetupWithManager :: registration where
  "GitHubApp_SetupWithManager =
     \<lparr>reg_For = ''GitHubApp'', reg_Named = ''githubapp'', reg_MaxConcurrentReconciles = 0,
      reg_GenerationChanged = False\<rparr>"

definition SetupWithManager :: "int \<Rightarrow> registration" where
  "SetupWithManager maxConcurrent =
     \<lparr>reg_For = ''WarmRunnerPolicy'', reg_Named = ''warmrunnerpolicy'',
      reg_MaxConcurrentReconciles = maxConcurrent, reg_GenerationChanged = True\<rparr>"

definition main_calls :: "flags \<Rightarrow> setup_call list" where
  "main_calls fl =
     [NewManager (managerOptions fl), AddMetricsServerExtraHandler ''/github/webhook'',
      SetupController GitHubApp_SetupWithManager, SetupController (SetupWithManager (maxConcurrentReconciles fl)),
      AddHealthzCheck ''healthz'', AddReadyzCheck ''readyz'', StartManager]"

text \<open>Each call's error ends the process with code 1; returning from the last one ends it with code 0.\<close>

fun run_calls :: "(setup_call \<Rightarrow> error option) \<Rightarrow> setup_call list \<Rightarrow> int \<times> setup_call list" where
  "run_calls runtime [] = (0, [])"
| "run_calls runtime (c # cs) =
     (case runtime c of
        Some err \<Rightarrow> (1, [c])
      | None \<Rightarrow> (let (code, made) = run_calls runtime cs in (code, c # made)))"

definition main :: "(setup_call \<Rightarrow> error option) \<Rightarrow> flags \<Rightarrow> int \<times> setup_call list" where
  "main runtime fl =
     (case parseLogLevel (logLevel fl) of
        (lvl, Some err) \<Rightarrow> (2, [])
      | (lvl, None) \<Rightarrow> run_calls runtime (main_calls fl))"

section \<open>Properties\<close>

lemma run_calls_prefix:
  assumes "run_calls runtime cs = (code, made)"
  shows "\<exists>rest. cs = made @ rest \<and> (\<forall>c \<in> set (butlast made). runtime c = None)
    \<and> (code = 0 \<longleftrightarrow> (\<forall>c \<in> set cs. runtime c = None)) \<and> code \<in> {0, 1} \<and> (code = 0 \<longrightarrow> rest = [])
    \<and> (code = 1 \<longrightarrow> made \<noteq> [] \<and> runtime (last made) \<noteq> None)"
  using assms
proof (induction runtime cs arbitrary: code made rule: run_calls.induct)
  case (2 runtime c cs)
  show ?case
  proof (cases "runtime c")
    case None
    obtain code' made' where rest: "run_calls runtime cs = (code', made')" by force
    with 2(2) None have "code = code'" "made = c # made'" by simp_all
    then show ?thesis using 2(1) [OF None rest] None by auto
  qed (use 2(2) in auto)
qed simp

definition tls_after :: "(tls_config \<Rightarrow> tls_config) list \<Rightarrow> tls_config \<Rightarrow> tls_config" where
  "tls_after opts c = fold (\<lambda>f c. f c) opts c"

lemma run_calls_starts:
  assumes "run_calls runtime (cs @ [last_call]) = (code, made)" "last_call \<notin> set cs"
  shows "last_call \<in> set made \<longleftrightarrow> (\<forall>c \<in> set cs. runtime c = None)"
  using assms
proof (induction cs arbitrary: code made)
  case (Cons c cs)
  obtain code' made' where rest: "run_calls runtime (cs @ [last_call]) = (code', made')" by force
  show ?case
    using Cons.IH [OF rest] Cons.prems rest by (cases "runtime c") auto
qed (auto split: option.splits)


text \<open>With the default flags the second controller cannot be registered.\<close>

definition example_runtime :: "setup_call \<Rightarrow> error option" where
  "example_runtime c =
     (case c of SetupController reg \<Rightarrow> if reg_For reg = ''WarmRunnerPolicy'' then Some (Error False ''name taken'') else None
      | _ \<Rightarrow> None)"


end
