(* ===== verification/Memory.thy ===== *)
theory Memory
  imports Api "HOL-Library.Monad_Syntax"
begin

text \<open>
  Go's memory, as far as copying needs it: a list of cells, in which an address is an index and allocation
  appends. A pointer is an address or nil, a slice is a window into the array a cell holds, or nil. What
  an operation does that reads a cell of another type is \<open>None\<close>.

  \<^item> \<open>copy_ptr\<close>, \<open>copy_slice\<close>: the two patterns of \<open>zz_generated.deepcopy.go\<close>, \<open>if in.X != nil \<dots> new(T)\<close> and
    \<open>if in.X != nil \<dots> make([]T, len(*in))\<close>, over the copy function of what is pointed at.
  \<^item> \<open>ptr_value\<close>, \<open>slice_value\<close>: the value behind a pointer or a slice, with nil told apart from empty.
  \<^item> The locale \<open>deep_copy\<close> is the contract of a \<open>DeepCopyInto\<close> method: on everything that has a value it
    returns, leaves the memory there was as it is, and its result has that same value in every memory that
    agrees on the new cells, whatever became of the old ones. The patterns keep the contract.
\<close>

section \<open>Cells, pointers and slices\<close>

type_synonym addr = nat

text \<open>How values of one type lie in a cell: writing, reading, and the cell \<open>new\<close> and \<open>make\<close> return.\<close>

record ('a, 'c) layout =
  lay_mk :: "'a \<Rightarrow> 'c"
  lay_get :: "'c \<Rightarrow> 'a option"
  lay_new :: 'c

definition layout_ok :: "('a, 'c) layout \<Rightarrow> bool" where
  "layout_ok L \<longleftrightarrow> (\<forall>x. lay_get L (lay_mk L x) = Some x)"

definition load :: "('a, 'c) layout \<Rightarrow> 'c list \<Rightarrow> addr \<Rightarrow> 'a option" where
  "load L h a = (if a < length h then lay_get L (h ! a) else None)"

record slice =
  sl_array :: addr
  sl_offset :: nat
  sl_len :: nat

section \<open>Copying\<close>

definition flat_copy :: "'a \<Rightarrow> 'c list \<Rightarrow> ('a \<times> 'c list) option" where
  "flat_copy x h = Some (x, h)"

text \<open>Allocate a cell, copy \<open>x\<close>, and write the copy there.\<close>

definition copy_new ::
  "('a, 'c) layout \<Rightarrow> ('a \<Rightarrow> 'c list \<Rightarrow> ('a \<times> 'c list) option) \<Rightarrow> 'a \<Rightarrow> 'c list \<Rightarrow> (addr \<times> 'c list) option" where
  "copy_new L into x h =
     do { (y, g) \<leftarrow> into x (h @ [lay_new L]);
          Some (length h, g[length h := lay_mk L y]) }"

definition copy_ptr ::
  "('a, 'c) layout \<Rightarrow> ('a \<Rightarrow> 'c list \<Rightarrow> ('a \<times> 'c list) option) \<Rightarrow>
    addr option \<Rightarrow> 'c list \<Rightarrow> (addr option \<times> 'c list) option" where
  "copy_ptr L into p h =
     (case p of
        None \<Rightarrow> Some (None, h)
      | Some a \<Rightarrow> do { x \<leftarrow> load L h a; (a', h) \<leftarrow> copy_new L into x h; Some (Some a', h) })"

text \<open>The loop over the elements, in their order.\<close>

fun copy_all :: "('a \<Rightarrow> 'c list \<Rightarrow> ('a \<times> 'c list) option) \<Rightarrow> 'a list \<Rightarrow> 'c list \<Rightarrow> ('a list \<times> 'c list) option" where
  "copy_all into [] h = Some ([], h)"
| "copy_all into (x # xs) h =
     do { (y, h) \<leftarrow> into x h; (ys, h) \<leftarrow> copy_all into xs h; Some (y # ys, h) }"

definition elements :: "('a list, 'c) layout \<Rightarrow> 'c list \<Rightarrow> slice \<Rightarrow> 'a list option" where
  "elements L h s =
     do { xs \<leftarrow> load L h (sl_array s);
          if sl_offset s + sl_len s \<le> length xs then Some (take (sl_len s) (drop (sl_offset s) xs)) else None }"

definition copy_slice ::
  "('a list, 'c) layout \<Rightarrow> ('a \<Rightarrow> 'c list \<Rightarrow> ('a \<times> 'c list) option) \<Rightarrow>
    slice option \<Rightarrow> 'c list \<Rightarrow> (slice option \<times> 'c list) option" where
  "copy_slice L into s h =
     (case s of
        None \<Rightarrow> Some (None, h)
      | Some sl \<Rightarrow>
          do { xs \<leftarrow> elements L h sl;
               (a, h) \<leftarrow> copy_new L (copy_all into) xs h;
               Some (Some \<lparr>sl_array = a, sl_offset = 0, sl_len = length xs\<rparr>, h) })"

section \<open>Values\<close>

definition flat_value :: "'c list \<Rightarrow> 'a \<Rightarrow> 'a option" where
  "flat_value h x = Some x"

definition cell_value ::
  "('a, 'c) layout \<Rightarrow> ('c list \<Rightarrow> 'a \<Rightarrow> 'v option) \<Rightarrow> 'c list \<Rightarrow> addr \<Rightarrow> 'v option" where
  "cell_value L reads h a = do { x \<leftarrow> load L h a; reads h x }"

definition ptr_value ::
  "('a, 'c) layout \<Rightarrow> ('c list \<Rightarrow> 'a \<Rightarrow> 'v option) \<Rightarrow> 'c list \<Rightarrow> addr option \<Rightarrow> 'v option option" where
  "ptr_value L reads h p =
     (case p of None \<Rightarrow> Some None | Some a \<Rightarrow> map_option Some (cell_value L reads h a))"

definition all_value :: "('c list \<Rightarrow> 'a \<Rightarrow> 'v option) \<Rightarrow> 'c list \<Rightarrow> 'a list \<Rightarrow> 'v list option" where
  "all_value reads h xs = those (map (reads h) xs)"

definition slice_value ::
  "('a list, 'c) layout \<Rightarrow> ('c list \<Rightarrow> 'a \<Rightarrow> 'v option) \<Rightarrow> 'c list \<Rightarrow> slice option \<Rightarrow> 'v list option option" where
  "slice_value L reads h s =
     (case s of
        None \<Rightarrow> Some None
      | Some sl \<Rightarrow> map_option Some (do { xs \<leftarrow> elements L h sl; all_value reads h xs }))"

definition copy_pair ::
  "('a \<Rightarrow> 'c list \<Rightarrow> ('a \<times> 'c list) option) \<Rightarrow> ('b \<Rightarrow> 'c list \<Rightarrow> ('b \<times> 'c list) option) \<Rightarrow>
    'a \<times> 'b \<Rightarrow> 'c list \<Rightarrow> (('a \<times> 'b) \<times> 'c list) option" where
  "copy_pair f g p h = do { (x, h) \<leftarrow> f (fst p) h; (y, h) \<leftarrow> g (snd p) h; Some ((x, y), h) }"

definition pair_value ::
  "('c list \<Rightarrow> 'a \<Rightarrow> 'v option) \<Rightarrow> ('c list \<Rightarrow> 'b \<Rightarrow> 'w option) \<Rightarrow> 'c list \<Rightarrow> 'a \<times> 'b \<Rightarrow> ('v \<times> 'w) option" where
  "pair_value F G h p = do { x \<leftarrow> F h (fst p); y \<leftarrow> G h (snd p); Some (x, y) }"

section \<open>The contract\<close>

text \<open>\<open>x\<close> has the value \<open>t\<close>, and all of it lies in the cells of \<open>h\<close> from \<open>n\<close> on.\<close>

definition owned :: "('c list \<Rightarrow> 'a \<Rightarrow> 'v option) \<Rightarrow> nat \<Rightarrow> 'c list \<Rightarrow> 'a \<Rightarrow> 'v \<Rightarrow> bool" where
  "owned reads n h x t \<longleftrightarrow>
     (\<forall>g. length h \<le> length g \<longrightarrow> (\<forall>i. n \<le> i \<longrightarrow> i < length h \<longrightarrow> g ! i = h ! i) \<longrightarrow> reads g x = Some t)"

lemma ownedD:
  "owned reads n h x t \<Longrightarrow> length h \<le> length g \<Longrightarrow> (\<And>i. n \<le> i \<Longrightarrow> i < length h \<Longrightarrow> g ! i = h ! i) \<Longrightarrow> reads g x = Some t"
  by (simp add: owned_def)

lemma owned_reads: "owned reads n h x t \<Longrightarrow> reads h x = Some t"
  by (simp add: owned_def)

lemma prefix_nth: "prefix h g \<Longrightarrow> i < length h \<Longrightarrow> g ! i = h ! i"
  by (auto simp: prefix_def nth_append)

lemma owned_mono:
  assumes "owned reads n h x t" "m \<le> n" "prefix h g"
  shows "owned reads m g x t"
  unfolding owned_def
proof (intro allI impI)
  fix g' assume g': "length g \<le> length g'" "\<forall>i. m \<le> i \<longrightarrow> i < length g \<longrightarrow> g' ! i = g ! i"
  have len: "length h \<le> length g" using assms(3) by (rule prefix_length_le)
  show "reads g' x = Some t"
    by (rule ownedD [OF assms(1)]) (use g' len assms(2) prefix_nth [OF assms(3)] in auto)
qed

lemma owned_write: "owned reads (Suc n) h x t \<Longrightarrow> owned reads n (h[n := c]) x t"
  by (auto simp: owned_def)

locale deep_copy =
  fixes copy :: "'a \<Rightarrow> 'c list \<Rightarrow> ('a \<times> 'c list) option"
    and reads :: "'c list \<Rightarrow> 'a \<Rightarrow> 'v option"
  assumes reads_later: "reads h x = Some t \<Longrightarrow> prefix h g \<Longrightarrow> reads g x = Some t"
    and copies: "reads h x = Some t \<Longrightarrow>
      \<exists>y g. copy x h = Some (y, g) \<and> prefix h g \<and> owned reads (length h) g y t"
begin

lemma copies_later:
  assumes "reads h x = Some t" "prefix h g"
  obtains y g' where "copy x g = Some (y, g')" "prefix g g'" "owned reads (length g) g' y t"
  using copies [OF reads_later [OF assms]] by blast

text \<open>What the copy and the original are worth afterwards: the copy does not depend on the old cells, the
  original not on the new ones.\<close>

lemma independent:
  assumes "reads h x = Some t"
  shows "\<exists>y new. copy x h = Some (y, h @ new)
    \<and> (\<forall>old more. length old = length h \<longrightarrow> reads (old @ new @ more) y = Some t)
    \<and> (\<forall>other. reads (h @ other) x = Some t)"
proof -
  obtain y g where c: "copy x h = Some (y, g)" "prefix h g" "owned reads (length h) g y t"
    using copies [OF assms] by blast
  from c(2) obtain new where g: "g = h @ new" by (auto simp: prefix_def)
  have "reads (old @ new @ more) y = Some t" if "length old = length h" for old more
    by (rule ownedD [OF c(3)]) (use that in \<open>auto simp: g nth_append\<close>)
  moreover have "reads (h @ other) x = Some t" for other using reads_later [OF assms] by (simp add: prefix_def)
  ultimately show ?thesis using c(1) g by blast
qed

lemma new_cell:
  assumes "layout_ok L" "reads h x = Some t"
  obtains a g where "copy_new L copy x h = Some (a, g)" "prefix h g" "owned (cell_value L reads) (length h) g a t"
proof -
  let ?n = "length h"
  obtain y g where c: "copy x (h @ [lay_new L]) = Some (y, g)" "prefix (h @ [lay_new L]) g"
      "owned reads (length (h @ [lay_new L])) g y t"
    using copies_later [OF assms(2), of "h @ [lay_new L]"] by auto
  from c(2) obtain e where g: "g = h @ lay_new L # e" by (auto simp: prefix_def)
  let ?g = "g[?n := lay_mk L y]"
  have w: "owned reads ?n ?g y t" using owned_write c(3) by simp
  have "owned (cell_value L reads) ?n ?g ?n t"
    unfolding owned_def
  proof (intro allI impI)
    fix g' assume g': "length ?g \<le> length g'" "\<forall>i. ?n \<le> i \<longrightarrow> i < length ?g \<longrightarrow> g' ! i = ?g ! i"
    have "load L g' ?n = Some y" using g' assms(1) by (simp add: load_def g layout_ok_def)
    moreover have "reads g' y = Some t" by (rule ownedD [OF w]) (use g' in auto)
    ultimately show "cell_value L reads g' ?n = Some t" by (simp add: cell_value_def)
  qed
  moreover have "prefix h ?g" by (simp add: g prefix_def)
  ultimately show thesis using that c(1) by (simp add: copy_new_def)
qed

end

section \<open>The patterns keep the contract\<close>

lemma load_later: "load L h a = Some x \<Longrightarrow> prefix h g \<Longrightarrow> load L g a = Some x"
  using prefix_length_le prefix_nth by (fastforce simp: load_def split: if_splits)

interpretation flat: deep_copy flat_copy flat_value
  by unfold_locales (simp_all add: flat_copy_def flat_value_def owned_def)

lemma deep_copy_ptr:
  assumes "layout_ok L" "deep_copy into reads"
  shows "deep_copy (copy_ptr L into) (ptr_value L reads)"
proof
  fix h p t g assume v: "ptr_value L reads h p = Some t" and g: "prefix h g"
  show "ptr_value L reads g p = Some t"
    using v by (auto simp: ptr_value_def cell_value_def bind_eq_Some_conv split: option.splits
        dest: load_later [OF _ g] deep_copy.reads_later [OF assms(2) _ g])
next
  fix h p t assume v: "ptr_value L reads h p = Some t"
  show "\<exists>y g. copy_ptr L into p h = Some (y, g) \<and> prefix h g \<and> owned (ptr_value L reads) (length h) g y t"
  proof (cases p)
    case None
    then show ?thesis using v by (simp add: copy_ptr_def ptr_value_def owned_def)
  next
    case (Some a)
    then obtain x t' where x: "load L h a = Some x" "reads h x = Some t'" "t = Some t'"
      using v by (auto simp: ptr_value_def cell_value_def bind_eq_Some_conv)
    obtain a' g where c: "copy_new L into x h = Some (a', g)" "prefix h g" "owned (cell_value L reads) (length h) g a' t'"
      by (rule deep_copy.new_cell [OF assms(2,1) x(2)])
    then have "owned (ptr_value L reads) (length h) g (Some a') t" by (simp add: owned_def ptr_value_def x(3))
    then show ?thesis using c(1,2) x(1) Some by (simp add: copy_ptr_def)
  qed
qed

lemma all_value_Cons:
  "all_value reads h (x # xs) = do { t \<leftarrow> reads h x; ts \<leftarrow> all_value reads h xs; Some (t # ts) }"
  by (auto simp: all_value_def split: option.splits bind_splits)

lemma all_value_Nil [simp]: "all_value reads h [] = Some []"
  by (simp add: all_value_def)

lemma all_value_length: "all_value reads h xs = Some ts \<Longrightarrow> length ts = length xs"
  by (induction xs arbitrary: ts) (auto simp: all_value_Cons bind_eq_Some_conv)

lemma all_value_later:
  assumes "deep_copy into reads" "all_value reads h xs = Some ts" and g: "prefix h g"
  shows "all_value reads g xs = Some ts"
  using assms(2) by (induction xs arbitrary: ts)
    (auto simp: all_value_Cons bind_eq_Some_conv dest: deep_copy.reads_later [OF assms(1) _ g])

lemma deep_copy_all:
  assumes "deep_copy into reads"
  shows "deep_copy (copy_all into) (all_value reads)"
proof
  fix h xs ts g assume "all_value reads h xs = Some ts" "prefix h g"
  then show "all_value reads g xs = Some ts" by (rule all_value_later [OF assms])
next
  fix h xs ts assume "all_value reads h xs = Some ts"
  then show "\<exists>ys g. copy_all into xs h = Some (ys, g) \<and> prefix h g \<and> owned (all_value reads) (length h) g ys ts"
  proof (induction xs arbitrary: ts h)
    case Nil
    then show ?case by (simp add: owned_def)
  next
    case (Cons x xs)
    then obtain t ts' where t: "reads h x = Some t" "all_value reads h xs = Some ts'" "ts = t # ts'"
      by (auto simp: all_value_Cons bind_eq_Some_conv)
    obtain y g where c: "into x h = Some (y, g)" "prefix h g" "owned reads (length h) g y t"
      using deep_copy.copies [OF assms t(1)] by blast
    obtain ys g' where cs: "copy_all into xs g = Some (ys, g')" "prefix g g'" "owned (all_value reads) (length g) g' ys ts'"
      using Cons.IH [OF all_value_later [OF assms t(2) c(2)]] by blast
    have "owned reads (length h) g' y t" using owned_mono [OF c(3) _ cs(2)] by simp
    moreover have "owned (all_value reads) (length h) g' ys ts'"
      using owned_mono [OF cs(3) prefix_length_le [OF c(2)]] by simp
    ultimately have "owned (all_value reads) (length h) g' (y # ys) ts"
      by (simp add: owned_def all_value_Cons t(3))
    then show ?case using c(1,2) cs(1,2) by (auto intro: prefix_order.trans)
  qed
qed

lemma elements_later:
  assumes "elements L h s = Some xs" "prefix h g"
  shows "elements L g s = Some xs"
proof -
  obtain ys where "load L h (sl_array s) = Some ys" using assms(1) by (auto simp: elements_def bind_eq_Some_conv)
  then show ?thesis using assms(1) load_later [OF _ assms(2), of L "sl_array s" ys] by (simp add: elements_def)
qed

lemma deep_copy_slice:
  assumes "layout_ok L" "deep_copy into reads"
  shows "deep_copy (copy_slice L into) (slice_value L reads)"
proof
  fix h s t g assume v: "slice_value L reads h s = Some t" and g: "prefix h g"
  show "slice_value L reads g s = Some t"
    using v by (auto simp: slice_value_def bind_eq_Some_conv split: option.splits
        dest: elements_later [OF _ g] all_value_later [OF assms(2) _ g])
next
  fix h s t assume v: "slice_value L reads h s = Some t"
  show "\<exists>y g. copy_slice L into s h = Some (y, g) \<and> prefix h g \<and> owned (slice_value L reads) (length h) g y t"
  proof (cases s)
    case None
    then show ?thesis using v by (simp add: copy_slice_def slice_value_def owned_def)
  next
    case (Some sl)
    then obtain xs ts where x: "elements L h sl = Some xs" "all_value reads h xs = Some ts" "t = Some ts"
      using v by (auto simp: slice_value_def bind_eq_Some_conv)
    obtain a g where c: "copy_new L (copy_all into) xs h = Some (a, g)" "prefix h g"
        "owned (cell_value L (all_value reads)) (length h) g a ts"
      by (rule deep_copy.new_cell [OF deep_copy_all [OF assms(2)] assms(1) x(2)])
    let ?s = "\<lparr>sl_array = a, sl_offset = 0, sl_len = length xs\<rparr>"
    have "slice_value L reads g' (Some ?s) = Some t" if v: "cell_value L (all_value reads) g' a = Some ts" for g'
    proof -
      obtain ys where ys: "load L g' a = Some ys" "all_value reads g' ys = Some ts"
        using v by (auto simp: cell_value_def bind_eq_Some_conv)
      then have "length ys = length xs" using x(2) all_value_length by metis
      then show ?thesis using ys by (simp add: slice_value_def elements_def x(3))
    qed
    then have "owned (slice_value L reads) (length h) g (Some ?s) t" using c(3) by (auto simp: owned_def)
    then show ?thesis using c(1,2) x(1) Some by (simp add: copy_slice_def)
  qed
qed

lemma deep_copy_pair:
  assumes "deep_copy f F" "deep_copy g G"
  shows "deep_copy (copy_pair f g) (pair_value F G)"
proof
  fix h p t k assume v: "pair_value F G h p = Some t" and k: "prefix h k"
  show "pair_value F G k p = Some t"
    using v by (auto simp: pair_value_def bind_eq_Some_conv
        dest: deep_copy.reads_later [OF assms(1) _ k] deep_copy.reads_later [OF assms(2) _ k])
next
  fix h p t assume "pair_value F G h p = Some t"
  then obtain s u where v: "F h (fst p) = Some s" "G h (snd p) = Some u" "t = (s, u)"
    by (auto simp: pair_value_def bind_eq_Some_conv)
  obtain x h1 where x: "f (fst p) h = Some (x, h1)" "prefix h h1" "owned F (length h) h1 x s"
    using deep_copy.copies [OF assms(1) v(1)] by blast
  obtain y h2 where y: "g (snd p) h1 = Some (y, h2)" "prefix h1 h2" "owned G (length h1) h2 y u"
    by (rule deep_copy.copies_later [OF assms(2) v(2) x(2)])
  have "owned F (length h) h2 x s" "owned G (length h) h2 y u"
    using owned_mono [OF x(3) _ y(2)] owned_mono [OF y(3) prefix_length_le [OF x(2)]] by simp_all
  then have "owned (pair_value F G) (length h) h2 (x, y) t" by (simp add: owned_def pair_value_def v(3))
  then show "\<exists>y g'. copy_pair f g p h = Some (y, g') \<and> prefix h g' \<and> owned (pair_value F G) (length h) g' y t"
    using x(1,2) y(1,2) by (auto simp: copy_pair_def intro: prefix_order.trans)
qed

text \<open>A struct: \<open>*out = *in\<close> keeps the plain fields \<open>rest\<close>, and the fields \<open>get\<close> gives are copied.\<close>

lemma deep_copy_struct:
  assumes "deep_copy f F" "\<And>x p. get (put x p) = p" "\<And>x p. rest (put x p) = rest x"
    and "\<And>x h. copy x h = do { (p, h) \<leftarrow> f (get x) h; Some (put x p, h) }"
    and "\<And>h x. reads h x = do { t \<leftarrow> F h (get x); Some (mk (rest x) t) }"
  shows "deep_copy copy reads"
proof
  fix h x t g assume v: "reads h x = Some t" and g: "prefix h g"
  show "reads g x = Some t"
    using v by (auto simp: assms(5) bind_eq_Some_conv dest: deep_copy.reads_later [OF assms(1) _ g])
next
  fix h x t assume "reads h x = Some t"
  then obtain s where s: "F h (get x) = Some s" "t = mk (rest x) s" by (auto simp: assms(5) bind_eq_Some_conv)
  obtain p g where p: "f (get x) h = Some (p, g)" "prefix h g" "owned F (length h) g p s"
    using deep_copy.copies [OF assms(1) s(1)] by blast
  have "owned reads (length h) g (put x p) t" using p(3) by (simp add: owned_def assms(2,3,5) s(2))
  then show "\<exists>y g. copy x h = Some (y, g) \<and> prefix h g \<and> owned reads (length h) g y t"
    using p(1,2) by (simp add: assms(4))
qed

end
