(* ===== verification/DeepCopy.thy ===== *)
theory DeepCopy
  imports Memory
begin

text \<open>
  The deep copies of the API types (\<open>api/v1alpha1/zz_generated.deepcopy.go\<close>), in memory. Elsewhere in this
  library an API object is a value; here it is what Go has, a struct with pointers and slices, and the
  theorem says that the values are what the copies preserve.

  \<open>T_mem\<close> is the struct \<open>T\<close> with its pointers and slices; a struct without any is the record of theory Api.
  \<open>T_DeepCopyInto\<close> takes \<open>*in\<close> and returns what it leaves in \<open>*out\<close>, and the memory. \<open>T_DeepCopy\<close> is its use on a
  pointer, which may be nil. Cells are typed (datatype \<open>cell\<close>); \<open>Zeroed\<close> is what \<open>new\<close> and \<open>make\<close> return and is
  written before it is read.

  The copy functions of Kubernetes' own types are arguments (record \<open>external\<close>): \<open>metav1.ObjectMeta\<close>,
  \<open>metav1.ListMeta\<close> and \<open>corev1.SecretKeySelector\<close>, whose structs are of the type \<open>'x\<close>, \<open>metav1.Condition\<close> and
  \<open>metav1.Time\<close>. \<open>external_ok\<close> says that they are deep copies, as they are documented.
\<close>

section \<open>The structs in memory\<close>

record ActivityConfig_mem =
  acm_Enabled :: bool
  acm_WindowSeconds :: int32
  acm_BotLoginDenylist :: "slice option"

record 'x AuthRef_mem =
  aum_SecretRef :: 'x

record 'x GitHubConfig_mem =
  ghm_Owner :: string
  ghm_Repository :: string
  ghm_Labels :: "slice option"
  ghm_Auth :: "'x AuthRef_mem"

record Target_mem =
  tgm_Arc :: "addr option"
  tgm_Garm :: "addr option"

record ScheduleWindow_mem =
  swm_Days :: "slice option"
  swm_From :: string
  swm_To :: string
  swm_TZ :: string
  swm_Base :: int32

record PredictedLabelSet_mem =
  plm_Labels :: "slice option"
  plm_Count :: int32

record 'x WarmRunnerPolicySpec_mem =
  spm_GitHub :: "'x GitHubConfig_mem"
  spm_Target :: Target_mem
  spm_Floor :: FloorRange
  spm_Schedule :: "slice option"
  spm_QueueRule :: QueueRule
  spm_Predictor :: "addr option"
  spm_Activity :: "addr option"
  spm_DryRun :: bool
  spm_GitHubAppRef :: "addr option"
  spm_ActiveWindowSeconds :: "addr option"

record WarmRunnerPolicyStatus_mem =
  stm_DesiredFloor :: int32
  stm_AppliedFloor :: int32
  stm_LastQueueDepth :: int32
  stm_LastReconcileTime :: "addr option"
  stm_LastDecreaseTime :: "addr option"
  stm_PredictedFloor :: int32
  stm_PredictedLabelSets :: "slice option"
  stm_ActivityFloor :: int32
  stm_ActivityLabelSets :: "slice option"
  stm_DryRun :: bool
  stm_ActiveUntil :: "addr option"
  stm_LastEventSource :: string
  stm_Conditions :: "slice option"

record TypeMeta =
  tm_Kind :: string
  tm_APIVersion :: string

record 'x WarmRunnerPolicy_mem =
  pom_TypeMeta :: TypeMeta
  pom_ObjectMeta :: 'x
  pom_Spec :: "'x WarmRunnerPolicySpec_mem"
  pom_Status :: WarmRunnerPolicyStatus_mem

record 'x WarmRunnerPolicyList_mem =
  plist_TypeMeta :: TypeMeta
  plist_ListMeta :: 'x
  plist_Items :: "slice option"

record GitHubAppIngress_mem =
  inm_Mode :: string
  inm_Hostname :: string
  inm_Tunnel :: "addr option"

record GitHubAppSpec_mem =
  apm_AppID :: int64
  apm_PrivateKeyRef :: SecretKeyRef
  apm_WebhookSecretRef :: SecretKeyRef
  apm_Ingress :: GitHubAppIngress_mem

record GitHubAppStatus_mem =
  asm_Installations :: "slice option"
  asm_WebhookHealthy :: bool
  asm_LastDelivery :: "addr option"
  asm_Conditions :: "slice option"

record 'x GitHubApp_mem =
  gam_TypeMeta :: TypeMeta
  gam_ObjectMeta :: 'x
  gam_Spec :: GitHubAppSpec_mem
  gam_Status :: GitHubAppStatus_mem

record 'x GitHubAppList_mem =
  alist_TypeMeta :: TypeMeta
  alist_ListMeta :: 'x
  alist_Items :: "slice option"

section \<open>Memory\<close>

datatype 'x cell =
    Zeroed
  | StringArray (strings_of: "string list")
  | WindowArray (windows_of: "ScheduleWindow_mem list")
  | LabelSetArray (label_sets_of: "PredictedLabelSet_mem list")
  | ConditionArray (conditions_of: "Condition list")
  | InstallationArray (installations_of: "Installation list")
  | PolicyArray (policies_of: "'x WarmRunnerPolicy_mem list")
  | AppArray (apps_of: "'x GitHubApp_mem list")
  | Int32Cell (int32_of: int32)
  | TimeCell (time_of: time)
  | ForeignCell (foreign_of: 'x)
  | ActivityConfigCell (ActivityConfig_of: ActivityConfig_mem)
  | ArcTargetCell (ArcTarget_of: ArcTarget)
  | AuthRefCell (AuthRef_of: "'x AuthRef_mem")
  | FloorRangeCell (FloorRange_of: FloorRange)
  | GarmTargetCell (GarmTarget_of: GarmTarget)
  | GitHubAppCell (GitHubApp_of: "'x GitHubApp_mem")
  | GitHubAppIngressCell (GitHubAppIngress_of: GitHubAppIngress_mem)
  | GitHubAppListCell (GitHubAppList_of: "'x GitHubAppList_mem")
  | GitHubAppSpecCell (GitHubAppSpec_of: GitHubAppSpec_mem)
  | GitHubAppStatusCell (GitHubAppStatus_of: GitHubAppStatus_mem)
  | GitHubConfigCell (GitHubConfig_of: "'x GitHubConfig_mem")
  | InstallationCell (Installation_of: Installation)
  | LocalObjectRefCell (LocalObjectRef_of: LocalObjectRef)
  | PredictedLabelSetCell (PredictedLabelSet_of: PredictedLabelSet_mem)
  | PredictorConfigCell (PredictorConfig_of: PredictorConfig)
  | QueueRuleCell (QueueRule_of: QueueRule)
  | RefNSCell (RefNS_of: RefNS)
  | ScheduleWindowCell (ScheduleWindow_of: ScheduleWindow_mem)
  | SecretKeyRefCell (SecretKeyRef_of: SecretKeyRef)
  | TargetCell (Target_of: Target_mem)
  | TunnelSpecCell (TunnelSpec_of: TunnelSpec)
  | WarmRunnerPolicyCell (WarmRunnerPolicy_of: "'x WarmRunnerPolicy_mem")
  | WarmRunnerPolicyListCell (WarmRunnerPolicyList_of: "'x WarmRunnerPolicyList_mem")
  | WarmRunnerPolicySpecCell (WarmRunnerPolicySpec_of: "'x WarmRunnerPolicySpec_mem")
  | WarmRunnerPolicyStatusCell (WarmRunnerPolicyStatus_of: WarmRunnerPolicyStatus_mem)

type_synonym 'x memory = "'x cell list"

definition typed :: "('x cell \<Rightarrow> bool) \<Rightarrow> ('x cell \<Rightarrow> 'a) \<Rightarrow> ('a \<Rightarrow> 'x cell) \<Rightarrow> ('a, 'x cell) layout" where
  "typed is_cell content mk =
     \<lparr>lay_mk = mk, lay_get = (\<lambda>c. if is_cell c then Some (content c) else None), lay_new = Zeroed\<rparr>"

lemma typed_ok [simp]: "(\<And>x. is_cell (mk x)) \<Longrightarrow> (\<And>x. content (mk x) = x) \<Longrightarrow> layout_ok (typed is_cell content mk)"
  by (simp add: layout_ok_def typed_def)

abbreviation string_array :: "(string list, 'x cell) layout" where "string_array \<equiv> typed is_StringArray strings_of StringArray"
abbreviation window_array :: "(ScheduleWindow_mem list, 'x cell) layout" where "window_array \<equiv> typed is_WindowArray windows_of WindowArray"
abbreviation label_set_array :: "(PredictedLabelSet_mem list, 'x cell) layout" where "label_set_array \<equiv> typed is_LabelSetArray label_sets_of LabelSetArray"
abbreviation condition_array :: "(Condition list, 'x cell) layout" where "condition_array \<equiv> typed is_ConditionArray conditions_of ConditionArray"
abbreviation installation_array :: "(Installation list, 'x cell) layout" where "installation_array \<equiv> typed is_InstallationArray installations_of InstallationArray"
abbreviation policy_array :: "('x WarmRunnerPolicy_mem list, 'x cell) layout" where "policy_array \<equiv> typed is_PolicyArray policies_of PolicyArray"
abbreviation app_array :: "('x GitHubApp_mem list, 'x cell) layout" where "app_array \<equiv> typed is_AppArray apps_of AppArray"
abbreviation int32_cell :: "(int32, 'x cell) layout" where "int32_cell \<equiv> typed is_Int32Cell int32_of Int32Cell"
abbreviation time_cell :: "(time, 'x cell) layout" where "time_cell \<equiv> typed is_TimeCell time_of TimeCell"
abbreviation ActivityConfig_cell :: "(ActivityConfig_mem, 'x cell) layout" where "ActivityConfig_cell \<equiv> typed is_ActivityConfigCell ActivityConfig_of ActivityConfigCell"
abbreviation ArcTarget_cell :: "(ArcTarget, 'x cell) layout" where "ArcTarget_cell \<equiv> typed is_ArcTargetCell ArcTarget_of ArcTargetCell"
abbreviation AuthRef_cell :: "('x AuthRef_mem, 'x cell) layout" where "AuthRef_cell \<equiv> typed is_AuthRefCell AuthRef_of AuthRefCell"
abbreviation FloorRange_cell :: "(FloorRange, 'x cell) layout" where "FloorRange_cell \<equiv> typed is_FloorRangeCell FloorRange_of FloorRangeCell"
abbreviation GarmTarget_cell :: "(GarmTarget, 'x cell) layout" where "GarmTarget_cell \<equiv> typed is_GarmTargetCell GarmTarget_of GarmTargetCell"
abbreviation GitHubApp_cell :: "('x GitHubApp_mem, 'x cell) layout" where "GitHubApp_cell \<equiv> typed is_GitHubAppCell GitHubApp_of GitHubAppCell"
abbreviation GitHubAppIngress_cell :: "(GitHubAppIngress_mem, 'x cell) layout" where "GitHubAppIngress_cell \<equiv> typed is_GitHubAppIngressCell GitHubAppIngress_of GitHubAppIngressCell"
abbreviation GitHubAppList_cell :: "('x GitHubAppList_mem, 'x cell) layout" where "GitHubAppList_cell \<equiv> typed is_GitHubAppListCell GitHubAppList_of GitHubAppListCell"
abbreviation GitHubAppSpec_cell :: "(GitHubAppSpec_mem, 'x cell) layout" where "GitHubAppSpec_cell \<equiv> typed is_GitHubAppSpecCell GitHubAppSpec_of GitHubAppSpecCell"
abbreviation GitHubAppStatus_cell :: "(GitHubAppStatus_mem, 'x cell) layout" where "GitHubAppStatus_cell \<equiv> typed is_GitHubAppStatusCell GitHubAppStatus_of GitHubAppStatusCell"
abbreviation GitHubConfig_cell :: "('x GitHubConfig_mem, 'x cell) layout" where "GitHubConfig_cell \<equiv> typed is_GitHubConfigCell GitHubConfig_of GitHubConfigCell"
abbreviation Installation_cell :: "(Installation, 'x cell) layout" where "Installation_cell \<equiv> typed is_InstallationCell Installation_of InstallationCell"
abbreviation LocalObjectRef_cell :: "(LocalObjectRef, 'x cell) layout" where "LocalObjectRef_cell \<equiv> typed is_LocalObjectRefCell LocalObjectRef_of LocalObjectRefCell"
abbreviation PredictedLabelSet_cell :: "(PredictedLabelSet_mem, 'x cell) layout" where "PredictedLabelSet_cell \<equiv> typed is_PredictedLabelSetCell PredictedLabelSet_of PredictedLabelSetCell"
abbreviation PredictorConfig_cell :: "(PredictorConfig, 'x cell) layout" where "PredictorConfig_cell \<equiv> typed is_PredictorConfigCell PredictorConfig_of PredictorConfigCell"
abbreviation QueueRule_cell :: "(QueueRule, 'x cell) layout" where "QueueRule_cell \<equiv> typed is_QueueRuleCell QueueRule_of QueueRuleCell"
abbreviation RefNS_cell :: "(RefNS, 'x cell) layout" where "RefNS_cell \<equiv> typed is_RefNSCell RefNS_of RefNSCell"
abbreviation ScheduleWindow_cell :: "(ScheduleWindow_mem, 'x cell) layout" where "ScheduleWindow_cell \<equiv> typed is_ScheduleWindowCell ScheduleWindow_of ScheduleWindowCell"
abbreviation SecretKeyRef_cell :: "(SecretKeyRef, 'x cell) layout" where "SecretKeyRef_cell \<equiv> typed is_SecretKeyRefCell SecretKeyRef_of SecretKeyRefCell"
abbreviation Target_cell :: "(Target_mem, 'x cell) layout" where "Target_cell \<equiv> typed is_TargetCell Target_of TargetCell"
abbreviation TunnelSpec_cell :: "(TunnelSpec, 'x cell) layout" where "TunnelSpec_cell \<equiv> typed is_TunnelSpecCell TunnelSpec_of TunnelSpecCell"
abbreviation WarmRunnerPolicy_cell :: "('x WarmRunnerPolicy_mem, 'x cell) layout" where "WarmRunnerPolicy_cell \<equiv> typed is_WarmRunnerPolicyCell WarmRunnerPolicy_of WarmRunnerPolicyCell"
abbreviation WarmRunnerPolicyList_cell :: "('x WarmRunnerPolicyList_mem, 'x cell) layout" where "WarmRunnerPolicyList_cell \<equiv> typed is_WarmRunnerPolicyListCell WarmRunnerPolicyList_of WarmRunnerPolicyListCell"
abbreviation WarmRunnerPolicySpec_cell :: "('x WarmRunnerPolicySpec_mem, 'x cell) layout" where "WarmRunnerPolicySpec_cell \<equiv> typed is_WarmRunnerPolicySpecCell WarmRunnerPolicySpec_of WarmRunnerPolicySpecCell"
abbreviation WarmRunnerPolicyStatus_cell :: "(WarmRunnerPolicyStatus_mem, 'x cell) layout" where "WarmRunnerPolicyStatus_cell \<equiv> typed is_WarmRunnerPolicyStatusCell WarmRunnerPolicyStatus_of WarmRunnerPolicyStatusCell"

text \<open>Kubernetes' own copy functions.\<close>

record 'x external =
  x_ObjectMeta :: "'x \<Rightarrow> 'x memory \<Rightarrow> ('x \<times> 'x memory) option"
  x_ListMeta :: "'x \<Rightarrow> 'x memory \<Rightarrow> ('x \<times> 'x memory) option"
  x_SecretKeySelector :: "'x \<Rightarrow> 'x memory \<Rightarrow> ('x \<times> 'x memory) option"
  x_Condition :: "Condition \<Rightarrow> 'x memory \<Rightarrow> (Condition \<times> 'x memory) option"
  x_Time :: "addr \<Rightarrow> 'x memory \<Rightarrow> (addr \<times> 'x memory) option"

text \<open>\<open>if in.X != nil { *out = (*in).DeepCopy() }\<close> for a time.\<close>

definition copy_time :: "'x external \<Rightarrow> addr option \<Rightarrow> 'x memory \<Rightarrow> (addr option \<times> 'x memory) option" where
  "copy_time E p h =
     (case p of None \<Rightarrow> Some (None, h) | Some a \<Rightarrow> do { (a', h) \<leftarrow> x_Time E a h; Some (Some a', h) })"

section \<open>The copy functions\<close>

text \<open>The parts of a struct come before it, otherwise the order is that of the file. Each starts from \<open>*out = *in\<close>.\<close>

definition ActivityConfig_DeepCopyInto :: "ActivityConfig_mem \<Rightarrow> 'x memory \<Rightarrow> (ActivityConfig_mem \<times> 'x memory) option" where
  "ActivityConfig_DeepCopyInto c h =
     do { (botLoginDenylist, h) \<leftarrow> copy_slice string_array flat_copy (acm_BotLoginDenylist c) h;
          Some (c\<lparr>acm_BotLoginDenylist := botLoginDenylist\<rparr>, h) }"

definition ActivityConfig_DeepCopy :: "addr option \<Rightarrow> 'x memory \<Rightarrow> (addr option \<times> 'x memory) option" where
  "ActivityConfig_DeepCopy = copy_ptr ActivityConfig_cell ActivityConfig_DeepCopyInto"

definition ArcTarget_DeepCopyInto :: "ArcTarget \<Rightarrow> 'x memory \<Rightarrow> (ArcTarget \<times> 'x memory) option" where
  "ArcTarget_DeepCopyInto x h = Some (x\<lparr>arc_RunnerSet := arc_RunnerSet x\<rparr>, h)"

definition ArcTarget_DeepCopy :: "addr option \<Rightarrow> 'x memory \<Rightarrow> (addr option \<times> 'x memory) option" where
  "ArcTarget_DeepCopy = copy_ptr ArcTarget_cell ArcTarget_DeepCopyInto"

definition AuthRef_DeepCopyInto :: "'x external \<Rightarrow> 'x AuthRef_mem \<Rightarrow> 'x memory \<Rightarrow> ('x AuthRef_mem \<times> 'x memory) option" where
  "AuthRef_DeepCopyInto E r h =
     do { (secretRef, h) \<leftarrow> x_SecretKeySelector E (aum_SecretRef r) h;
          Some (r\<lparr>aum_SecretRef := secretRef\<rparr>, h) }"

definition AuthRef_DeepCopy :: "'x external \<Rightarrow> addr option \<Rightarrow> 'x memory \<Rightarrow> (addr option \<times> 'x memory) option" where
  "AuthRef_DeepCopy E = copy_ptr AuthRef_cell (AuthRef_DeepCopyInto E)"

definition FloorRange_DeepCopyInto :: "FloorRange \<Rightarrow> 'x memory \<Rightarrow> (FloorRange \<times> 'x memory) option" where
  "FloorRange_DeepCopyInto x h = Some (x, h)"

definition FloorRange_DeepCopy :: "addr option \<Rightarrow> 'x memory \<Rightarrow> (addr option \<times> 'x memory) option" where
  "FloorRange_DeepCopy = copy_ptr FloorRange_cell FloorRange_DeepCopyInto"

definition GarmTarget_DeepCopyInto :: "GarmTarget \<Rightarrow> 'x memory \<Rightarrow> (GarmTarget \<times> 'x memory) option" where
  "GarmTarget_DeepCopyInto x h = Some (x\<lparr>garm_Pool := garm_Pool x\<rparr>, h)"

definition GarmTarget_DeepCopy :: "addr option \<Rightarrow> 'x memory \<Rightarrow> (addr option \<times> 'x memory) option" where
  "GarmTarget_DeepCopy = copy_ptr GarmTarget_cell GarmTarget_DeepCopyInto"

definition TunnelSpec_DeepCopyInto :: "TunnelSpec \<Rightarrow> 'x memory \<Rightarrow> (TunnelSpec \<times> 'x memory) option" where
  "TunnelSpec_DeepCopyInto x h = Some (x, h)"

definition TunnelSpec_DeepCopy :: "addr option \<Rightarrow> 'x memory \<Rightarrow> (addr option \<times> 'x memory) option" where
  "TunnelSpec_DeepCopy = copy_ptr TunnelSpec_cell TunnelSpec_DeepCopyInto"

definition GitHubAppIngress_DeepCopyInto :: "GitHubAppIngress_mem \<Rightarrow> 'x memory \<Rightarrow> (GitHubAppIngress_mem \<times> 'x memory) option" where
  "GitHubAppIngress_DeepCopyInto i h =
     do { (tunnel, h) \<leftarrow> copy_ptr TunnelSpec_cell flat_copy (inm_Tunnel i) h;
          Some (i\<lparr>inm_Tunnel := tunnel\<rparr>, h) }"

definition GitHubAppIngress_DeepCopy :: "addr option \<Rightarrow> 'x memory \<Rightarrow> (addr option \<times> 'x memory) option" where
  "GitHubAppIngress_DeepCopy = copy_ptr GitHubAppIngress_cell GitHubAppIngress_DeepCopyInto"

definition GitHubAppSpec_DeepCopyInto :: "GitHubAppSpec_mem \<Rightarrow> 'x memory \<Rightarrow> (GitHubAppSpec_mem \<times> 'x memory) option" where
  "GitHubAppSpec_DeepCopyInto s h =
     do { (ingress, h) \<leftarrow> GitHubAppIngress_DeepCopyInto (apm_Ingress s) h;
          Some (s\<lparr>apm_Ingress := ingress, apm_PrivateKeyRef := apm_PrivateKeyRef s,
            apm_WebhookSecretRef := apm_WebhookSecretRef s\<rparr>, h) }"

definition GitHubAppSpec_DeepCopy :: "addr option \<Rightarrow> 'x memory \<Rightarrow> (addr option \<times> 'x memory) option" where
  "GitHubAppSpec_DeepCopy = copy_ptr GitHubAppSpec_cell GitHubAppSpec_DeepCopyInto"

definition GitHubAppStatus_DeepCopyInto :: "'x external \<Rightarrow> GitHubAppStatus_mem \<Rightarrow> 'x memory \<Rightarrow> (GitHubAppStatus_mem \<times> 'x memory) option" where
  "GitHubAppStatus_DeepCopyInto E s h =
     do { (installations, h) \<leftarrow> copy_slice installation_array flat_copy (asm_Installations s) h;
          (lastDelivery, h) \<leftarrow> copy_time E (asm_LastDelivery s) h;
          (conditions, h) \<leftarrow> copy_slice condition_array (x_Condition E) (asm_Conditions s) h;
          Some (s\<lparr>asm_Installations := installations, asm_LastDelivery := lastDelivery,
            asm_Conditions := conditions\<rparr>, h) }"

definition GitHubAppStatus_DeepCopy :: "'x external \<Rightarrow> addr option \<Rightarrow> 'x memory \<Rightarrow> (addr option \<times> 'x memory) option" where
  "GitHubAppStatus_DeepCopy E = copy_ptr GitHubAppStatus_cell (GitHubAppStatus_DeepCopyInto E)"

definition GitHubApp_DeepCopyInto :: "'x external \<Rightarrow> 'x GitHubApp_mem \<Rightarrow> 'x memory \<Rightarrow> ('x GitHubApp_mem \<times> 'x memory) option" where
  "GitHubApp_DeepCopyInto E a h =
     do { (objectMeta, h) \<leftarrow> x_ObjectMeta E (gam_ObjectMeta a) h;
          (spec, h) \<leftarrow> GitHubAppSpec_DeepCopyInto (gam_Spec a) h;
          (status, h) \<leftarrow> GitHubAppStatus_DeepCopyInto E (gam_Status a) h;
          Some (a\<lparr>gam_ObjectMeta := objectMeta, gam_Spec := spec, gam_Status := status,
            gam_TypeMeta := gam_TypeMeta a\<rparr>, h) }"

definition GitHubApp_DeepCopy :: "'x external \<Rightarrow> addr option \<Rightarrow> 'x memory \<Rightarrow> (addr option \<times> 'x memory) option" where
  "GitHubApp_DeepCopy E = copy_ptr GitHubApp_cell (GitHubApp_DeepCopyInto E)"

definition GitHubApp_DeepCopyObject :: "'x external \<Rightarrow> addr option \<Rightarrow> 'x memory \<Rightarrow> (addr option \<times> 'x memory) option" where
  "GitHubApp_DeepCopyObject E p h =
     do { (c, h) \<leftarrow> GitHubApp_DeepCopy E p h;
          Some (case c of Some a \<Rightarrow> Some a | None \<Rightarrow> None, h) }"

definition GitHubAppList_DeepCopyInto :: "'x external \<Rightarrow> 'x GitHubAppList_mem \<Rightarrow> 'x memory \<Rightarrow> ('x GitHubAppList_mem \<times> 'x memory) option" where
  "GitHubAppList_DeepCopyInto E l h =
     do { (listMeta, h) \<leftarrow> x_ListMeta E (alist_ListMeta l) h;
          (items, h) \<leftarrow> copy_slice app_array (GitHubApp_DeepCopyInto E) (alist_Items l) h;
          Some (l\<lparr>alist_ListMeta := listMeta, alist_Items := items, alist_TypeMeta := alist_TypeMeta l\<rparr>, h) }"

definition GitHubAppList_DeepCopy :: "'x external \<Rightarrow> addr option \<Rightarrow> 'x memory \<Rightarrow> (addr option \<times> 'x memory) option" where
  "GitHubAppList_DeepCopy E = copy_ptr GitHubAppList_cell (GitHubAppList_DeepCopyInto E)"

definition GitHubAppList_DeepCopyObject :: "'x external \<Rightarrow> addr option \<Rightarrow> 'x memory \<Rightarrow> (addr option \<times> 'x memory) option" where
  "GitHubAppList_DeepCopyObject E p h =
     do { (c, h) \<leftarrow> GitHubAppList_DeepCopy E p h;
          Some (case c of Some a \<Rightarrow> Some a | None \<Rightarrow> None, h) }"

definition GitHubConfig_DeepCopyInto :: "'x external \<Rightarrow> 'x GitHubConfig_mem \<Rightarrow> 'x memory \<Rightarrow> ('x GitHubConfig_mem \<times> 'x memory) option" where
  "GitHubConfig_DeepCopyInto E c h =
     do { (labels, h) \<leftarrow> copy_slice string_array flat_copy (ghm_Labels c) h;
          (auth, h) \<leftarrow> AuthRef_DeepCopyInto E (ghm_Auth c) h;
          Some (c\<lparr>ghm_Labels := labels, ghm_Auth := auth\<rparr>, h) }"

definition GitHubConfig_DeepCopy :: "'x external \<Rightarrow> addr option \<Rightarrow> 'x memory \<Rightarrow> (addr option \<times> 'x memory) option" where
  "GitHubConfig_DeepCopy E = copy_ptr GitHubConfig_cell (GitHubConfig_DeepCopyInto E)"

definition Installation_DeepCopyInto :: "Installation \<Rightarrow> 'x memory \<Rightarrow> (Installation \<times> 'x memory) option" where
  "Installation_DeepCopyInto x h = Some (x, h)"

definition Installation_DeepCopy :: "addr option \<Rightarrow> 'x memory \<Rightarrow> (addr option \<times> 'x memory) option" where
  "Installation_DeepCopy = copy_ptr Installation_cell Installation_DeepCopyInto"

definition LocalObjectRef_DeepCopyInto :: "LocalObjectRef \<Rightarrow> 'x memory \<Rightarrow> (LocalObjectRef \<times> 'x memory) option" where
  "LocalObjectRef_DeepCopyInto x h = Some (x, h)"

definition LocalObjectRef_DeepCopy :: "addr option \<Rightarrow> 'x memory \<Rightarrow> (addr option \<times> 'x memory) option" where
  "LocalObjectRef_DeepCopy = copy_ptr LocalObjectRef_cell LocalObjectRef_DeepCopyInto"

definition PredictedLabelSet_DeepCopyInto :: "PredictedLabelSet_mem \<Rightarrow> 'x memory \<Rightarrow> (PredictedLabelSet_mem \<times> 'x memory) option" where
  "PredictedLabelSet_DeepCopyInto l h =
     do { (labels, h) \<leftarrow> copy_slice string_array flat_copy (plm_Labels l) h;
          Some (l\<lparr>plm_Labels := labels\<rparr>, h) }"

definition PredictedLabelSet_DeepCopy :: "addr option \<Rightarrow> 'x memory \<Rightarrow> (addr option \<times> 'x memory) option" where
  "PredictedLabelSet_DeepCopy = copy_ptr PredictedLabelSet_cell PredictedLabelSet_DeepCopyInto"

definition PredictorConfig_DeepCopyInto :: "PredictorConfig \<Rightarrow> 'x memory \<Rightarrow> (PredictorConfig \<times> 'x memory) option" where
  "PredictorConfig_DeepCopyInto x h = Some (x\<lparr>pc_WorkflowRefreshInterval := pc_WorkflowRefreshInterval x\<rparr>, h)"

definition PredictorConfig_DeepCopy :: "addr option \<Rightarrow> 'x memory \<Rightarrow> (addr option \<times> 'x memory) option" where
  "PredictorConfig_DeepCopy = copy_ptr PredictorConfig_cell PredictorConfig_DeepCopyInto"

definition QueueRule_DeepCopyInto :: "QueueRule \<Rightarrow> 'x memory \<Rightarrow> (QueueRule \<times> 'x memory) option" where
  "QueueRule_DeepCopyInto x h = Some (x\<lparr>qr_PollInterval := qr_PollInterval x, qr_Cooldown := qr_Cooldown x\<rparr>, h)"

definition QueueRule_DeepCopy :: "addr option \<Rightarrow> 'x memory \<Rightarrow> (addr option \<times> 'x memory) option" where
  "QueueRule_DeepCopy = copy_ptr QueueRule_cell QueueRule_DeepCopyInto"

definition RefNS_DeepCopyInto :: "RefNS \<Rightarrow> 'x memory \<Rightarrow> (RefNS \<times> 'x memory) option" where
  "RefNS_DeepCopyInto x h = Some (x, h)"

definition RefNS_DeepCopy :: "addr option \<Rightarrow> 'x memory \<Rightarrow> (addr option \<times> 'x memory) option" where
  "RefNS_DeepCopy = copy_ptr RefNS_cell RefNS_DeepCopyInto"

definition ScheduleWindow_DeepCopyInto :: "ScheduleWindow_mem \<Rightarrow> 'x memory \<Rightarrow> (ScheduleWindow_mem \<times> 'x memory) option" where
  "ScheduleWindow_DeepCopyInto w h =
     do { (days, h) \<leftarrow> copy_slice string_array flat_copy (swm_Days w) h;
          Some (w\<lparr>swm_Days := days\<rparr>, h) }"

definition ScheduleWindow_DeepCopy :: "addr option \<Rightarrow> 'x memory \<Rightarrow> (addr option \<times> 'x memory) option" where
  "ScheduleWindow_DeepCopy = copy_ptr ScheduleWindow_cell ScheduleWindow_DeepCopyInto"

definition SecretKeyRef_DeepCopyInto :: "SecretKeyRef \<Rightarrow> 'x memory \<Rightarrow> (SecretKeyRef \<times> 'x memory) option" where
  "SecretKeyRef_DeepCopyInto x h = Some (x, h)"

definition SecretKeyRef_DeepCopy :: "addr option \<Rightarrow> 'x memory \<Rightarrow> (addr option \<times> 'x memory) option" where
  "SecretKeyRef_DeepCopy = copy_ptr SecretKeyRef_cell SecretKeyRef_DeepCopyInto"

definition Target_DeepCopyInto :: "Target_mem \<Rightarrow> 'x memory \<Rightarrow> (Target_mem \<times> 'x memory) option" where
  "Target_DeepCopyInto t h =
     do { (arc, h) \<leftarrow> copy_ptr ArcTarget_cell flat_copy (tgm_Arc t) h;
          (garm, h) \<leftarrow> copy_ptr GarmTarget_cell flat_copy (tgm_Garm t) h;
          Some (t\<lparr>tgm_Arc := arc, tgm_Garm := garm\<rparr>, h) }"

definition Target_DeepCopy :: "addr option \<Rightarrow> 'x memory \<Rightarrow> (addr option \<times> 'x memory) option" where
  "Target_DeepCopy = copy_ptr Target_cell Target_DeepCopyInto"

definition WarmRunnerPolicySpec_DeepCopyInto :: "'x external \<Rightarrow> 'x WarmRunnerPolicySpec_mem \<Rightarrow> 'x memory \<Rightarrow> ('x WarmRunnerPolicySpec_mem \<times> 'x memory) option" where
  "WarmRunnerPolicySpec_DeepCopyInto E s h =
     do { (gitHub, h) \<leftarrow> GitHubConfig_DeepCopyInto E (spm_GitHub s) h;
          (tgt, h) \<leftarrow> Target_DeepCopyInto (spm_Target s) h;
          (schedule, h) \<leftarrow> copy_slice window_array ScheduleWindow_DeepCopyInto (spm_Schedule s) h;
          (predictor, h) \<leftarrow> copy_ptr PredictorConfig_cell flat_copy (spm_Predictor s) h;
          (activity, h) \<leftarrow> copy_ptr ActivityConfig_cell ActivityConfig_DeepCopyInto (spm_Activity s) h;
          (gitHubAppRef, h) \<leftarrow> copy_ptr LocalObjectRef_cell flat_copy (spm_GitHubAppRef s) h;
          (activeWindowSeconds, h) \<leftarrow> copy_ptr int32_cell flat_copy (spm_ActiveWindowSeconds s) h;
          Some (s\<lparr>spm_GitHub := gitHub, spm_Target := tgt, spm_Schedule := schedule, spm_Predictor := predictor,
            spm_Activity := activity, spm_GitHubAppRef := gitHubAppRef,
            spm_ActiveWindowSeconds := activeWindowSeconds, spm_Floor := spm_Floor s,
            spm_QueueRule := spm_QueueRule s\<rparr>, h) }"

definition WarmRunnerPolicySpec_DeepCopy :: "'x external \<Rightarrow> addr option \<Rightarrow> 'x memory \<Rightarrow> (addr option \<times> 'x memory) option" where
  "WarmRunnerPolicySpec_DeepCopy E = copy_ptr WarmRunnerPolicySpec_cell (WarmRunnerPolicySpec_DeepCopyInto E)"

definition WarmRunnerPolicyStatus_DeepCopyInto :: "'x external \<Rightarrow> WarmRunnerPolicyStatus_mem \<Rightarrow> 'x memory \<Rightarrow> (WarmRunnerPolicyStatus_mem \<times> 'x memory) option" where
  "WarmRunnerPolicyStatus_DeepCopyInto E s h =
     do { (lastReconcileTime, h) \<leftarrow> copy_time E (stm_LastReconcileTime s) h;
          (lastDecreaseTime, h) \<leftarrow> copy_time E (stm_LastDecreaseTime s) h;
          (predictedLabelSets, h) \<leftarrow> copy_slice label_set_array PredictedLabelSet_DeepCopyInto (stm_PredictedLabelSets s) h;
          (activityLabelSets, h) \<leftarrow> copy_slice label_set_array PredictedLabelSet_DeepCopyInto (stm_ActivityLabelSets s) h;
          (activeUntil, h) \<leftarrow> copy_time E (stm_ActiveUntil s) h;
          (conditions, h) \<leftarrow> copy_slice condition_array (x_Condition E) (stm_Conditions s) h;
          Some (s\<lparr>stm_LastReconcileTime := lastReconcileTime, stm_LastDecreaseTime := lastDecreaseTime,
            stm_PredictedLabelSets := predictedLabelSets, stm_ActivityLabelSets := activityLabelSets,
            stm_ActiveUntil := activeUntil, stm_Conditions := conditions\<rparr>, h) }"

definition WarmRunnerPolicyStatus_DeepCopy :: "'x external \<Rightarrow> addr option \<Rightarrow> 'x memory \<Rightarrow> (addr option \<times> 'x memory) option" where
  "WarmRunnerPolicyStatus_DeepCopy E = copy_ptr WarmRunnerPolicyStatus_cell (WarmRunnerPolicyStatus_DeepCopyInto E)"

definition WarmRunnerPolicy_DeepCopyInto :: "'x external \<Rightarrow> 'x WarmRunnerPolicy_mem \<Rightarrow> 'x memory \<Rightarrow> ('x WarmRunnerPolicy_mem \<times> 'x memory) option" where
  "WarmRunnerPolicy_DeepCopyInto E p h =
     do { (objectMeta, h) \<leftarrow> x_ObjectMeta E (pom_ObjectMeta p) h;
          (spec, h) \<leftarrow> WarmRunnerPolicySpec_DeepCopyInto E (pom_Spec p) h;
          (status, h) \<leftarrow> WarmRunnerPolicyStatus_DeepCopyInto E (pom_Status p) h;
          Some (p\<lparr>pom_ObjectMeta := objectMeta, pom_Spec := spec, pom_Status := status,
            pom_TypeMeta := pom_TypeMeta p\<rparr>, h) }"

definition WarmRunnerPolicy_DeepCopy :: "'x external \<Rightarrow> addr option \<Rightarrow> 'x memory \<Rightarrow> (addr option \<times> 'x memory) option" where
  "WarmRunnerPolicy_DeepCopy E = copy_ptr WarmRunnerPolicy_cell (WarmRunnerPolicy_DeepCopyInto E)"

definition WarmRunnerPolicy_DeepCopyObject :: "'x external \<Rightarrow> addr option \<Rightarrow> 'x memory \<Rightarrow> (addr option \<times> 'x memory) option" where
  "WarmRunnerPolicy_DeepCopyObject E p h =
     do { (c, h) \<leftarrow> WarmRunnerPolicy_DeepCopy E p h;
          Some (case c of Some a \<Rightarrow> Some a | None \<Rightarrow> None, h) }"

definition WarmRunnerPolicyList_DeepCopyInto :: "'x external \<Rightarrow> 'x WarmRunnerPolicyList_mem \<Rightarrow> 'x memory \<Rightarrow> ('x WarmRunnerPolicyList_mem \<times> 'x memory) option" where
  "WarmRunnerPolicyList_DeepCopyInto E l h =
     do { (listMeta, h) \<leftarrow> x_ListMeta E (plist_ListMeta l) h;
          (items, h) \<leftarrow> copy_slice policy_array (WarmRunnerPolicy_DeepCopyInto E) (plist_Items l) h;
          Some (l\<lparr>plist_ListMeta := listMeta, plist_Items := items, plist_TypeMeta := plist_TypeMeta l\<rparr>, h) }"

definition WarmRunnerPolicyList_DeepCopy :: "'x external \<Rightarrow> addr option \<Rightarrow> 'x memory \<Rightarrow> (addr option \<times> 'x memory) option" where
  "WarmRunnerPolicyList_DeepCopy E = copy_ptr WarmRunnerPolicyList_cell (WarmRunnerPolicyList_DeepCopyInto E)"

definition WarmRunnerPolicyList_DeepCopyObject :: "'x external \<Rightarrow> addr option \<Rightarrow> 'x memory \<Rightarrow> (addr option \<times> 'x memory) option" where
  "WarmRunnerPolicyList_DeepCopyObject E p h =
     do { (c, h) \<leftarrow> WarmRunnerPolicyList_DeepCopy E p h;
          Some (case c of Some a \<Rightarrow> Some a | None \<Rightarrow> None, h) }"

section \<open>Values\<close>

text \<open>The value of a struct in memory: its plain fields, and the values behind its pointers and slices. \<open>V\<close>
  reads the values of Kubernetes' own structs.\<close>

abbreviation time_value :: "'x memory \<Rightarrow> addr option \<Rightarrow> time option option" where
  "time_value \<equiv> ptr_value time_cell flat_value"

definition ActivityConfig_value where
  "ActivityConfig_value h c =
     do { t \<leftarrow> slice_value string_array flat_value h (acm_BotLoginDenylist c);
          Some ((acm_Enabled c, acm_WindowSeconds c), t) }"

definition AuthRef_value where
  "AuthRef_value V h r =
     do { t \<leftarrow> V h (aum_SecretRef r);
          Some ((), t) }"

definition GitHubAppIngress_value where
  "GitHubAppIngress_value h i =
     do { t \<leftarrow> ptr_value TunnelSpec_cell flat_value h (inm_Tunnel i);
          Some ((inm_Mode i, inm_Hostname i), t) }"

definition GitHubAppSpec_value where
  "GitHubAppSpec_value h s =
     do { t \<leftarrow> GitHubAppIngress_value h (apm_Ingress s);
          Some ((apm_AppID s, apm_PrivateKeyRef s, apm_WebhookSecretRef s), t) }"

definition GitHubAppStatus_value where
  "GitHubAppStatus_value h s =
     do { t0 \<leftarrow> slice_value installation_array flat_value h (asm_Installations s);
          t1 \<leftarrow> time_value h (asm_LastDelivery s);
          t2 \<leftarrow> slice_value condition_array flat_value h (asm_Conditions s);
          Some ((asm_WebhookHealthy s), (t0, t1, t2)) }"

definition GitHubApp_value where
  "GitHubApp_value V h a =
     do { t0 \<leftarrow> V h (gam_ObjectMeta a);
          t1 \<leftarrow> GitHubAppSpec_value h (gam_Spec a);
          t2 \<leftarrow> GitHubAppStatus_value h (gam_Status a);
          Some ((gam_TypeMeta a), (t0, t1, t2)) }"

definition GitHubAppList_value where
  "GitHubAppList_value V h l =
     do { t0 \<leftarrow> V h (alist_ListMeta l);
          t1 \<leftarrow> slice_value app_array (GitHubApp_value V) h (alist_Items l);
          Some ((alist_TypeMeta l), (t0, t1)) }"

definition GitHubConfig_value where
  "GitHubConfig_value V h c =
     do { t0 \<leftarrow> slice_value string_array flat_value h (ghm_Labels c);
          t1 \<leftarrow> AuthRef_value V h (ghm_Auth c);
          Some ((ghm_Owner c, ghm_Repository c), (t0, t1)) }"

definition PredictedLabelSet_value where
  "PredictedLabelSet_value h l =
     do { t \<leftarrow> slice_value string_array flat_value h (plm_Labels l);
          Some ((plm_Count l), t) }"

definition ScheduleWindow_value where
  "ScheduleWindow_value h w =
     do { t \<leftarrow> slice_value string_array flat_value h (swm_Days w);
          Some ((swm_From w, swm_To w, swm_TZ w, swm_Base w), t) }"

definition Target_value where
  "Target_value h t =
     do { t0 \<leftarrow> ptr_value ArcTarget_cell flat_value h (tgm_Arc t);
          t1 \<leftarrow> ptr_value GarmTarget_cell flat_value h (tgm_Garm t);
          Some ((), (t0, t1)) }"

definition WarmRunnerPolicySpec_value where
  "WarmRunnerPolicySpec_value V h s =
     do { t0 \<leftarrow> GitHubConfig_value V h (spm_GitHub s);
          t1 \<leftarrow> Target_value h (spm_Target s);
          t2 \<leftarrow> slice_value window_array ScheduleWindow_value h (spm_Schedule s);
          t3 \<leftarrow> ptr_value PredictorConfig_cell flat_value h (spm_Predictor s);
          t4 \<leftarrow> ptr_value ActivityConfig_cell ActivityConfig_value h (spm_Activity s);
          t5 \<leftarrow> ptr_value LocalObjectRef_cell flat_value h (spm_GitHubAppRef s);
          t6 \<leftarrow> ptr_value int32_cell flat_value h (spm_ActiveWindowSeconds s);
          Some ((spm_Floor s, spm_QueueRule s, spm_DryRun s), (t0, t1, t2, t3, t4, t5, t6)) }"

definition WarmRunnerPolicyStatus_value where
  "WarmRunnerPolicyStatus_value h s =
     do { t0 \<leftarrow> time_value h (stm_LastReconcileTime s);
          t1 \<leftarrow> time_value h (stm_LastDecreaseTime s);
          t2 \<leftarrow> slice_value label_set_array PredictedLabelSet_value h (stm_PredictedLabelSets s);
          t3 \<leftarrow> slice_value label_set_array PredictedLabelSet_value h (stm_ActivityLabelSets s);
          t4 \<leftarrow> time_value h (stm_ActiveUntil s);
          t5 \<leftarrow> slice_value condition_array flat_value h (stm_Conditions s);
          Some ((stm_DesiredFloor s, stm_AppliedFloor s, stm_LastQueueDepth s, stm_PredictedFloor s, stm_ActivityFloor s, stm_DryRun s, stm_LastEventSource s), (t0, t1, t2, t3, t4, t5)) }"

definition WarmRunnerPolicy_value where
  "WarmRunnerPolicy_value V h p =
     do { t0 \<leftarrow> V h (pom_ObjectMeta p);
          t1 \<leftarrow> WarmRunnerPolicySpec_value V h (pom_Spec p);
          t2 \<leftarrow> WarmRunnerPolicyStatus_value h (pom_Status p);
          Some ((pom_TypeMeta p), (t0, t1, t2)) }"

definition WarmRunnerPolicyList_value where
  "WarmRunnerPolicyList_value V h l =
     do { t0 \<leftarrow> V h (plist_ListMeta l);
          t1 \<leftarrow> slice_value policy_array (WarmRunnerPolicy_value V) h (plist_Items l);
          Some ((plist_TypeMeta l), (t0, t1)) }"

section \<open>The contract holds\<close>

definition external_ok :: "'x external \<Rightarrow> ('x memory \<Rightarrow> 'x \<Rightarrow> 'v option) \<Rightarrow> bool" where
  "external_ok E V \<longleftrightarrow>
     deep_copy (x_ObjectMeta E) V \<and> deep_copy (x_ListMeta E) V \<and> deep_copy (x_SecretKeySelector E) V
     \<and> deep_copy (x_Condition E) flat_value \<and> deep_copy (x_Time E) (cell_value time_cell flat_value)"

lemma external_okD:
  assumes "external_ok E V"
  shows "deep_copy (x_ObjectMeta E) V" "deep_copy (x_ListMeta E) V" "deep_copy (x_SecretKeySelector E) V"
    "deep_copy (x_Condition E) flat_value" "deep_copy (x_Time E) (cell_value time_cell flat_value)"
  using assms by (simp_all add: external_ok_def)

named_theorems copy_rules

lemmas [copy_rules] = flat.deep_copy_axioms external_okD deep_copy_pair deep_copy_ptr deep_copy_slice typed_ok

lemmas struct_simps = copy_pair_def pair_value_def case_prod_unfold

lemma copy_time_copies [copy_rules]:
  fixes E :: "'x external"
  assumes "external_ok E V"
  shows "deep_copy (copy_time E) time_value"
proof
  note ext = external_okD(5) [OF assms]
  fix h :: "'x memory" and p t
  {
    fix g assume v: "time_value h p = Some t" and g: "prefix h g"
    show "time_value g p = Some t"
      using v by (auto simp: ptr_value_def split: option.splits dest: deep_copy.reads_later [OF ext _ g])
  next
    assume v: "time_value h p = Some t"
    show "\<exists>y g. copy_time E p h = Some (y, g) \<and> prefix h g \<and> owned time_value (length h) g y t"
    proof (cases p)
      case None
      then show ?thesis using v by (simp add: copy_time_def ptr_value_def owned_def)
    next
      case (Some a)
      then obtain t' where t: "cell_value time_cell flat_value h a = Some t'" "t = Some t'"
        using v by (auto simp: ptr_value_def)
      then show ?thesis
        using deep_copy.copies [OF ext t(1)] Some by (fastforce simp: copy_time_def owned_def ptr_value_def)
    qed
  }
qed

lemma ActivityConfig_copies [copy_rules]: "deep_copy ActivityConfig_DeepCopyInto ActivityConfig_value"
proof (rule deep_copy_struct [where mk = Pair and get = "\<lambda>c. acm_BotLoginDenylist c"
      and put = "\<lambda>c q. c\<lparr>acm_BotLoginDenylist := q\<rparr>" and rest = "\<lambda>c. (acm_Enabled c, acm_WindowSeconds c)"])
  show "deep_copy (copy_slice string_array flat_copy) (slice_value string_array flat_value)"
    by (intro copy_rules; simp)
qed (simp_all add: ActivityConfig_DeepCopyInto_def ActivityConfig_value_def struct_simps)

lemma AuthRef_copies [copy_rules]:
  assumes "external_ok E V"
  shows "deep_copy (AuthRef_DeepCopyInto E) (AuthRef_value V)"
proof (rule deep_copy_struct [where mk = Pair and get = "\<lambda>r. aum_SecretRef r"
      and put = "\<lambda>r q. r\<lparr>aum_SecretRef := q\<rparr>" and rest = "\<lambda>r. ()"])
  show "deep_copy (x_SecretKeySelector E) (V)"
    using assms by (intro copy_rules; simp)
qed (simp_all add: AuthRef_DeepCopyInto_def AuthRef_value_def struct_simps)

lemma GitHubAppIngress_copies [copy_rules]: "deep_copy GitHubAppIngress_DeepCopyInto GitHubAppIngress_value"
proof (rule deep_copy_struct [where mk = Pair and get = "\<lambda>i. inm_Tunnel i"
      and put = "\<lambda>i q. i\<lparr>inm_Tunnel := q\<rparr>" and rest = "\<lambda>i. (inm_Mode i, inm_Hostname i)"])
  show "deep_copy (copy_ptr TunnelSpec_cell flat_copy) (ptr_value TunnelSpec_cell flat_value)"
    by (intro copy_rules; simp)
qed (simp_all add: GitHubAppIngress_DeepCopyInto_def GitHubAppIngress_value_def struct_simps)

lemma GitHubAppSpec_copies [copy_rules]: "deep_copy GitHubAppSpec_DeepCopyInto GitHubAppSpec_value"
proof (rule deep_copy_struct [where mk = Pair and get = "\<lambda>s. apm_Ingress s"
      and put = "\<lambda>s q. s\<lparr>apm_Ingress := q\<rparr>" and rest = "\<lambda>s. (apm_AppID s, apm_PrivateKeyRef s, apm_WebhookSecretRef s)"])
  show "deep_copy (GitHubAppIngress_DeepCopyInto) (GitHubAppIngress_value)"
    by (intro copy_rules; simp)
qed (simp_all add: GitHubAppSpec_DeepCopyInto_def GitHubAppSpec_value_def struct_simps)

lemma GitHubAppStatus_copies [copy_rules]:
  assumes "external_ok E V"
  shows "deep_copy (GitHubAppStatus_DeepCopyInto E) GitHubAppStatus_value"
proof (rule deep_copy_struct [where mk = Pair and get = "\<lambda>s. (asm_Installations s, asm_LastDelivery s, asm_Conditions s)"
      and put = "\<lambda>s q. s\<lparr>asm_Installations := fst q, asm_LastDelivery := fst (snd q), asm_Conditions := snd (snd q)\<rparr>" and rest = "\<lambda>s. asm_WebhookHealthy s"])
  show "deep_copy (copy_pair (copy_slice installation_array flat_copy) (copy_pair (copy_time E) (copy_slice condition_array (x_Condition E)))) (pair_value (slice_value installation_array flat_value) (pair_value (time_value) (slice_value condition_array flat_value)))"
    using assms by (intro copy_rules; simp)
qed (simp_all add: GitHubAppStatus_DeepCopyInto_def GitHubAppStatus_value_def struct_simps)

lemma GitHubApp_copies [copy_rules]:
  assumes "external_ok E V"
  shows "deep_copy (GitHubApp_DeepCopyInto E) (GitHubApp_value V)"
proof (rule deep_copy_struct [where mk = Pair and get = "\<lambda>a. (gam_ObjectMeta a, gam_Spec a, gam_Status a)"
      and put = "\<lambda>a q. a\<lparr>gam_ObjectMeta := fst q, gam_Spec := fst (snd q), gam_Status := snd (snd q)\<rparr>" and rest = "\<lambda>a. gam_TypeMeta a"])
  show "deep_copy (copy_pair (x_ObjectMeta E) (copy_pair (GitHubAppSpec_DeepCopyInto) (GitHubAppStatus_DeepCopyInto E))) (pair_value (V) (pair_value (GitHubAppSpec_value) (GitHubAppStatus_value)))"
    using assms by (intro copy_rules; simp)
qed (simp_all add: GitHubApp_DeepCopyInto_def GitHubApp_value_def struct_simps)

lemma GitHubAppList_copies [copy_rules]:
  assumes "external_ok E V"
  shows "deep_copy (GitHubAppList_DeepCopyInto E) (GitHubAppList_value V)"
proof (rule deep_copy_struct [where mk = Pair and get = "\<lambda>l. (alist_ListMeta l, alist_Items l)"
      and put = "\<lambda>l q. l\<lparr>alist_ListMeta := fst q, alist_Items := snd q\<rparr>" and rest = "\<lambda>l. alist_TypeMeta l"])
  show "deep_copy (copy_pair (x_ListMeta E) (copy_slice app_array (GitHubApp_DeepCopyInto E))) (pair_value (V) (slice_value app_array (GitHubApp_value V)))"
    using assms by (intro copy_rules; simp)
qed (simp_all add: GitHubAppList_DeepCopyInto_def GitHubAppList_value_def struct_simps)

lemma GitHubConfig_copies [copy_rules]:
  assumes "external_ok E V"
  shows "deep_copy (GitHubConfig_DeepCopyInto E) (GitHubConfig_value V)"
proof (rule deep_copy_struct [where mk = Pair and get = "\<lambda>c. (ghm_Labels c, ghm_Auth c)"
      and put = "\<lambda>c q. c\<lparr>ghm_Labels := fst q, ghm_Auth := snd q\<rparr>" and rest = "\<lambda>c. (ghm_Owner c, ghm_Repository c)"])
  show "deep_copy (copy_pair (copy_slice string_array flat_copy) (AuthRef_DeepCopyInto E)) (pair_value (slice_value string_array flat_value) (AuthRef_value V))"
    using assms by (intro copy_rules; simp)
qed (simp_all add: GitHubConfig_DeepCopyInto_def GitHubConfig_value_def struct_simps)

lemma PredictedLabelSet_copies [copy_rules]: "deep_copy PredictedLabelSet_DeepCopyInto PredictedLabelSet_value"
proof (rule deep_copy_struct [where mk = Pair and get = "\<lambda>l. plm_Labels l"
      and put = "\<lambda>l q. l\<lparr>plm_Labels := q\<rparr>" and rest = "\<lambda>l. plm_Count l"])
  show "deep_copy (copy_slice string_array flat_copy) (slice_value string_array flat_value)"
    by (intro copy_rules; simp)
qed (simp_all add: PredictedLabelSet_DeepCopyInto_def PredictedLabelSet_value_def struct_simps)

lemma ScheduleWindow_copies [copy_rules]: "deep_copy ScheduleWindow_DeepCopyInto ScheduleWindow_value"
proof (rule deep_copy_struct [where mk = Pair and get = "\<lambda>w. swm_Days w"
      and put = "\<lambda>w q. w\<lparr>swm_Days := q\<rparr>" and rest = "\<lambda>w. (swm_From w, swm_To w, swm_TZ w, swm_Base w)"])
  show "deep_copy (copy_slice string_array flat_copy) (slice_value string_array flat_value)"
    by (intro copy_rules; simp)
qed (simp_all add: ScheduleWindow_DeepCopyInto_def ScheduleWindow_value_def struct_simps)

lemma Target_copies [copy_rules]: "deep_copy Target_DeepCopyInto Target_value"
proof (rule deep_copy_struct [where mk = Pair and get = "\<lambda>t. (tgm_Arc t, tgm_Garm t)"
      and put = "\<lambda>t q. t\<lparr>tgm_Arc := fst q, tgm_Garm := snd q\<rparr>" and rest = "\<lambda>t. ()"])
  show "deep_copy (copy_pair (copy_ptr ArcTarget_cell flat_copy) (copy_ptr GarmTarget_cell flat_copy)) (pair_value (ptr_value ArcTarget_cell flat_value) (ptr_value GarmTarget_cell flat_value))"
    by (intro copy_rules; simp)
qed (simp_all add: Target_DeepCopyInto_def Target_value_def struct_simps)

lemma WarmRunnerPolicySpec_copies [copy_rules]:
  assumes "external_ok E V"
  shows "deep_copy (WarmRunnerPolicySpec_DeepCopyInto E) (WarmRunnerPolicySpec_value V)"
proof (rule deep_copy_struct [where mk = Pair and get = "\<lambda>s. (spm_GitHub s, spm_Target s, spm_Schedule s, spm_Predictor s, spm_Activity s, spm_GitHubAppRef s, spm_ActiveWindowSeconds s)"
      and put = "\<lambda>s q. s\<lparr>spm_GitHub := fst q, spm_Target := fst (snd q), spm_Schedule := fst (snd (snd q)), spm_Predictor := fst (snd (snd (snd q))), spm_Activity := fst (snd (snd (snd (snd q)))), spm_GitHubAppRef := fst (snd (snd (snd (snd (snd q))))), spm_ActiveWindowSeconds := snd (snd (snd (snd (snd (snd q)))))\<rparr>" and rest = "\<lambda>s. (spm_Floor s, spm_QueueRule s, spm_DryRun s)"])
  show "deep_copy (copy_pair (GitHubConfig_DeepCopyInto E) (copy_pair (Target_DeepCopyInto) (copy_pair (copy_slice window_array ScheduleWindow_DeepCopyInto) (copy_pair (copy_ptr PredictorConfig_cell flat_copy) (copy_pair (copy_ptr ActivityConfig_cell ActivityConfig_DeepCopyInto) (copy_pair (copy_ptr LocalObjectRef_cell flat_copy) (copy_ptr int32_cell flat_copy))))))) (pair_value (GitHubConfig_value V) (pair_value (Target_value) (pair_value (slice_value window_array ScheduleWindow_value) (pair_value (ptr_value PredictorConfig_cell flat_value) (pair_value (ptr_value ActivityConfig_cell ActivityConfig_value) (pair_value (ptr_value LocalObjectRef_cell flat_value) (ptr_value int32_cell flat_value)))))))"
    using assms by (intro copy_rules; simp)
qed (simp_all add: WarmRunnerPolicySpec_DeepCopyInto_def WarmRunnerPolicySpec_value_def struct_simps)

lemma WarmRunnerPolicyStatus_copies [copy_rules]:
  assumes "external_ok E V"
  shows "deep_copy (WarmRunnerPolicyStatus_DeepCopyInto E) WarmRunnerPolicyStatus_value"
proof (rule deep_copy_struct [where mk = Pair and get = "\<lambda>s. (stm_LastReconcileTime s, stm_LastDecreaseTime s, stm_PredictedLabelSets s, stm_ActivityLabelSets s, stm_ActiveUntil s, stm_Conditions s)"
      and put = "\<lambda>s q. s\<lparr>stm_LastReconcileTime := fst q, stm_LastDecreaseTime := fst (snd q), stm_PredictedLabelSets := fst (snd (snd q)), stm_ActivityLabelSets := fst (snd (snd (snd q))), stm_ActiveUntil := fst (snd (snd (snd (snd q)))), stm_Conditions := snd (snd (snd (snd (snd q))))\<rparr>" and rest = "\<lambda>s. (stm_DesiredFloor s, stm_AppliedFloor s, stm_LastQueueDepth s, stm_PredictedFloor s, stm_ActivityFloor s, stm_DryRun s, stm_LastEventSource s)"])
  show "deep_copy (copy_pair (copy_time E) (copy_pair (copy_time E) (copy_pair (copy_slice label_set_array PredictedLabelSet_DeepCopyInto) (copy_pair (copy_slice label_set_array PredictedLabelSet_DeepCopyInto) (copy_pair (copy_time E) (copy_slice condition_array (x_Condition E))))))) (pair_value (time_value) (pair_value (time_value) (pair_value (slice_value label_set_array PredictedLabelSet_value) (pair_value (slice_value label_set_array PredictedLabelSet_value) (pair_value (time_value) (slice_value condition_array flat_value))))))"
    using assms by (intro copy_rules; simp)
qed (simp_all add: WarmRunnerPolicyStatus_DeepCopyInto_def WarmRunnerPolicyStatus_value_def struct_simps)

lemma WarmRunnerPolicy_copies [copy_rules]:
  assumes "external_ok E V"
  shows "deep_copy (WarmRunnerPolicy_DeepCopyInto E) (WarmRunnerPolicy_value V)"
proof (rule deep_copy_struct [where mk = Pair and get = "\<lambda>p. (pom_ObjectMeta p, pom_Spec p, pom_Status p)"
      and put = "\<lambda>p q. p\<lparr>pom_ObjectMeta := fst q, pom_Spec := fst (snd q), pom_Status := snd (snd q)\<rparr>" and rest = "\<lambda>p. pom_TypeMeta p"])
  show "deep_copy (copy_pair (x_ObjectMeta E) (copy_pair (WarmRunnerPolicySpec_DeepCopyInto E) (WarmRunnerPolicyStatus_DeepCopyInto E))) (pair_value (V) (pair_value (WarmRunnerPolicySpec_value V) (WarmRunnerPolicyStatus_value)))"
    using assms by (intro copy_rules; simp)
qed (simp_all add: WarmRunnerPolicy_DeepCopyInto_def WarmRunnerPolicy_value_def struct_simps)

lemma WarmRunnerPolicyList_copies [copy_rules]:
  assumes "external_ok E V"
  shows "deep_copy (WarmRunnerPolicyList_DeepCopyInto E) (WarmRunnerPolicyList_value V)"
proof (rule deep_copy_struct [where mk = Pair and get = "\<lambda>l. (plist_ListMeta l, plist_Items l)"
      and put = "\<lambda>l q. l\<lparr>plist_ListMeta := fst q, plist_Items := snd q\<rparr>" and rest = "\<lambda>l. plist_TypeMeta l"])
  show "deep_copy (copy_pair (x_ListMeta E) (copy_slice policy_array (WarmRunnerPolicy_DeepCopyInto E))) (pair_value (V) (slice_value policy_array (WarmRunnerPolicy_value V)))"
    using assms by (intro copy_rules; simp)
qed (simp_all add: WarmRunnerPolicyList_DeepCopyInto_def WarmRunnerPolicyList_value_def struct_simps)

text \<open>The types that hold none of Kubernetes' own structs satisfy the contract unconditionally.\<close>

interpretation activityConfig: deep_copy ActivityConfig_DeepCopyInto ActivityConfig_value
  by (rule ActivityConfig_copies)

interpretation scheduleWindow: deep_copy ScheduleWindow_DeepCopyInto ScheduleWindow_value
  by (rule ScheduleWindow_copies)

interpretation predictedLabelSet: deep_copy PredictedLabelSet_DeepCopyInto PredictedLabelSet_value
  by (rule PredictedLabelSet_copies)

interpretation target: deep_copy Target_DeepCopyInto Target_value
  by (rule Target_copies)

interpretation gitHubAppSpec: deep_copy GitHubAppSpec_DeepCopyInto GitHubAppSpec_value
  by (rule GitHubAppSpec_copies)

section \<open>Properties\<close>

definition independent_copy ::
  "(addr option \<Rightarrow> 'c list \<Rightarrow> (addr option \<times> 'c list) option) \<Rightarrow> ('c list \<Rightarrow> addr option \<Rightarrow> 'v option option) \<Rightarrow>
    'c list \<Rightarrow> addr option \<Rightarrow> bool" where
  "independent_copy copy reads h p \<longleftrightarrow>
     (\<exists>p' new. copy p h = Some (p', h @ new) \<and> (p' = None \<longleftrightarrow> p = None)
        \<and> (\<forall>old more. length old = length h \<longrightarrow> reads (old @ new @ more) p' = reads h p)
        \<and> (\<forall>other. reads (h @ other) p = reads h p))"

lemma ptr_independent:
  assumes "layout_ok L" "deep_copy into reads" "ptr_value L reads h p \<noteq> None"
  shows "independent_copy (copy_ptr L into) (ptr_value L reads) h p"
proof -
  obtain t where t: "ptr_value L reads h p = Some t" using assms(3) by blast
  obtain p' new where c: "copy_ptr L into p h = Some (p', h @ new)"
      "\<forall>old more. length old = length h \<longrightarrow> ptr_value L reads (old @ new @ more) p' = Some t"
      "\<forall>other. ptr_value L reads (h @ other) p = Some t"
    using deep_copy.independent [OF deep_copy_ptr [OF assms(1,2)] t] by blast
  have "p' = None \<longleftrightarrow> p = None" using c(1) by (auto simp: copy_ptr_def bind_eq_Some_conv split: option.splits)
  then show ?thesis unfolding independent_copy_def using c t by auto
qed

text \<open>\<open>DeepCopyObject\<close> is \<open>DeepCopy\<close>, with nil as a nil interface.\<close>

lemma object_is_copy:
  "GitHubApp_DeepCopyObject E = GitHubApp_DeepCopy E" "GitHubAppList_DeepCopyObject E = GitHubAppList_DeepCopy E"
  "WarmRunnerPolicy_DeepCopyObject E = WarmRunnerPolicy_DeepCopy E"
  "WarmRunnerPolicyList_DeepCopyObject E = WarmRunnerPolicyList_DeepCopy E"
proof -
  have option: "(case c of None \<Rightarrow> None | Some a \<Rightarrow> Some a) = c" for c :: "addr option" by (cases c) simp_all
  show "GitHubApp_DeepCopyObject E = GitHubApp_DeepCopy E" "GitHubAppList_DeepCopyObject E = GitHubAppList_DeepCopy E"
    "WarmRunnerPolicy_DeepCopyObject E = WarmRunnerPolicy_DeepCopy E"
    "WarmRunnerPolicyList_DeepCopyObject E = WarmRunnerPolicyList_DeepCopy E"
    by (simp_all add: fun_eq_iff GitHubApp_DeepCopyObject_def GitHubAppList_DeepCopyObject_def
        WarmRunnerPolicy_DeepCopyObject_def WarmRunnerPolicyList_DeepCopyObject_def option)
qed

text \<open>C37. Deep copies are independent. Copying a policy, an app or a list of either through \<open>DeepCopyObject\<close>, as
  the client's cache does before it hands an object out, returns for every object that is well formed in
  memory, allocates without changing what was there, and the copy has the original's value, nil slices and
  pointers included, in every memory that agrees on the new cells, whatever was written to the old ones;
  the original keeps its value whatever is written to the new ones.\<close>

theorem deep_copies_independent:
  assumes "external_ok E V"
  shows "(ptr_value WarmRunnerPolicy_cell (WarmRunnerPolicy_value V) h p \<noteq> None \<longrightarrow>
      independent_copy (WarmRunnerPolicy_DeepCopyObject E) (ptr_value WarmRunnerPolicy_cell (WarmRunnerPolicy_value V)) h p)
    \<and> (ptr_value WarmRunnerPolicyList_cell (WarmRunnerPolicyList_value V) h p \<noteq> None \<longrightarrow>
      independent_copy (WarmRunnerPolicyList_DeepCopyObject E) (ptr_value WarmRunnerPolicyList_cell (WarmRunnerPolicyList_value V)) h p)
    \<and> (ptr_value GitHubApp_cell (GitHubApp_value V) h p \<noteq> None \<longrightarrow>
      independent_copy (GitHubApp_DeepCopyObject E) (ptr_value GitHubApp_cell (GitHubApp_value V)) h p)
    \<and> (ptr_value GitHubAppList_cell (GitHubAppList_value V) h p \<noteq> None \<longrightarrow>
      independent_copy (GitHubAppList_DeepCopyObject E) (ptr_value GitHubAppList_cell (GitHubAppList_value V)) h p)"
  unfolding object_is_copy WarmRunnerPolicy_DeepCopy_def WarmRunnerPolicyList_DeepCopy_def GitHubApp_DeepCopy_def
    GitHubAppList_DeepCopy_def
  by (intro conjI impI ptr_independent WarmRunnerPolicy_copies [OF assms] WarmRunnerPolicyList_copies [OF assms]
      GitHubApp_copies [OF assms] GitHubAppList_copies [OF assms]; simp)

section \<open>An example\<close>

text \<open>Kubernetes' structs are represented by one slice of strings each. In the memory below the two lists of
  label sets in the status of a policy are the same slice, and its labels share an array with those of the
  policy's metadata.\<close>

definition example_external :: "slice option external" where
  "example_external =
     \<lparr>x_ObjectMeta = copy_slice string_array flat_copy, x_ListMeta = copy_slice string_array flat_copy,
      x_SecretKeySelector = copy_slice string_array flat_copy, x_Condition = flat_copy,
      x_Time = (\<lambda>a h. do { t \<leftarrow> load time_cell h a; copy_new time_cell flat_copy t h })\<rparr>"

definition example_reads :: "slice option memory \<Rightarrow> slice option \<Rightarrow> string list option option" where
  "example_reads = slice_value string_array flat_value"

definition shared_policy :: "slice option WarmRunnerPolicy_mem" where
  "shared_policy =
     (let labels = Some \<lparr>sl_array = 0, sl_offset = 0, sl_len = 2\<rparr>; sets = Some \<lparr>sl_array = 1, sl_offset = 0, sl_len = 1\<rparr> in
      \<lparr>pom_TypeMeta = \<lparr>tm_Kind = ''WarmRunnerPolicy'', tm_APIVersion = ''v1alpha1''\<rparr>,
       pom_ObjectMeta = Some \<lparr>sl_array = 0, sl_offset = 1, sl_len = 1\<rparr>,
       pom_Spec =
         \<lparr>spm_GitHub = \<lparr>ghm_Owner = ''o'', ghm_Repository = ''r'', ghm_Labels = labels, ghm_Auth = \<lparr>aum_SecretRef = None\<rparr>\<rparr>,
          spm_Target = \<lparr>tgm_Arc = Some 2, tgm_Garm = None\<rparr>, spm_Floor = \<lparr>floor_Min = 0, floor_Max = 5\<rparr>,
          spm_Schedule = None, spm_QueueRule = \<lparr>qr_PollInterval = 30, qr_Cooldown = 120\<rparr>, spm_Predictor = None,
          spm_Activity = None, spm_DryRun = False, spm_GitHubAppRef = None, spm_ActiveWindowSeconds = Some 3\<rparr>,
       pom_Status =
         \<lparr>stm_DesiredFloor = 1, stm_AppliedFloor = 1, stm_LastQueueDepth = 0, stm_LastReconcileTime = Some 4,
          stm_LastDecreaseTime = Some 4, stm_PredictedFloor = 1, stm_PredictedLabelSets = sets, stm_ActivityFloor = 1,
          stm_ActivityLabelSets = sets, stm_DryRun = False, stm_ActiveUntil = None, stm_LastEventSource = [],
          stm_Conditions = None\<rparr>\<rparr>)"

definition shared_memory :: "slice option memory" where
  "shared_memory =
     [StringArray [''linux'', ''gpu''], LabelSetArray [\<lparr>plm_Labels = Some \<lparr>sl_array = 0, sl_offset = 0, sl_len = 2\<rparr>, plm_Count = 1\<rparr>],
      ArcTargetCell \<lparr>arc_RunnerSet = \<lparr>rns_Name = ''set'', rns_Namespace = ''ns''\<rparr>\<rparr>, Int32Cell 600, TimeCell 7,
      WarmRunnerPolicyCell shared_policy]"

lemma example_external_ok: "external_ok example_external example_reads"
proof -
  have "deep_copy (\<lambda>a h. do { t \<leftarrow> load time_cell h a; copy_new time_cell flat_copy t h }) (cell_value time_cell flat_value)"
  proof
    fix h a t g assume "cell_value time_cell flat_value h a = Some t" "prefix h g"
    then show "cell_value time_cell flat_value g a = Some t"
      by (auto simp: cell_value_def flat_value_def bind_eq_Some_conv dest: load_later)
  next
    fix h a t assume "cell_value time_cell flat_value h a = Some t"
    then have t: "load time_cell h a = Some t" by (auto simp: cell_value_def flat_value_def bind_eq_Some_conv)
    obtain b g where "copy_new time_cell flat_copy t h = Some (b, g)" "prefix h g"
        "owned (cell_value time_cell flat_value) (length h) g b t"
      by (rule flat.new_cell [of time_cell h t t]) (simp_all add: flat_value_def)
    then show "\<exists>y g. do { t \<leftarrow> load time_cell h a; copy_new time_cell flat_copy t h } = Some (y, g) \<and> prefix h g
        \<and> owned (cell_value time_cell flat_value) (length h) g y t"
      using t by simp
  qed
  then show ?thesis
    by (simp add: external_ok_def example_external_def example_reads_def deep_copy_slice flat.deep_copy_axioms)
qed

theorem deep_copies_independent_witness:
  "\<exists>p new. WarmRunnerPolicy_DeepCopyObject example_external (Some 5) shared_memory = Some (p, shared_memory @ new)
    \<and> ptr_value WarmRunnerPolicy_cell (WarmRunnerPolicy_value example_reads) (replicate 6 Zeroed @ new) p
        = ptr_value WarmRunnerPolicy_cell (WarmRunnerPolicy_value example_reads) shared_memory (Some 5)"
proof -
  let ?val = "ptr_value WarmRunnerPolicy_cell (WarmRunnerPolicy_value example_reads)"
  have "case ?val shared_memory (Some 5) of None \<Rightarrow> False | Some t \<Rightarrow> True" by code_simp
  then have "?val shared_memory (Some 5) \<noteq> None" by (auto split: option.splits)
  then have "independent_copy (WarmRunnerPolicy_DeepCopyObject example_external) ?val shared_memory (Some 5)"
    using deep_copies_independent [OF example_external_ok, of shared_memory "Some 5"] by blast
  then obtain p new where c: "WarmRunnerPolicy_DeepCopyObject example_external (Some 5) shared_memory = Some (p, shared_memory @ new)"
      "\<And>old more. length old = length shared_memory \<Longrightarrow> ?val (old @ new @ more) p = ?val shared_memory (Some 5)"
    by (auto simp: independent_copy_def)
  have "?val (replicate 6 Zeroed @ new @ []) p = ?val shared_memory (Some 5)"
    by (rule c(2)) (simp add: shared_memory_def)
  then show ?thesis using c(1) by auto
qed

end
