(* ===== verification/Parallel.thy ===== *)
theory Parallel
  imports Fetcher
begin

text \<open>
  Parallel fetches (\<open>internal/predictor/cache.go\<close>). The fetcher is shared by all reconciles and by predictor and
  sampler; its mutex is held only inside \<open>cachedETag\<close>, \<open>touchAndGet\<close> and \<open>store\<close>, never while a request is under
  way. Here a call of \<open>Fetch\<close> is therefore cut where the code lets others in: after the request has been built
  with the ETag read from the cache (\<open>Awaiting\<close>), after the answer has arrived (\<open>Answered\<close>), and between two
  attempts (\<open>Asking\<close>). A schedule says which call makes the next step and when new calls come in.

  \<open>finishAttempt\<close>, the part of an attempt after the answer, enters the cache at most once and is one step. With no
  other call in between, the steps are those of \<open>Fetch\<close> (lemma \<open>alone_is_Fetch\<close>).
\<close>

section \<open>A call, step by step\<close>

datatype fetch_call =
    Asking nat "error option"
  | Awaiting nat request
  | Answered nat "error + response"
  | Returned "error + string"

definition fetch_args_of :: "workflowFetcher \<Rightarrow> string \<Rightarrow> string \<Rightarrow> string \<Rightarrow> string \<Rightarrow> string \<Rightarrow> fetch_args" where
  "fetch_args_of f owner repo path ref token =
     \<lparr>fa_key = cacheKey owner repo path ref, fa_url = contentsURL f owner repo path ref, fa_token = trim_space token,
      fa_file = owner @ ''/'' @ repo @ '' '' @ path @ ''@'' @ ref\<rparr>"

definition request_failed :: "fetch_args \<Rightarrow> error" where
  "request_failed a = Error False (''workflow fetcher: request to '' @ fa_url a @ '' failed'')"

definition call_step ::
  "outside \<Rightarrow> fetch_args \<Rightarrow> fetch_call \<Rightarrow> workflowFetcher \<times> api \<Rightarrow> fetch_call \<times> workflowFetcher \<times> api" where
  "call_step out a c = (\<lambda>(f, s).
     case c of
       Asking n lastErr \<Rightarrow>
         if n \<le> maxFetchRetries then
           (case out_NewRequest out (fa_url a) of
              Some err \<Rightarrow> (Returned (Inl err), f, s)
            | None \<Rightarrow> (Awaiting n (fetchRequest f (fa_key a) (fa_url a) (fa_token a)), f, s))
         else
           (Returned (Inl (case lastErr of
              Some e \<Rightarrow> e | None \<Rightarrow> request_failed a)), f, s)
     | Awaiting n req \<Rightarrow> (let (res, s) = client_Do out req s in (Answered n res, f, s))
     | Answered n res \<Rightarrow>
         (case finishAttempt out a n res (f, s) of
            (Done r, f, s) \<Rightarrow> (Returned r, f, s)
          | (Again err, f, s) \<Rightarrow> (Asking (n + 1) (Some err), f, s))
     | Returned r \<Rightarrow> (Returned r, f, s))"

section \<open>Schedules\<close>

type_synonym fetches = "workflowFetcher \<times> api \<times> (fetch_args \<times> fetch_call) list"

datatype action =
    Begin string string string string string
  | Step nat

fun act :: "outside \<Rightarrow> action \<Rightarrow> fetches \<Rightarrow> fetches" where
  "act out (Begin owner repo path ref token) (f, s, cs) =
     (f, s, cs @ [(fetch_args_of f owner repo path ref token, Asking 0 None)])"
| "act out (Step i) (f, s, cs) =
     (if i < length cs then
        (case call_step out (fst (cs ! i)) (snd (cs ! i)) (f, s) of
           (c, f, s) \<Rightarrow> (f, s, cs[i := (fst (cs ! i), c)]))
      else (f, s, cs))"

definition schedule :: "outside \<Rightarrow> action list \<Rightarrow> fetches \<Rightarrow> fetches" where
  "schedule out acts st = fold (act out) acts st"

section \<open>Alone\<close>

lemma schedule_simps [simp]:
  "schedule out [] st = st" "schedule out (x # xs) st = schedule out xs (act out x st)"
  "schedule out (xs @ ys) st = schedule out ys (schedule out xs st)"
  by (simp_all add: schedule_def)

lemma alone_loop:
  assumes "retryLoop (fetchAttempt out a) maxFetchRetries (request_failed a) e n (f, s) = (r, g, t)"
  shows "\<exists>k. schedule out (replicate k (Step 0)) (f, s, [(a, Asking n e)]) = (g, t, [(a, Returned r)])"
  using assms
proof (induction "Suc maxFetchRetries - n" arbitrary: n f s e)
  case 0
  then have "\<not> n \<le> maxFetchRetries" by simp
  then have "act out (Step 0) (f, s, [(a, Asking n e)]) = (g, t, [(a, Returned r)])"
    using 0(2) by (simp add: call_step_def retryLoop.simps)
  then show ?case by (intro exI [of _ 1]) simp
next
  case (Suc m)
  then have n: "n \<le> maxFetchRetries" by linarith
  let ?req = "fetchRequest f (fa_key a) (fa_url a) (fa_token a)"
  show ?case
  proof (cases "out_NewRequest out (fa_url a)")
    case (Some err)
    then have "act out (Step 0) (f, s, [(a, Asking n e)]) = (g, t, [(a, Returned r)])"
      using Suc.prems n by (simp add: call_step_def retryLoop.simps fetchAttempt_def)
    then show ?thesis by (intro exI [of _ 1]) simp
  next
    case None
    obtain res u where Do: "client_Do out ?req s = (res, u)" by force
    obtain o' h v where fin: "finishAttempt out a n res (f, u) = (o', h, v)" by (metis prod_cases3)
    have at: "fetchAttempt out a n (f, s) = (o', h, v)" by (simp add: fetchAttempt_def None Do fin)
    have three: "schedule out (replicate 3 (Step 0)) (f, s, [(a, Asking n e)]) =
        (h, v, [(a, case o' of Done r \<Rightarrow> Returned r | Again err \<Rightarrow> Asking (Suc n) (Some err))])"
      using n by (simp add: numeral_3_eq_3 call_step_def None Do fin split: outcome.split)
    show ?thesis
    proof (cases o')
      case (Done r')
      then have "r = r'" "h = g" "v = t" using Suc.prems n at by (simp_all add: retryLoop_done)
      then show ?thesis using three Done by (intro exI [of _ 3]) simp
    next
      case (Again err)
      have "m = Suc maxFetchRetries - Suc n" using Suc.hyps(2) by simp
      moreover have "retryLoop (fetchAttempt out a) maxFetchRetries (request_failed a)
          (Some err) (Suc n) (h, v) = (r, g, t)"
        using Suc.prems n at Again by (simp add: retryLoop_again)
      ultimately obtain k where "schedule out (replicate k (Step 0)) (h, v, [(a, Asking (Suc n) (Some err))]) = (g, t, [(a, Returned r)])"
        using Suc.hyps(1) by blast
      then show ?thesis using three Again by (intro exI [of _ "3 + k"]) (simp add: replicate_add)
    qed
  qed
qed

lemma alone_is_Fetch:
  assumes "Fetch out f s owner repo path ref token = (r, g, t)"
  shows "\<exists>k. schedule out (Begin owner repo path ref token # replicate k (Step 0)) (f, s, [])
    = (g, t, [(fetch_args_of f owner repo path ref token, Returned r)])"
  using alone_loop [of out "fetch_args_of f owner repo path ref token"] assms
  by (simp add: Fetch_def Let_def fetch_args_of_def request_failed_def)

section \<open>The invariant\<close>

text \<open>A request asks for the call's file; an answer is one the server gave to such a request; what is returned
  is the file.\<close>

fun call_ok :: "outside \<Rightarrow> (string \<Rightarrow> string) \<Rightarrow> fetch_args \<Rightarrow> fetch_call \<Rightarrow> bool" where
  "call_ok out content a (Asking n e) \<longleftrightarrow> n \<le> Suc maxFetchRetries"
| "call_ok out content a (Awaiting n req) \<longleftrightarrow> n \<le> maxFetchRetries \<and> rq_URL req = fa_url a"
| "call_ok out content a (Answered n res) \<longleftrightarrow>
     n \<le> maxFetchRetries \<and> (\<exists>log req. rq_URL req = fa_url a \<and> res = out_Do out log req)"
| "call_ok out content a (Returned r) \<longleftrightarrow> (\<forall>body. r = Inr body \<longrightarrow> body = content (fa_key a))"

text \<open>Requests a call may have sent so far, and steps it may still make.\<close>

fun requests :: "fetch_call \<Rightarrow> nat" where
  "requests (Asking n e) = n"
| "requests (Awaiting n req) = n"
| "requests (Answered n res) = Suc n"
| "requests (Returned r) = 4"

fun steps_left :: "fetch_call \<Rightarrow> nat" where
  "steps_left (Asking n e) = 3 * (Suc maxFetchRetries - n) + 1"
| "steps_left (Awaiting n req) = 3 * (Suc maxFetchRetries - n)"
| "steps_left (Answered n res) = 3 * (Suc maxFetchRetries - n) - 1"
| "steps_left (Returned r) = 0"

lemma finishAttempt_sends:
  assumes "finishAttempt out a n res (f, s) = (r, g, t)"
  shows "filter is_sent (api_log t) = filter is_sent (api_log s)"
  using assms by (auto simp: finishAttempt_def waited_def backoff_def sleepCtx_def sleep_select_def Let_def
      split: option.splits sum.splits if_splits prod.splits)

lemma call_step_ok:
  assumes "call_step out a c (f, s) = (c', g, t)" "cache_ok content f0 f" "served out content a" "call_ok out content a c"
  shows "cache_ok content f0 g" "call_ok out content a c'"
    "length (filter is_sent (api_log t)) + requests c \<le> length (filter is_sent (api_log s)) + requests c'"
    "(\<exists>r. c = Returned r \<and> c' = c) \<or> steps_left c' < steps_left c"
proof -
  have "cache_ok content f0 g \<and> call_ok out content a c'
    \<and> length (filter is_sent (api_log t)) + requests c \<le> length (filter is_sent (api_log s)) + requests c'
    \<and> ((\<exists>r. c = Returned r \<and> c' = c) \<or> steps_left c' < steps_left c)"
  proof (cases c)
    case (Answered n res)
    obtain r where fin: "finishAttempt out a n res (f, s) = (r, g, t)"
        "c' = (case r of Done r \<Rightarrow> Returned r | Again err \<Rightarrow> Asking (Suc n) (Some err))"
      using assms(1) Answered by (auto simp: call_step_def split: prod.splits outcome.splits)
    then show ?thesis
      using finishAttempt_ok [OF fin(1) assms(2,3)] finishAttempt_sends [OF fin(1)] assms(4) Answered
      by (auto simp: maxFetchRetries_def split: outcome.splits)
  next
    case (Awaiting n req)
    then show ?thesis
      using assms by (auto simp: call_step_def client_Do_def Let_def maxFetchRetries_def) blast
  next
    case (Asking n e)
    then show ?thesis
      using assms by (auto simp: call_step_def fetchRequest_def Let_def maxFetchRetries_def split: option.splits if_splits)
  next
    case (Returned r)
    then show ?thesis using assms by (auto simp: call_step_def)
  qed
  then show "cache_ok content f0 g" "call_ok out content a c'"
    "length (filter is_sent (api_log t)) + requests c \<le> length (filter is_sent (api_log s)) + requests c'"
    "(\<exists>r. c = Returned r \<and> c' = c) \<or> steps_left c' < steps_left c" by blast+
qed

text \<open>The state of all: \<open>sent0\<close> requests had been sent before the first call.\<close>

definition fetches_ok :: "outside \<Rightarrow> (string \<Rightarrow> string) \<Rightarrow> workflowFetcher \<Rightarrow> nat \<Rightarrow> fetches \<Rightarrow> bool" where
  "fetches_ok out content f0 sent0 = (\<lambda>(f, s, cs).
     cache_ok content f0 f \<and> (\<forall>(a, c) \<in> set cs. served out content a \<and> call_ok out content a c)
     \<and> length (filter is_sent (api_log s)) \<le> sent0 + (\<Sum>(a, c) \<leftarrow> cs. requests c))"

lemma fetches_okD:
  assumes "fetches_ok out content f0 sent0 (f, s, cs)" "i < length cs" "cs ! i = (a, c)"
  shows "cache_ok content f0 f" "served out content a" "call_ok out content a c"
  using assms nth_mem [OF assms(2)] by (auto simp: fetches_ok_def)

lemma act_ok:
  assumes "serves out content f0" "fetches_ok out content f0 sent0 st"
  shows "fetches_ok out content f0 sent0 (act out x st)"
proof -
  obtain f s cs where st: "st = (f, s, cs)" by (cases st) auto
  note ok = assms(2) [unfolded st fetches_ok_def, simplified]
  show ?thesis
  proof (cases x)
    case (Begin owner repo path ref token)
    then show ?thesis
      using ok served_args [OF assms(1)] by (auto simp: st fetches_ok_def cache_ok_def fetch_args_of_def)
  next
    case (Step i)
    show ?thesis
    proof (cases "i < length cs")
      case True
      obtain a c where i: "cs ! i = (a, c)" by force
      note c = fetches_okD [OF assms(2) [unfolded st] True i]
      obtain c' g t where one: "call_step out a c (f, s) = (c', g, t)" by (metis prod_cases3)
      note after = call_step_ok [OF one c]
      have "(\<Sum>(a, c) \<leftarrow> cs[i := (a, c')]. requests c) + requests c = (\<Sum>(a, c) \<leftarrow> cs. requests c) + requests c'"
        using True i by (induction cs arbitrary: i) (auto simp: nth_Cons split: nat.splits prod.splits)
      moreover have "\<forall>(a, c) \<in> set (cs[i := (a, c')]). served out content a \<and> call_ok out content a c"
        using ok after(2) c(2) set_update_subset_insert [of cs i "(a, c')"] by fastforce
      ultimately show ?thesis
        using ok after(1,3) True i one by (simp add: st Step fetches_ok_def)
    next
      case False
      then show ?thesis using assms(2) by (simp add: st Step)
    qed
  qed
qed

lemma schedule_ok:
  "serves out content f0 \<Longrightarrow> fetches_ok out content f0 sent0 st \<Longrightarrow> fetches_ok out content f0 sent0 (schedule out acts st)"
  by (induction acts arbitrary: st) (simp_all add: act_ok)

section \<open>Progress\<close>

lemma act_call:
  assumes "act out (Step j) (f, s, cs) = (g, t, cs')"
  shows "length cs' = length cs" "i \<noteq> j \<Longrightarrow> i < length cs \<Longrightarrow> cs' ! i = cs ! i" "i < length cs \<Longrightarrow> fst (cs' ! i) = fst (cs ! i)"
  using assms by (auto simp: nth_list_update split: if_splits prod.splits)

lemma schedule_length: "schedule out (map Step js) (f, s, cs) = (g, t, cs') \<Longrightarrow> length cs' = length cs"
proof (induction js arbitrary: f s cs)
  case (Cons j js)
  obtain f1 s1 cs1 where "act out (Step j) (f, s, cs) = (f1, s1, cs1)" by (metis prod_cases3)
  then show ?case using Cons act_call(1) by (metis list.simps(9) schedule_simps(2))
qed simp

text \<open>A call that gets enough steps returns, whatever the others do in between.\<close>

lemma enough_steps:
  assumes "serves out content f0" "fetches_ok out content f0 sent0 (f, s, cs)" "i < length cs"
    and "steps_left (snd (cs ! i)) \<le> count_list js i" "schedule out (map Step js) (f, s, cs) = (g, t, cs')"
  shows "length cs' = length cs \<and> fst (cs' ! i) = fst (cs ! i) \<and> (\<exists>r. snd (cs' ! i) = Returned r)"
  using assms(2-)
proof (induction js arbitrary: f s cs)
  case Nil
  obtain a c where i: "cs ! i = (a, c)" by force
  have "\<exists>r. c = Returned r" using fetches_okD(3) [OF Nil(1,2) i] Nil(3) by (cases c) (auto simp: i)
  then show ?case using Nil(4) i by simp
next
  case (Cons j js)
  obtain f1 s1 cs1 where one: "act out (Step j) (f, s, cs) = (f1, s1, cs1)" by (metis prod_cases3)
  note ok1 = act_ok [OF assms(1) Cons.prems(1), of "Step j", unfolded one] and frame = act_call [OF one]
  have "steps_left (snd (cs1 ! i)) \<le> count_list js i"
  proof (cases "i = j")
    case True
    obtain a c where i: "cs ! i = (a, c)" by force
    obtain c' where c': "call_step out a c (f, s) = (c', f1, s1)" "snd (cs1 ! i) = c'"
      using one Cons.prems(2) i True by (auto split: prod.splits)
    from call_step_ok(4) [OF c'(1) fetches_okD [OF Cons.prems(1,2) i]] show ?thesis using Cons.prems(3) True i c'(2) by auto
  next
    case False
    then show ?thesis using frame(2) [OF False] Cons.prems(2,3) by simp
  qed
  then show ?case using Cons.IH [OF ok1] Cons.prems(2,4) frame(1,3) one by simp
qed

section \<open>Properties\<close>

text \<open>C12. Parallel fetches. However any number of calls of \<open>Fetch\<close> on the shared fetcher interleave, if a readable
  200 answer for a file at a commit is that file, then whatever a call has returned is the file it asked
  for; the cache holds nothing but files under their own keys, each key once and never more than the
  capacity; there are at most four requests per call; and no call waits for another: once each has been
  given thirteen more steps, in any order, all have returned.\<close>

theorem parallel_fetches:
  assumes "fetcher_usable out content f0" "schedule out acts (f0, s0, []) = (f, s, cs)"
  shows "cache_invar f \<and> cache_holds content f \<and> int (length (wf_lru f)) \<le> wf_capacity f0
    \<and> (\<forall>a body. (a, Returned (Inr body)) \<in> set cs \<longrightarrow> body = content (fa_key a))
    \<and> length (filter is_sent (api_log s)) \<le> length (filter is_sent (api_log s0)) + 4 * length cs
    \<and> (\<forall>js. (\<forall>i < length cs. 13 \<le> count_list js i) \<longrightarrow>
        (case schedule out (map Step js) (f, s, cs) of (_, _, cs') \<Rightarrow>
           length cs' = length cs \<and> (\<forall>i < length cs. fst (cs' ! i) = fst (cs ! i) \<and> (\<exists>r. snd (cs' ! i) = Returned r))))"
proof -
  let ?sent0 = "length (filter is_sent (api_log s0))"
  have u: "cache_invar f0" "cache_holds content f0" "serves out content f0" using assms(1) by (simp_all add: fetcher_usable_def)
  then have "fetches_ok out content f0 ?sent0 (f0, s0, [])" by (simp add: fetches_ok_def cache_ok_def same_config_def)
  from schedule_ok [OF u(3) this, of acts]
  have ok: "fetches_ok out content f0 ?sent0 (f, s, cs)" by (simp add: assms(2))
  then have calls: "\<forall>(a, c) \<in> set cs. call_ok out content a c" by (auto simp: fetches_ok_def)
  have "requests c \<le> 4" "steps_left c \<le> 13" if "call_ok out content a c" for a c
    using that by (cases c; simp add: maxFetchRetries_def)+
  with calls have bounds: "\<forall>(a, c) \<in> set cs. requests c \<le> 4 \<and> steps_left c \<le> 13" by fast
  then have "(\<Sum>(a, c) \<leftarrow> cs. requests c) \<le> 4 * length cs" by (induction cs) auto
  then have "length (filter is_sent (api_log s)) \<le> ?sent0 + 4 * length cs" using ok by (simp add: fetches_ok_def)
  moreover have "body = content (fa_key a)" if "(a, Returned (Inr body)) \<in> set cs" for a body using calls that by auto
  moreover have "cache_invar f" "cache_holds content f" "same_config f0 f" using ok by (simp_all add: fetches_ok_def cache_ok_def)
  moreover have "length cs' = length cs \<and> (\<forall>i < length cs. fst (cs' ! i) = fst (cs ! i) \<and> (\<exists>r. snd (cs' ! i) = Returned r))"
    if js: "\<forall>i < length cs. 13 \<le> count_list js i" and run: "schedule out (map Step js) (f, s, cs) = (g, t, cs')" for js g t cs'
  proof -
    have "fst (cs' ! i) = fst (cs ! i) \<and> (\<exists>r. snd (cs' ! i) = Returned r)" if i: "i < length cs" for i
    proof -
      have "steps_left (snd (cs ! i)) \<le> count_list js i" using bounds nth_mem [OF i] js i by fastforce
      from enough_steps [OF u(3) ok i this run] show ?thesis by simp
    qed
    then show ?thesis using schedule_length [OF run] by simp
  qed
  ultimately show ?thesis using cache_invarD(4) [of f] by (auto simp: same_config_def split: prod.split)
qed

text \<open>Two calls for the same file, neither of which finds it cached.\<close>

definition two_calls :: "action list" where
  "two_calls =
     [Begin ''acme'' ''app'' ''ci.yml'' ''c0ffee'' ''tok'', Begin ''acme'' ''app'' ''ci.yml'' ''c0ffee'' [],
      Step 0, Step 1, Step 1, Step 0, Step 0, Step 1]"

theorem parallel_fetches_witness:
  "map snd (snd (snd (schedule (scripted []) two_calls (example_fetcher, new_api, [])))) =
     [Returned (Inr (file_content (cacheKey ''acme'' ''app'' ''ci.yml'' ''c0ffee''))),
      Returned (Inr (file_content (cacheKey ''acme'' ''app'' ''ci.yml'' ''c0ffee'')))]"
proof -
  obtain f s cs where run: "schedule (scripted []) two_calls (example_fetcher, new_api, []) = (f, s, cs)" by (metis prod_cases3)
  have "map snd (snd (snd (schedule (scripted []) two_calls (example_fetcher, new_api, [])))) =
      [Returned (Inr ''jobs: {}''), Returned (Inr ''jobs: {}'')]"
    "map (fa_key \<circ> fst) (snd (snd (schedule (scripted []) two_calls (example_fetcher, new_api, [])))) =
      [cacheKey ''acme'' ''app'' ''ci.yml'' ''c0ffee'', cacheKey ''acme'' ''app'' ''ci.yml'' ''c0ffee'']"
    by code_simp+
  then obtain a b x y where cs: "cs = [(a, Returned (Inr x)), (b, Returned (Inr y))]"
      "fa_key a = cacheKey ''acme'' ''app'' ''ci.yml'' ''c0ffee''" "fa_key b = cacheKey ''acme'' ''app'' ''ci.yml'' ''c0ffee''"
    unfolding run by (auto simp: map_eq_Cons_conv)
  have usable: "fetcher_usable (scripted []) file_content example_fetcher" by (rule scripted_serves) simp
  have "(a, Returned (Inr x)) \<in> set cs" "(b, Returned (Inr y)) \<in> set cs" by (simp_all add: cs(1))
  then have "x = file_content (fa_key a)" "y = file_content (fa_key b)"
    using parallel_fetches [OF usable run] by blast+
  then show ?thesis by (simp add: run cs)
qed

text \<open>What only happens in parallel: between the conditional request of one call and its answer another call
  evicts the entry, and the 304 answer finds nothing cached.\<close>

lemma evicted_meanwhile:
  "snd (snd (snd (schedule (scripted [])
       ([Begin ''acme'' ''app'' ''a.yml'' ''c0'' [], Step 0, Step 0, Step 0,
         Begin ''acme'' ''app'' ''a.yml'' ''c0'' [], Step 1,
         Begin ''acme'' ''app'' ''b.yml'' ''c0'' [], Step 2, Step 2, Step 2, Step 1, Step 1])
       (NewWorkflowFetcher ''dev'' [WithCapacity 1], new_api, []))) ! 1) =
     Returned (Inl (Error False (''workflow fetcher: 304 for '' @ cacheKey ''acme'' ''app'' ''a.yml'' ''c0'' @ '' but nothing cached'')))"
  by code_simp

end
