(* ===== verification/Spec2Isabelle.thy ===== *)
theory Spec2Isabelle
  imports System Manager DeepCopy Parallel
begin

text \<open>
  A verification library for warmrunners, a Kubernetes operator that keeps self-hosted GitHub
  Actions runners warm: it sets the minimum size (the floor) of runner sets from a schedule, from
  the jobs that wait, from jobs that are about to start, and from what people push.

  \<^bold>\<open>The program and the theories.\<close> Paths are below \<open>src/\<close>; a theory's own header says how its state and
  its operations correspond to the code.

  \<^item> \<open>Prelude\<close>, \<open>Strconv\<close>: Go's fixed-width conversions, instants, maps, strings and number formats,
    and errors (a message and whether it is a not-found). \<open>Labels\<close>: the keys of label sets
    (\<open>internal/predictor/predictor.go\<close>) and the superset filters.
  \<^item> \<open>Api\<close>: the resources WarmRunnerPolicy and GitHubApp and their admission rules (\<open>api/v1alpha1\<close>).
  \<^item> \<open>Scheduler\<close> (\<open>internal/scheduler\<close>): which windows are open, and the decision with its cooldown.
  \<^item> \<open>Adapter\<close> (\<open>internal/adapter\<close>): reading and writing the floor of an ARC runner set or a GARM pool
    through the Kubernetes client.
  \<^item> \<open>Reconciler\<close> (\<open>internal/controller/warmrunnerpolicy_controller.go\<close>, \<open>metrics.go\<close>): the loop body of the
    policy controller, which calls all of the above, the demand poller, the predictor and the activity
    sampler, and writes floor, status and metrics. \<open>Signals\<close>, \<open>Floor\<close>, \<open>Safety\<close> hold its lemmas, and
    \<open>Guarantees\<close>, \<open>Cooldown\<close>, \<open>Gauges\<close> its properties. \<open>Memory_Cluster\<close> is a small cluster on which the
    hypotheses about Kubernetes hold, for concrete instances.
  \<^item> \<open>Http\<close>, \<open>Retry\<close>: GitHub's API as the clients see it, the rate-limit gauges
    (\<open>internal/ghapi/ratelimit.go\<close>), escaping, dates, and the retry loop that two clients share.
  \<^item> \<open>Poller\<close>, \<open>Demand\<close> (\<open>internal/demand/github_poller.go\<close>): the jobs that wait and run, over all pages.
  \<^item> \<open>Fetcher\<close> (\<open>internal/predictor/cache.go\<close>): workflow files with retries and an LRU cache. \<open>Parallel\<close>: calls of it
    that interleave.
    \<open>Workflow\<close> (\<open>internal/predictor/workflow/parse.go\<close>): a workflow's jobs, labels and matrices.
    \<open>Predictor\<close>, \<open>Prediction\<close> (\<open>internal/predictor/workflow_needs_graph.go\<close>): the jobs that start next.
  \<^item> \<open>Activity\<close>, \<open>Sampler\<close> (\<open>internal/activity/activity.go\<close>, \<open>workflow_runs_sampler.go\<close>): the runs people
    started recently. \<open>EventFeed\<close> (\<open>event_feed.go\<close>): the same from webhooks.
  \<^item> \<open>Sha256\<close>, \<open>Replay\<close>, \<open>Receiver\<close>, \<open>Deliveries\<close> (\<open>internal/webhook\<close>): signature check, replay guard,
    app lookup, dispatch into the event feed, and the HTTP handler.
  \<^item> \<open>Tunnel\<close> (\<open>internal/webhook/tunnel.go\<close>): the relay client and the registry of running clients.
    \<open>AppController\<close> (\<open>internal/controller/githubapp_controller.go\<close>): the controller that starts and stops
    them and keeps the status of an app.
  \<^item> \<open>Manager\<close> (\<open>cmd/main.go\<close> and both \<open>SetupWithManager\<close> methods): flags, server options, and the order of
    registration with its exit codes. \<open>Operator\<close> (\<open>cmd/main.go\<close>): the process that \<open>main\<close> assembles from all the
    parts, as one state, a reconcile on that state, and the states the process can reach. \<open>Availability\<close>
    shows what predictor and sampler do when GitHub answers every request, and \<open>System\<close> the properties
    of the whole.

  \<^item> \<open>Memory\<close>, \<open>DeepCopy\<close> (\<open>api/v1alpha1/zz_generated.deepcopy.go\<close>): the deep copies of the API types over an explicit
    memory. Every other theory treats API objects as values; this one shows what makes that right.

  \<^bold>\<open>How the parts interact.\<close> A reconcile of a policy polls demand with a poller of its own, then asks the
  predictor, then the sampler. The last two share one fetcher and its cache. The receiver, fed by
  requests and by tunnels, writes the event feed, which the controller reads in place of the sampler
  while it is fresh. The app controller starts and stops the tunnels. Each component is a theory of its
  own and is a function argument of the controller in \<open>Reconciler\<close>; \<open>Operator\<close> puts the components' own
  definitions there.

  \<^bold>\<open>How the code is modelled.\<close> Functions keep their names. State is passed explicitly, one record per
  struct; a mutex makes each operation one step. Every error return is a branch: \<open>error + 'a\<close>, or an
  optional error beside the result. Integers keep their width where the code relies on it (\<open>to_int32\<close>,
  \<open>to_int64\<close>). A Go map that is ranged over is an association list whose order is left open, and the
  results are shown not to depend on it. Loops over data are structural. Retries are bounded by the
  code's own limit. The walk through reusable workflows recurses at most \<open>maxReusableDepth\<close> deep, as the
  code does. Two loops have no bound in the code, paging and reconnecting: they are partial functions
  with values in \<open>option\<close>, and their properties say that they return.

  \<^bold>\<open>What is outside.\<close> The Kubernetes client (record \<open>kube\<close>), GitHub, the clock, the random source and the
  context (records \<open>outside\<close> and \<open>relay\<close>), the YAML parser, the JSON decoders and the time zone database
  are arguments. They may fail, and GitHub may answer differently each time. What a property needs of
  them is a named hypothesis that states their documented behaviour, and a witness instantiates it.

  \<^bold>\<open>Interfaces.\<close> Locales state what one part relies on in another, and are interpreted on the model's own
  definitions: \<open>floor_adapter\<close> (ARC and GARM), \<open>floor_scheduler\<close> (the heuristic), \<open>label_filter\<close> (the two
  superset filters), \<open>retry_client\<close> (fetcher and poller), \<open>workflow_source\<close> (the fetcher, for
  predictor and sampler) and its extension \<open>reliable_source\<close> (the fetcher while GitHub answers), \<open>page_loop\<close>
  (both paging loops), and those of the event feed and the replay guard. \<open>deep_copy\<close> is the contract
  of a copy function.

  \<^bold>\<open>What is shown.\<close>
  \<^item> The whole operator: every state it can reach is well formed (caches hold what GitHub has, guard and
    registry are consistent, the feed is what the deliveries amount to), and from each of them a
    reconcile returns with a floor that covers the jobs about to start and the jobs announced by
    deliveries. The manager is started exactly when everything was registered.
  \<^item> Parallel fetches: in every interleaving each call returns its file or an error, after a bounded number
    of its own steps, and the cache stays exact.
  \<^item> Deep copies: a copy has the value of its original and shares no memory with it.
  \<^item> Policy controller: the floor it writes is the promised one, within its bounds; it leaves the backend
    alone in the cases it must; decreases are a cooldown apart in every interleaving with other actors;
    the status and the gauges say what happened.
  \<^item> Demand, prediction and activity: each signal is the count it is documented to be (all pages; all
    imminent jobs through reusable workflows; all runs people started within the cap), the loops end,
    retries are bounded and spaced, caches return current contents and stay within their capacity.
  \<^item> Webhooks: only signed deliveries have an effect, once each, and the feed holds exactly those; the
    guard refines a bounded list; the tunnel delivers every frame of a stream, reconnects at a bounded
    pace, and runs exactly for the apps that ask for it; the status of an app says what is missing.
  \<^item> Labels, schedule, adapters, workflow matrices: round trips and equivalence with plain definitions.

  Where the code does something else than it means to, the property states what it does, and a lemma
  beside it shows the case.

  \<^bold>\<open>Not modelled.\<close> The registration of the API group and of the metrics, the flag package and the logger, log
  lines, and the seams that only tests use: they call libraries and decide nothing. Go's memory model and
  the scheduling of goroutines are not modelled either. Controllers and handlers are single steps, each on
  state its mutex protects, and the interleavings considered are those of whole steps; only the calls of the
  fetcher, which release their mutex on the way, are cut into finer ones.
\<close>

end
